theory Spec2Isabelle
  imports Complex_Main "HOL-Library.AList"
begin

section \<open>Variational EM for spike-and-slab PRS models: the two deprecated Cython classes\<close>

text \<open>
  The development embeds \<^verbatim>\<open>vem_c_opt.pyx\<close> (class \<^verbatim>\<open>vem_prs_opt\<close>, one global
  residual variance and the helper \<^verbatim>\<open>q\<close>) and \<^verbatim>\<open>vem_c_sbayes.pyx\<close> (class
  \<^verbatim>\<open>vem_prs_sbayes\<close>, one residual variance per variant and the scalar
  \<^verbatim>\<open>ld_prod\<close>).

  Conventions of the embedding.
  \<^item> A C \<^verbatim>\<open>double\<close> and a numpy \<^verbatim>\<open>float64\<close> are a \<^typ>\<open>real\<close>: rounding is not
    modelled. Where the floating-point computation leaves the finite numbers by a numpy
    division by zero or a logarithm of a non-positive number, the model returns the error
    \<open>NonFinite\<close>, since no real number stands for \<^verbatim>\<open>inf\<close> or \<^verbatim>\<open>nan\<close>. Overflow is not
    modelled in the functions: a theorem whose conclusion depends on the numbers computed
    assumes a valid state (\<open>valid_m_step\<close> below), whose bounds keep every intermediate
    value far below the largest double.
  \<^item> Both files are compiled with \<^verbatim>\<open>cdivision\<close> left at its default, so a division of C
    doubles by zero raises \<^verbatim>\<open>ZeroDivisionError\<close>.
  \<^item> Both files set \<^verbatim>\<open>boundscheck=False\<close> and \<^verbatim>\<open>wraparound=False\<close>: an index outside a typed
    memoryview is undefined behaviour of the compiled code. The model returns the error
    \<open>OutOfBounds\<close> there, so that no theorem speaks about such a run.
  \<^item> \<open>NonFinite\<close> is no exception of the program, which goes on with \<^verbatim>\<open>inf\<close> or \<^verbatim>\<open>nan\<close>; the
    model stops there, because nothing that follows can be stated over the reals.
  \<^item> A Python dict keyed by block is an association list in insertion order, the order in
    which the loops of the code visit it; a dict never holds a key twice, and the
    operations below keep it so. The two dicts keyed by strings (\<^verbatim>\<open>history\<close>, \<^verbatim>\<open>fix_params\<close>)
    are never iterated over, and are maps.
  \<^item> The draws of \<^verbatim>\<open>np.random\<close> are read from an explicit source of numbers.
\<close>

subsection \<open>Errors and results\<close>

datatype error =
    KeyError
  | ZeroDivisionError
  | ValueError
  | IndexError
  | UnboundLocalError
  | OutOfBounds
  | NonFinite

type_synonym 'a result = "error + 'a"

definition bind_res :: "'a result \<Rightarrow> ('a \<Rightarrow> 'b result) \<Rightarrow> 'b result" where
  "bind_res m f = (case m of Inl e \<Rightarrow> Inl e | Inr x \<Rightarrow> f x)"

text \<open>
  \<^verbatim>\<open>d[k]\<close> on a dict raises \<^verbatim>\<open>KeyError\<close> when the key is absent; \<^verbatim>\<open>d[k] = v\<close> replaces the value
  of a key in place and puts a new key last.
\<close>

type_synonym block = nat
type_synonym 'v bdict = "(block \<times> 'v) list"

definition getitem :: "'v bdict \<Rightarrow> block \<Rightarrow> 'v result" where
  "getitem d k = (case map_of d k of None \<Rightarrow> Inl KeyError | Some v \<Rightarrow> Inr v)"

definition setitem :: "'v bdict \<Rightarrow> block \<Rightarrow> 'v \<Rightarrow> 'v bdict" where
  "setitem d k v = AList.update k v d"

definition lookup :: "(string \<rightharpoonup> 'v) \<Rightarrow> string \<Rightarrow> 'v result" where
  "lookup d k = (case d k of None \<Rightarrow> Inl KeyError | Some v \<Rightarrow> Inr v)"

text \<open>\<^verbatim>\<open>np.sum([f(c) for c in keys])\<close>: the first element that raises ends the comprehension.\<close>

fun sum_res :: "('a \<Rightarrow> real result) \<Rightarrow> 'a list \<Rightarrow> real result" where
  "sum_res f [] = Inr 0"
| "sum_res f (x # xs) = bind_res (f x) (\<lambda>v. bind_res (sum_res f xs) (\<lambda>r. Inr (v + r)))"

subsection \<open>Vectors and the helpers of \<^verbatim>\<open>c_utils\<close>\<close>

type_synonym vec = "real list"

text \<open>\<^verbatim>\<open>v[a:b]\<close> for indices \<open>0 \<le> a\<close>, \<open>0 \<le> b\<close>: the bounds are clamped to the length.\<close>

definition slice :: "'a list \<Rightarrow> nat \<Rightarrow> nat \<Rightarrow> 'a list" where
  "slice v a b = take (b - a) (drop a v)"

text \<open>
  Modelled from the spec: \<^verbatim>\<open>dot\<close>, \<^verbatim>\<open>sigmoid\<close>, \<^verbatim>\<open>clip\<close> and \<^verbatim>\<open>elementwise_add_mult\<close> are
  cimported from \<^verbatim>\<open>c_utils\<close>, which is not among the sources. The spec uses them as the
  inner product of two equally long vectors, the logistic function, the clamp of a value
  to \<open>[lo, hi]\<close>, and "accumulate the LD-weighted contribution of the newly updated
  expected effect", that is \<open>v1[k] + v2[k] * s\<close> at every position.
\<close>

definition dot :: "vec \<Rightarrow> vec \<Rightarrow> real" where
  "dot v1 v2 = sum_list (map2 (*) v1 v2)"

definition sigmoid :: "real \<Rightarrow> real" where
  "sigmoid x = 1 / (1 + exp (- x))"

definition clip :: "real \<Rightarrow> real \<Rightarrow> real \<Rightarrow> real" where
  "clip a min_value max_value = min (max a min_value) max_value"

definition elementwise_add_mult :: "vec \<Rightarrow> vec \<Rightarrow> real \<Rightarrow> vec" where
  "elementwise_add_mult v1 v2 s = map2 (\<lambda>a b. a + b * s) v1 v2"

text \<open>
  numpy on one-dimensional arrays: \<^verbatim>\<open>np.multiply\<close> (also \<^verbatim>\<open>*\<close> and \<^verbatim>\<open>+\<close>) works position by
  position, broadcasts an array of length one, and raises \<^verbatim>\<open>ValueError\<close> on any other pair
  of lengths; \<^verbatim>\<open>np.dot\<close> raises it whenever the lengths differ; \<^verbatim>\<open>np.clip(a, lo, hi)\<close> is
  \<^verbatim>\<open>minimum(maximum(a, lo), hi)\<close>, with \<^verbatim>\<open>hi = np.inf\<close> meaning no upper bound.
\<close>

definition np_zip :: "(real \<Rightarrow> real \<Rightarrow> real) \<Rightarrow> vec \<Rightarrow> vec \<Rightarrow> vec result" where
  "np_zip f a b =
     (if length a = length b then Inr (map2 f a b)
      else if length a = 1 then Inr (map (f (hd a)) b)
      else if length b = 1 then Inr (map (\<lambda>x. f x (hd b)) a)
      else Inl ValueError)"

definition np_multiply :: "vec \<Rightarrow> vec \<Rightarrow> vec result" where
  "np_multiply a b = np_zip (*) a b"

definition np_add :: "vec \<Rightarrow> vec \<Rightarrow> vec result" where
  "np_add a b = np_zip (+) a b"

definition np_dot :: "vec \<Rightarrow> vec \<Rightarrow> real result" where
  "np_dot a b = (if length a = length b then Inr (dot a b) else Inl ValueError)"

text \<open>\<^verbatim>\<open>v ** 2\<close> and \<^verbatim>\<open>v * v\<close> on one array, and \<^verbatim>\<open>np.dot(a, b * b + c)\<close>, which both M-steps use.\<close>

definition vsq :: "vec \<Rightarrow> vec" where
  "vsq v = map (\<lambda>x. x * x) v"

definition dot_sq_plus :: "vec \<Rightarrow> vec \<Rightarrow> vec \<Rightarrow> real result" where
  "dot_sq_plus a b c = bind_res (np_add (vsq b) c) (np_dot a)"

definition np_clip :: "real \<Rightarrow> real \<Rightarrow> real option \<Rightarrow> real" where
  "np_clip a lo hi = (case hi of None \<Rightarrow> max a lo | Some h \<Rightarrow> min (max a lo) h)"

subsection \<open>The model state\<close>

text \<open>
  The fields the two classes share, with those they inherit from \<^verbatim>\<open>PRSModel\<close> (\<^verbatim>\<open>N\<close>, \<^verbatim>\<open>M\<close>,
  \<^verbatim>\<open>shapes\<close>, \<^verbatim>\<open>pip\<close>, \<^verbatim>\<open>inf_beta\<close>) and the one attribute of the data loader the code reads
  again at every initialization (\<^verbatim>\<open>gdl.beta_hats\<close>). \<^verbatim>\<open>PRSModel\<close> is not among the sources:
  \<open>N\<close> and \<open>M\<close> are the sample size and the total variant count of the spec, both counts.
  The field \<^verbatim>\<open>pi\<close> is \<open>pi_par\<close> here, since \<^term>\<open>pi\<close> is the circle constant.
  \<^verbatim>\<open>ld_bounds[c]\<close> is a two-row array: row 0 holds the window starts, row 1 the ends.
\<close>

record vem_prs =
  N :: nat
  M :: nat
  shapes :: "nat bdict"
  gdl_beta_hats :: "vec bdict"
  pi_par :: real
  sigma_beta :: real
  sigma_epsilon :: real
  scale_prior :: bool
  var_mu_beta :: "vec bdict"
  var_sigma_beta :: "vec bdict"
  var_gamma :: "vec bdict"
  beta_hat :: "vec bdict"
  ld :: "vec list bdict"
  ld_bounds :: "(nat list \<times> nat list) bdict"
  history :: "string \<rightharpoonup> vec"
  fix_params :: "string \<rightharpoonup> real"
  pip :: "vec bdict"
  inf_beta :: "vec bdict"

record vem_prs_opt = vem_prs +
  q :: "vec bdict"

record vem_prs_sbayes = vem_prs +
  ld_prod :: real
  yy :: "vec bdict"
  sig_e_snp :: "vec bdict"

text \<open>
  The generator of \<^verbatim>\<open>np.random\<close>: the numbers it is going to return, in order, before
  scaling (\<open>uniform01\<close> in \<open>[0, 1)\<close>, \<open>std_normal\<close> standard normal).
\<close>

record rng =
  uniform01 :: "nat \<Rightarrow> real"
  std_normal :: "nat \<Rightarrow> real"

definition random_uniform :: "real \<Rightarrow> real \<Rightarrow> rng \<Rightarrow> real \<times> rng" where
  "random_uniform low high g =
     (low + (high - low) * uniform01 g 0, g\<lparr>uniform01 := (\<lambda>k. uniform01 g (Suc k))\<rparr>)"

definition random_uniform_vec :: "nat \<Rightarrow> rng \<Rightarrow> vec \<times> rng" where
  "random_uniform_vec n g =
     (map (uniform01 g) [0..<n], g\<lparr>uniform01 := (\<lambda>k. uniform01 g (n + k))\<rparr>)"

definition random_normal_vec :: "real \<Rightarrow> nat \<Rightarrow> rng \<Rightarrow> vec \<times> rng" where
  "random_normal_vec scale n g =
     (map (\<lambda>k. scale * std_normal g k) [0..<n], g\<lparr>std_normal := (\<lambda>k. std_normal g (n + k))\<rparr>)"

subsection \<open>Initialization (both classes)\<close>

definition init_history :: "'a vem_prs_scheme \<Rightarrow> 'a vem_prs_scheme" where
  "init_history s =
     s\<lparr>history := [''ELBO'' \<mapsto> [], ''pi'' \<mapsto> [], ''sigma_beta'' \<mapsto> [],
                    ''sigma_epsilon'' \<mapsto> [], ''heritability'' \<mapsto> []]\<rparr>"

text \<open>
  The loop body of \<^verbatim>\<open>initialize_variational_params\<close> without the line on \<^verbatim>\<open>q\<close>.
  \<^verbatim>\<open>1./self.M\<close> raises when \<open>M = 0\<close>.
\<close>

definition init_var_block :: "block \<Rightarrow> nat \<Rightarrow> 'a vem_prs_scheme \<times> rng \<Rightarrow> ('a vem_prs_scheme \<times> rng) result" where
  "init_var_block c c_size sg =
     (case sg of (s, g) \<Rightarrow>
        (case random_uniform_vec c_size g of (gam, g1) \<Rightarrow>
        (case random_normal_vec (1 / sqrt (real (M s))) c_size g1 of (mu, g2) \<Rightarrow>
           if M s = 0 then Inl ZeroDivisionError
           else Inr (s\<lparr>var_gamma := setitem (var_gamma s) c gam,
                       var_mu_beta := setitem (var_mu_beta s) c mu,
                       var_sigma_beta := setitem (var_sigma_beta s) c (replicate c_size (1 / real (M s)))\<rparr>, g2))))"

text \<open>\<^verbatim>\<open>self.history[k].append(v)\<close>.\<close>

definition history_append :: "string \<Rightarrow> real \<Rightarrow> 'a vem_prs_scheme \<Rightarrow> 'a vem_prs_scheme result" where
  "history_append k v s =
     bind_res (lookup (history s) k) (\<lambda>h. Inr (s\<lparr>history := (history s)(k \<mapsto> h @ [v])\<rparr>))"

text \<open>
  \<^verbatim>\<open>var_gamma_sum\<close>: the sum of all entries of all arrays of \<^verbatim>\<open>var_gamma\<close>, and the list
  comprehension \<^verbatim>\<open>[np.dot(var_gamma[c], var_mu_beta[c] ** 2 + var_sigma_beta[c]) for c in
  var_mu_beta]\<close> of the update of \<^verbatim>\<open>sigma_beta\<close>, summed. Both M-steps start with them.
\<close>

definition var_gamma_sum :: "'a vem_prs_scheme \<Rightarrow> real" where
  "var_gamma_sum s = sum_list (map (\<lambda>(c, g). sum_list g) (var_gamma s))"

definition sigma_beta_numerator :: "'a vem_prs_scheme \<Rightarrow> real result" where
  "sigma_beta_numerator s =
     sum_res (\<lambda>c.
        bind_res (getitem (var_gamma s) c) (\<lambda>g.
        bind_res (getitem (var_mu_beta s) c) (\<lambda>mu.
        bind_res (getitem (var_sigma_beta s) c) (\<lambda>sb.
        dot_sq_plus g mu sb))))
       (map fst (var_mu_beta s))"

subsection \<open>The objective and the heritability (both classes)\<close>

text \<open>
  \<^verbatim>\<open>objective\<close> and \<^verbatim>\<open>get_heritability\<close> are the same text in both files but for one term:
  \<^verbatim>\<open>np.dot(gamma_mu, self.q[c])\<close> and \<^verbatim>\<open>np.dot(self.q[c], gamma_mu)\<close> in \<^verbatim>\<open>vem_prs_opt\<close>,
  \<^verbatim>\<open>self.ld_prod\<close> in \<^verbatim>\<open>vem_prs_sbayes\<close>. The term is the parameter \<open>ld_term\<close> here.
\<close>

definition np_log :: "vec \<Rightarrow> vec result" where
  "np_log v = (if list_ex (\<lambda>x. x \<le> 0) v then Inl NonFinite else Inr (map ln v))"

definition one_minus :: "vec \<Rightarrow> vec" where
  "one_minus v = map (\<lambda>x. 1 - x) v"

definition np_div_scalar :: "vec \<Rightarrow> real \<Rightarrow> vec result" where
  "np_div_scalar v d = (if d = 0 then Inl NonFinite else Inr (map (\<lambda>x. x / d) v))"

definition np_div_one_minus :: "vec \<Rightarrow> vec result" where
  "np_div_one_minus v =
     (if list_ex (\<lambda>x. 1 - x = 0) v then Inl NonFinite else Inr (map (\<lambda>x. x / (1 - x)) v))"

definition prior_var_of :: "'a vem_prs_scheme \<Rightarrow> real" where
  "prior_var_of s = (if scale_prior s then sigma_epsilon s * sigma_beta s else sigma_beta s)"

text \<open>The body of the loop over the blocks; the pair is \<open>(loglik, ent)\<close>.\<close>

definition objective_block ::
  "('a vem_prs_scheme \<Rightarrow> block \<Rightarrow> vec \<Rightarrow> real result) \<Rightarrow> 'a vem_prs_scheme \<Rightarrow> block \<Rightarrow>
   real \<times> real \<Rightarrow> (real \<times> real) result" where
  "objective_block ld_term s c acc =
     (case acc of (loglik, ent) \<Rightarrow>
      let prior_var = prior_var_of s in
      bind_res (getitem (beta_hat s) c) (\<lambda>beta_hat_c.
      bind_res (getitem (var_gamma s) c) (\<lambda>g.
      bind_res (getitem (var_mu_beta s) c) (\<lambda>mu.
      bind_res (np_multiply g mu) (\<lambda>gamma_mu.
      bind_res (getitem (var_sigma_beta s) c) (\<lambda>sb.
      bind_res (np_add (vsq mu) sb) (\<lambda>t.
      bind_res (np_multiply g t) (\<lambda>gamma_mu_sig.
      if sigma_epsilon s = 0 then Inl ZeroDivisionError
      else
        bind_res (np_dot gamma_mu beta_hat_c) (\<lambda>d1.
        bind_res (ld_term s c gamma_mu) (\<lambda>d2.
        let loglik = loglik + (- (1 / 2) * real (N s) / sigma_epsilon s)
                                * (- 2 * d1 + d2 + sum_list gamma_mu_sig) in
        if prior_var = 0 then Inl ZeroDivisionError
        else
          let loglik = loglik + (- (1 / 2) / prior_var)
                                  * (sum_list gamma_mu_sig + prior_var * sum_list (one_minus g)) in
          if 1 - pi_par s = 0 then Inl ZeroDivisionError
          else if pi_par s / (1 - pi_par s) \<le> 0 then Inl NonFinite
          else
            let loglik = loglik + ln (pi_par s / (1 - pi_par s)) * sum_list g in
            bind_res (np_div_scalar sb prior_var) (\<lambda>r1.
            bind_res (np_log r1) (\<lambda>l1.
            bind_res (np_dot g l1) (\<lambda>e1.
            bind_res (np_div_one_minus g) (\<lambda>r2.
            bind_res (np_log r2) (\<lambda>l2.
            bind_res (np_dot g l2) (\<lambda>e2.
            bind_res (np_log (one_minus g)) (\<lambda>l3.
            Inr (loglik, ent + (1 / 2) * e1 - e2 - sum_list l3))))))))))))))))))"

fun objective_blocks ::
  "('a vem_prs_scheme \<Rightarrow> block \<Rightarrow> vec \<Rightarrow> real result) \<Rightarrow> 'a vem_prs_scheme \<Rightarrow> block list \<Rightarrow>
   real \<times> real \<Rightarrow> (real \<times> real) result" where
  "objective_blocks ld_term s [] acc = Inr acc"
| "objective_blocks ld_term s (c # cs) acc =
     bind_res (objective_block ld_term s c acc) (objective_blocks ld_term s cs)"

text \<open>The four statements before the loop add the quantities that no block changes.\<close>

definition objective ::
  "('a vem_prs_scheme \<Rightarrow> block \<Rightarrow> vec \<Rightarrow> real result) \<Rightarrow> 'a vem_prs_scheme \<Rightarrow>
   (real \<times> 'a vem_prs_scheme) result" where
  "objective ld_term s =
     (let prior_var = prior_var_of s in
      if sigma_epsilon s = 0 then Inl ZeroDivisionError
      else if 2 * pi * sigma_epsilon s \<le> 0 \<or> 2 * pi * prior_var \<le> 0 \<or> 1 - pi_par s \<le> 0
              \<or> 2 * pi * exp 1 * prior_var \<le> 0 then Inl NonFinite
      else
        let loglik = 0 - (1 / 2) * real (N s) * (ln (2 * pi * sigma_epsilon s) + 1 / sigma_epsilon s);
            loglik = loglik - (1 / 2) * real (M s) * ln (2 * pi * prior_var);
            loglik = loglik + real (M s) * ln (1 - pi_par s);
            ent = 0 + (1 / 2) * real (M s) * ln (2 * pi * exp 1 * prior_var)
        in
        bind_res (objective_blocks ld_term s (map fst (var_mu_beta s)) (loglik, ent)) (\<lambda>(loglik, ent).
          let elbo = loglik + ent in
          bind_res (history_append ''ELBO'' elbo s) (\<lambda>s'. Inr (elbo, s'))))"

text \<open>
  \<^verbatim>\<open>get_heritability\<close>: \<open>sigma_g\<close> is the sum over the blocks of \<^verbatim>\<open>var_gamma\<close> of the expected
  squared effects plus the term of the class; \<open>ld_total\<close> is what \<^verbatim>\<open>vem_prs_sbayes\<close> adds
  once, after the sum.
\<close>

definition heritability_block ::
  "('a vem_prs_scheme \<Rightarrow> block \<Rightarrow> vec \<Rightarrow> real result) \<Rightarrow> 'a vem_prs_scheme \<Rightarrow> block \<Rightarrow> real result" where
  "heritability_block ld_term s c =
     bind_res (getitem (var_gamma s) c) (\<lambda>g.
     bind_res (getitem (var_mu_beta s) c) (\<lambda>mu.
     bind_res (getitem (var_sigma_beta s) c) (\<lambda>sb.
     bind_res (np_add (vsq mu) sb) (\<lambda>t.
     bind_res (np_multiply g t) (\<lambda>gamma_mu_sig.
     bind_res (np_multiply g mu) (\<lambda>gamma_mu.
     bind_res (ld_term s c gamma_mu) (\<lambda>d.
     Inr (sum_list gamma_mu_sig + d))))))))"

definition get_heritability ::
  "('a vem_prs_scheme \<Rightarrow> block \<Rightarrow> vec \<Rightarrow> real result) \<Rightarrow> real \<Rightarrow> 'a vem_prs_scheme \<Rightarrow>
   (real \<times> 'a vem_prs_scheme) result" where
  "get_heritability ld_term ld_total s =
     bind_res (sum_res (heritability_block ld_term s) (map fst (var_gamma s))) (\<lambda>sg.
       let sigma_g = sg + ld_total in
       if sigma_g + sigma_epsilon s = 0 then Inl NonFinite
       else
         let h2g = sigma_g / (sigma_g + sigma_epsilon s) in
         bind_res (history_append ''heritability'' h2g s) (\<lambda>s'. Inr (h2g, s')))"

subsection \<open>\<^verbatim>\<open>vem_prs_opt\<close>: initialization\<close>

text \<open>
  \<^verbatim>\<open>initialize_variational_params\<close>: the three dicts are emptied (\<^verbatim>\<open>q\<close> is not), then every
  block of \<^verbatim>\<open>shapes\<close> gets fresh arrays of the declared size.
\<close>

fun init_var_blocks_opt :: "nat bdict \<Rightarrow> vem_prs_opt \<times> rng \<Rightarrow> (vem_prs_opt \<times> rng) result" where
  "init_var_blocks_opt [] sg = Inr sg"
| "init_var_blocks_opt ((c, c_size) # rest) sg =
     (case sg of (s, g) \<Rightarrow>
        bind_res (init_var_block c c_size (s\<lparr>q := setitem (q s) c (replicate c_size 0)\<rparr>, g))
          (init_var_blocks_opt rest))"

definition initialize_variational_params_opt :: "vem_prs_opt \<times> rng \<Rightarrow> (vem_prs_opt \<times> rng) result" where
  "initialize_variational_params_opt sg =
     (case sg of (s, g) \<Rightarrow>
        init_var_blocks_opt (shapes s)
          (s\<lparr>var_mu_beta := [], var_sigma_beta := [], var_gamma := []\<rparr>, g))"

definition initialize_theta_opt :: "vem_prs_opt \<times> rng \<Rightarrow> (vem_prs_opt \<times> rng) result" where
  "initialize_theta_opt sg =
     (case sg of (s, g) \<Rightarrow>
        (case (case fix_params s ''sigma_beta'' of
                 None \<Rightarrow> random_uniform (1 / 10 ^ 6) (1 / 10) g
               | Some v \<Rightarrow> (v, g)) of (sb, g1) \<Rightarrow>
        (case (case fix_params s ''sigma_epsilon'' of
                 None \<Rightarrow> random_uniform (1 / 2) 1 g1
               | Some v \<Rightarrow> (v, g1)) of (se, g2) \<Rightarrow>
        (case fix_params s ''pi'' of
           None \<Rightarrow>
             if M s = 0 then Inl ZeroDivisionError
             else (case random_uniform (1 / real (M s)) (1 / 2) g2 of (p, g3) \<Rightarrow>
                     Inr (s\<lparr>sigma_beta := sb, sigma_epsilon := se, pi_par := p\<rparr>, g3))
         | Some v \<Rightarrow> Inr (s\<lparr>sigma_beta := sb, sigma_epsilon := se, pi_par := v\<rparr>, g2)))))"

definition initialize_opt :: "vem_prs_opt \<times> rng \<Rightarrow> (vem_prs_opt \<times> rng) result" where
  "initialize_opt sg =
     (case sg of (s, g) \<Rightarrow>
        bind_res (initialize_variational_params_opt (s\<lparr>beta_hat := gdl_beta_hats s\<rparr>, g)) (\<lambda>sg1.
        bind_res (initialize_theta_opt sg1) (\<lambda>(s2, g2).
        Inr (init_history s2, g2))))"

subsection \<open>\<^verbatim>\<open>vem_prs_opt\<close>: the E-step\<close>

text \<open>
  One turn of the loop over the variants of a block (lines 138 to 160). The local arrays
  are the tuple \<open>(var_mu_beta, var_gamma, var_prod, q)\<close>. \<open>i_idx = i - start\<close> is an
  \<^verbatim>\<open>unsigned int\<close>: with \<open>start > i\<close> it wraps around and \<^verbatim>\<open>Di[i_idx]\<close> reads outside the row.
  \<^verbatim>\<open>dot\<close> is handed a row and a slice, and reads outside one of them unless they are equally
  long.
\<close>

definition e_step_snp_opt ::
  "real \<Rightarrow> real \<Rightarrow> real \<Rightarrow> vec \<Rightarrow> vec \<Rightarrow> nat list \<times> nat list \<Rightarrow> nat \<Rightarrow> vec \<Rightarrow>
   vec \<times> vec \<times> vec \<times> vec \<Rightarrow> (vec \<times> vec \<times> vec \<times> vec) result" where
  "e_step_snp_opt prior_var denom log_pi beta_hat_c var_sigma_beta_c ld_bound i Di st =
     (case st of (var_mu_beta_c, var_gamma_c, var_prod, q_c) \<Rightarrow>
      if \<not> (i < length (fst ld_bound) \<and> i < length (snd ld_bound)) then Inl OutOfBounds
      else
        let start = fst ld_bound ! i; stop = snd ld_bound ! i; i_idx = i - start in
        if \<not> (start \<le> i \<and> i_idx < length Di \<and> length Di = length (slice var_prod start stop)
              \<and> i < length beta_hat_c \<and> i < length var_mu_beta_c \<and> i < length var_sigma_beta_c
              \<and> i < length var_gamma_c \<and> i < length var_prod \<and> i < length q_c)
        then Inl OutOfBounds
        else if denom = 0 then Inl ZeroDivisionError
        else
          let mu_i = (beta_hat_c ! i - dot Di (slice var_prod start stop) + Di ! i_idx * var_prod ! i) / denom;
              var_mu_beta_c = var_mu_beta_c[i := mu_i]
          in
          if prior_var = 0 \<or> var_sigma_beta_c ! i = 0 then Inl ZeroDivisionError
          else if var_sigma_beta_c ! i / prior_var \<le> 0 then Inl NonFinite
          else
            let u_i = log_pi + (1 / 2) * ln (var_sigma_beta_c ! i / prior_var)
                        + ((1 / 2) / var_sigma_beta_c ! i) * var_mu_beta_c ! i * var_mu_beta_c ! i;
                var_gamma_c = var_gamma_c[i := clip (sigmoid u_i) (1 / 10 ^ 6) (1 - 1 / 10 ^ 6)];
                var_prod = var_prod[i := var_gamma_c ! i * var_mu_beta_c ! i]
            in
            if i_idx > 0 then
              let q_c = q_c[i := dot (take i_idx Di) (slice var_prod start i)];
                  q_c = take start q_c
                        @ elementwise_add_mult (slice q_c start i) (take i_idx Di) (var_prod ! i)
                        @ drop i q_c
              in Inr (var_mu_beta_c, var_gamma_c, var_prod, q_c)
            else Inr (var_mu_beta_c, var_gamma_c, var_prod, q_c))"

text \<open>\<^verbatim>\<open>for i, Di in enumerate(self.ld[c])\<close>, from index \<open>i\<close> on.\<close>

fun e_step_pass_opt ::
  "real \<Rightarrow> real \<Rightarrow> real \<Rightarrow> vec \<Rightarrow> vec \<Rightarrow> nat list \<times> nat list \<Rightarrow> nat \<Rightarrow> vec list \<Rightarrow>
   vec \<times> vec \<times> vec \<times> vec \<Rightarrow> (vec \<times> vec \<times> vec \<times> vec) result" where
  "e_step_pass_opt prior_var denom log_pi bh vsb ld_bound i [] st = Inr st"
| "e_step_pass_opt prior_var denom log_pi bh vsb ld_bound i (Di # rows) st =
     bind_res (e_step_snp_opt prior_var denom log_pi bh vsb ld_bound i Di st)
       (e_step_pass_opt prior_var denom log_pi bh vsb ld_bound (Suc i) rows)"

text \<open>The body of the loop over the blocks (lines 123 to 164).\<close>

definition e_step_block_opt :: "real \<Rightarrow> real \<Rightarrow> real \<Rightarrow> block \<Rightarrow> nat \<Rightarrow> vem_prs_opt \<Rightarrow> vem_prs_opt result" where
  "e_step_block_opt prior_var denom log_pi c c_size s =
     (if prior_var = 0 \<or> real (N s) + sigma_epsilon s / prior_var = 0 then Inl ZeroDivisionError
      else
        let s1 = s\<lparr>var_sigma_beta := setitem (var_sigma_beta s) c
                     (replicate c_size (sigma_epsilon s / (real (N s) + sigma_epsilon s / prior_var)))\<rparr>
        in
        bind_res (getitem (beta_hat s1) c) (\<lambda>beta_hat_c.
        bind_res (getitem (var_mu_beta s1) c) (\<lambda>var_mu_beta_c.
        bind_res (getitem (var_sigma_beta s1) c) (\<lambda>var_sigma_beta_c.
        bind_res (getitem (var_gamma s1) c) (\<lambda>var_gamma_c.
        bind_res (getitem (ld_bounds s1) c) (\<lambda>ld_bound.
        bind_res (np_multiply var_gamma_c var_mu_beta_c) (\<lambda>var_prod.
        bind_res (getitem (ld s1) c) (\<lambda>rows.
        bind_res (e_step_pass_opt prior_var denom log_pi beta_hat_c var_sigma_beta_c ld_bound 0 rows
                    (var_mu_beta_c, var_gamma_c, var_prod, replicate c_size 0))
          (\<lambda>(var_mu_beta_c, var_gamma_c, var_prod, q_c).
             Inr (s1\<lparr>q := setitem (q s1) c q_c,
                      var_gamma := setitem (var_gamma s1) c var_gamma_c,
                      var_mu_beta := setitem (var_mu_beta s1) c var_mu_beta_c\<rparr>))))))))))"

fun e_step_blocks_opt :: "real \<Rightarrow> real \<Rightarrow> real \<Rightarrow> nat bdict \<Rightarrow> vem_prs_opt \<Rightarrow> vem_prs_opt result" where
  "e_step_blocks_opt prior_var denom log_pi [] s = Inr s"
| "e_step_blocks_opt prior_var denom log_pi ((c, c_size) # rest) s =
     bind_res (e_step_block_opt prior_var denom log_pi c c_size s)
       (e_step_blocks_opt prior_var denom log_pi rest)"

definition e_step_opt :: "vem_prs_opt \<Rightarrow> vem_prs_opt result" where
  "e_step_opt s =
     (let prior_var = (if scale_prior s then sigma_epsilon s * sigma_beta s else sigma_beta s) in
      if real (N s) * prior_var = 0 then Inl ZeroDivisionError
      else
        let denom = 1 + sigma_epsilon s / (real (N s) * prior_var) in
        if 1 - pi_par s = 0 then Inl ZeroDivisionError
        else if pi_par s / (1 - pi_par s) \<le> 0 then Inl NonFinite
        else
          let log_pi = ln (pi_par s / (1 - pi_par s)) in
          e_step_blocks_opt prior_var denom log_pi (shapes s) s)"

subsection \<open>\<^verbatim>\<open>vem_prs_opt\<close>: the M-step\<close>

text \<open>The loop of lines 207 to 219, which accumulates \<^verbatim>\<open>sig_eps\<close> over the blocks.\<close>

fun m_step_sig_eps_opt :: "real \<Rightarrow> vem_prs_opt \<Rightarrow> nat bdict \<Rightarrow> real \<Rightarrow> real result" where
  "m_step_sig_eps_opt scale_prior_adj s [] sig_eps = Inr sig_eps"
| "m_step_sig_eps_opt scale_prior_adj s ((c, c_size) # rest) sig_eps =
     bind_res (getitem (beta_hat s) c) (\<lambda>beta_hat_c.
     bind_res (getitem (var_gamma s) c) (\<lambda>var_gamma_c.
     bind_res (getitem (var_mu_beta s) c) (\<lambda>var_mu_beta_c.
     bind_res (getitem (var_sigma_beta s) c) (\<lambda>var_sigma_beta_c.
     bind_res (np_multiply var_gamma_c var_mu_beta_c) (\<lambda>var_prod.
     bind_res (getitem (q s) c) (\<lambda>q_c.
     bind_res (np_dot var_prod beta_hat_c) (\<lambda>d1.
     bind_res (dot_sq_plus var_gamma_c var_mu_beta_c var_sigma_beta_c) (\<lambda>d2.
     bind_res (np_dot var_prod q_c) (\<lambda>d3.
     m_step_sig_eps_opt scale_prior_adj s rest
       (sig_eps + (- 2 * d1 + scale_prior_adj * d2 + d3)))))))))))"

definition m_step_pi_opt :: "vem_prs_opt \<Rightarrow> vem_prs_opt result" where
  "m_step_pi_opt s =
     bind_res
       (if ''pi'' \<notin> dom (fix_params s) then
          if M s = 0 then Inl ZeroDivisionError
          else Inr (s\<lparr>pi_par := clip (var_gamma_sum s / real (M s)) (1 / real (M s)) 1\<rparr>)
        else Inr s)
       (\<lambda>s. history_append ''pi'' (pi_par s) s)"

definition m_step_sigma_beta_opt :: "real \<Rightarrow> vem_prs_opt \<Rightarrow> vem_prs_opt result" where
  "m_step_sigma_beta_opt vgs s =
     bind_res
       (if ''sigma_beta'' \<notin> dom (fix_params s) then
          bind_res (sigma_beta_numerator s) (\<lambda>num.
            if vgs = 0 then Inl NonFinite
            else if scale_prior s \<and> sigma_epsilon s = 0 then Inl ZeroDivisionError
            else
              let sb = num / vgs;
                  sb = (if scale_prior s then sb / sigma_epsilon s else sb)
              in Inr (s\<lparr>sigma_beta := clip sb (1 / 10 ^ 12) (10 ^ 12)\<rparr>))
        else Inr s)
       (\<lambda>s. history_append ''sigma_beta'' (sigma_beta s) s)"

definition m_step_sigma_epsilon_opt :: "real \<Rightarrow> vem_prs_opt \<Rightarrow> vem_prs_opt result" where
  "m_step_sigma_epsilon_opt vgs s =
     bind_res
       (if ''sigma_epsilon'' \<notin> dom (fix_params s) then
          if scale_prior s \<and> real (N s) * sigma_beta s = 0 then Inl ZeroDivisionError
          else
            let scale_prior_adj = (if scale_prior s then 1 + 1 / (real (N s) * sigma_beta s) else 1) in
            bind_res (m_step_sig_eps_opt scale_prior_adj s (shapes s) 0) (\<lambda>sig_eps.
              let final_sig_e = 1 + sig_eps in
              if scale_prior s \<and> real (N s) + vgs = 0 then Inl NonFinite
              else
                let final_sig_e =
                      (if scale_prior s then final_sig_e * (real (N s) / (real (N s) + vgs))
                       else final_sig_e)
                in Inr (s\<lparr>sigma_epsilon := clip final_sig_e (1 / 10 ^ 12) (10 ^ 12)\<rparr>))
        else Inr s)
       (\<lambda>s. history_append ''sigma_epsilon'' (sigma_epsilon s) s)"

text \<open>\<^verbatim>\<open>var_gamma_sum\<close> is computed once, before any update.\<close>

definition m_step_opt :: "vem_prs_opt \<Rightarrow> vem_prs_opt result" where
  "m_step_opt s =
     (let vgs = var_gamma_sum s in
      bind_res (m_step_pi_opt s) (\<lambda>s1.
      bind_res (m_step_sigma_beta_opt vgs s1) (\<lambda>s2.
      m_step_sigma_epsilon_opt vgs s2)))"
subsection \<open>\<^verbatim>\<open>vem_prs_opt\<close>: objective and heritability\<close>

definition ld_term_opt :: "vem_prs_opt \<Rightarrow> block \<Rightarrow> vec \<Rightarrow> real result" where
  "ld_term_opt s c gamma_mu = bind_res (getitem (q s) c) (\<lambda>q_c. np_dot gamma_mu q_c)"

definition objective_opt :: "vem_prs_opt \<Rightarrow> (real \<times> vem_prs_opt) result" where
  "objective_opt s = objective ld_term_opt s"

definition get_heritability_opt :: "vem_prs_opt \<Rightarrow> (real \<times> vem_prs_opt) result" where
  "get_heritability_opt s = get_heritability ld_term_opt 0 s"

subsection \<open>\<^verbatim>\<open>vem_prs_sbayes\<close>: initialization\<close>

fun init_var_blocks_sbayes ::
  "nat bdict \<Rightarrow> vem_prs_sbayes \<times> rng \<Rightarrow> (vem_prs_sbayes \<times> rng) result" where
  "init_var_blocks_sbayes [] sg = Inr sg"
| "init_var_blocks_sbayes ((c, c_size) # rest) sg =
     bind_res (init_var_block c c_size sg) (init_var_blocks_sbayes rest)"

definition initialize_variational_params_sbayes ::
  "vem_prs_sbayes \<times> rng \<Rightarrow> (vem_prs_sbayes \<times> rng) result" where
  "initialize_variational_params_sbayes sg =
     (case sg of (s, g) \<Rightarrow>
        init_var_blocks_sbayes (shapes s)
          (s\<lparr>var_mu_beta := [], var_sigma_beta := [], var_gamma := []\<rparr>, g))"

text \<open>
  \<^verbatim>\<open>initialize_theta\<close>: as in \<^verbatim>\<open>vem_prs_opt\<close>, but \<^verbatim>\<open>sig_e_snp\<close> is rebuilt from the new
  \<^verbatim>\<open>sigma_epsilon\<close> (a dict comprehension over \<^verbatim>\<open>shapes\<close>), and \<^verbatim>\<open>pi\<close> is drawn with
  \<^verbatim>\<open>high=5\<close>.
\<close>

definition initialize_theta_sbayes :: "vem_prs_sbayes \<times> rng \<Rightarrow> (vem_prs_sbayes \<times> rng) result" where
  "initialize_theta_sbayes sg =
     (case sg of (s, g) \<Rightarrow>
        (case (case fix_params s ''sigma_beta'' of
                 None \<Rightarrow> random_uniform (1 / 10 ^ 6) (1 / 10) g
               | Some v \<Rightarrow> (v, g)) of (sb, g1) \<Rightarrow>
        (case (case fix_params s ''sigma_epsilon'' of
                 None \<Rightarrow> random_uniform (1 / 2) 1 g1
               | Some v \<Rightarrow> (v, g1)) of (se, g2) \<Rightarrow>
        let s1 = s\<lparr>sigma_beta := sb, sigma_epsilon := se,
                   sig_e_snp := map (\<lambda>(c, c_size). (c, replicate c_size se)) (shapes s)\<rparr>
        in
        (case fix_params s ''pi'' of
           None \<Rightarrow>
             if M s = 0 then Inl ZeroDivisionError
             else (case random_uniform (1 / real (M s)) 5 g2 of (p, g3) \<Rightarrow>
                     Inr (s1\<lparr>pi_par := p\<rparr>, g3))
         | Some v \<Rightarrow> Inr (s1\<lparr>pi_par := v\<rparr>, g2)))))"

definition initialize_sbayes :: "vem_prs_sbayes \<times> rng \<Rightarrow> (vem_prs_sbayes \<times> rng) result" where
  "initialize_sbayes sg =
     (case sg of (s, g) \<Rightarrow>
        bind_res (initialize_variational_params_sbayes (s\<lparr>beta_hat := gdl_beta_hats s\<rparr>, g)) (\<lambda>sg1.
        bind_res (initialize_theta_sbayes sg1) (\<lambda>(s2, g2).
        Inr (init_history s2, g2))))"

subsection \<open>\<^verbatim>\<open>vem_prs_sbayes\<close>: the E-step\<close>

text \<open>
  One turn of the loop over the variants (lines 132 to 143). The local arrays are the tuple
  \<open>(var_mu_beta, var_sigma_beta, var_gamma, var_prod)\<close>; \<open>sig_e\<close> and \<open>prior_var\<close>
  are only read.
\<close>

definition e_step_snp_sbayes ::
  "nat \<Rightarrow> real \<Rightarrow> vec \<Rightarrow> vec \<Rightarrow> vec \<Rightarrow> nat list \<times> nat list \<Rightarrow> nat \<Rightarrow> vec \<Rightarrow>
   vec \<times> vec \<times> vec \<times> vec \<Rightarrow> (vec \<times> vec \<times> vec \<times> vec) result" where
  "e_step_snp_sbayes n log_pi beta_hat_c sig_e prior_var ld_bound j Dj st =
     (case st of (var_mu_beta_c, var_sigma_beta_c, var_gamma_c, var_prod) \<Rightarrow>
      if \<not> (j < length (fst ld_bound) \<and> j < length (snd ld_bound)) then Inl OutOfBounds
      else
        let start = fst ld_bound ! j; stop = snd ld_bound ! j in
        if \<not> (start \<le> j \<and> j - start < length Dj \<and> length Dj = length (slice var_prod start stop)
              \<and> j < length beta_hat_c \<and> j < length var_mu_beta_c \<and> j < length var_sigma_beta_c
              \<and> j < length var_gamma_c \<and> j < length var_prod \<and> j < length sig_e
              \<and> j < length prior_var)
        then Inl OutOfBounds
        else if prior_var ! j = 0 \<or> real n + sig_e ! j / prior_var ! j = 0 then Inl ZeroDivisionError
        else
          let var_sigma_beta_c =
                var_sigma_beta_c[j := sig_e ! j / (real n + sig_e ! j / prior_var ! j)] in
          if real n * prior_var ! j = 0 \<or> 1 + sig_e ! j / (real n * prior_var ! j) = 0
          then Inl ZeroDivisionError
          else
            let var_mu_beta_c = var_mu_beta_c[j :=
                  (beta_hat_c ! j - dot Dj (slice var_prod start stop) + Dj ! (j - start) * var_prod ! j)
                  / (1 + sig_e ! j / (real n * prior_var ! j))]
            in
            if var_sigma_beta_c ! j = 0 then Inl ZeroDivisionError
            else if var_sigma_beta_c ! j / prior_var ! j \<le> 0 then Inl NonFinite
            else
              let u_j = log_pi + (1 / 2) * ln (var_sigma_beta_c ! j / prior_var ! j)
                          + ((1 / 2) / var_sigma_beta_c ! j) * var_mu_beta_c ! j * var_mu_beta_c ! j;
                  var_gamma_c = var_gamma_c[j := clip (sigmoid u_j) (1 / 10 ^ 6) (1 - 1 / 10 ^ 6)];
                  var_prod = var_prod[j := var_gamma_c ! j * var_mu_beta_c ! j]
              in Inr (var_mu_beta_c, var_sigma_beta_c, var_gamma_c, var_prod))"

fun e_step_pass_sbayes ::
  "nat \<Rightarrow> real \<Rightarrow> vec \<Rightarrow> vec \<Rightarrow> vec \<Rightarrow> nat list \<times> nat list \<Rightarrow> nat \<Rightarrow> vec list \<Rightarrow>
   vec \<times> vec \<times> vec \<times> vec \<Rightarrow> (vec \<times> vec \<times> vec \<times> vec) result" where
  "e_step_pass_sbayes n log_pi bh sig_e prior_var ld_bound j [] st = Inr st"
| "e_step_pass_sbayes n log_pi bh sig_e prior_var ld_bound j (Dj # rows) st =
     bind_res (e_step_snp_sbayes n log_pi bh sig_e prior_var ld_bound j Dj st)
       (e_step_pass_sbayes n log_pi bh sig_e prior_var ld_bound (Suc j) rows)"

text \<open>The body of the loop over the blocks (lines 122 to 147).\<close>

definition e_step_block_sbayes :: "real \<Rightarrow> block \<Rightarrow> nat \<Rightarrow> vem_prs_sbayes \<Rightarrow> vem_prs_sbayes result" where
  "e_step_block_sbayes log_pi c c_size s =
     bind_res (getitem (beta_hat s) c) (\<lambda>beta_hat_c.
     bind_res (getitem (var_mu_beta s) c) (\<lambda>var_mu_beta_c.
     bind_res (getitem (var_sigma_beta s) c) (\<lambda>var_sigma_beta_c.
     bind_res (getitem (var_gamma s) c) (\<lambda>var_gamma_c.
     bind_res (getitem (ld_bounds s) c) (\<lambda>ld_bound.
     bind_res (getitem (sig_e_snp s) c) (\<lambda>sig_e.
     let prior_var = (if scale_prior s then map (\<lambda>x. x * sigma_beta s) sig_e
                      else replicate c_size (sigma_beta s))
     in
     bind_res (np_multiply var_gamma_c var_mu_beta_c) (\<lambda>var_prod.
     bind_res (getitem (ld s) c) (\<lambda>rows.
     bind_res (e_step_pass_sbayes (N s) log_pi beta_hat_c sig_e prior_var ld_bound 0 rows
                 (var_mu_beta_c, var_sigma_beta_c, var_gamma_c, var_prod))
       (\<lambda>(var_mu_beta_c, var_sigma_beta_c, var_gamma_c, var_prod).
          Inr (s\<lparr>var_gamma := setitem (var_gamma s) c var_gamma_c,
                  var_sigma_beta := setitem (var_sigma_beta s) c var_sigma_beta_c,
                  var_mu_beta := setitem (var_mu_beta s) c var_mu_beta_c\<rparr>))))))))))"

fun e_step_blocks_sbayes :: "real \<Rightarrow> nat bdict \<Rightarrow> vem_prs_sbayes \<Rightarrow> vem_prs_sbayes result" where
  "e_step_blocks_sbayes log_pi [] s = Inr s"
| "e_step_blocks_sbayes log_pi ((c, c_size) # rest) s =
     bind_res (e_step_block_sbayes log_pi c c_size s) (e_step_blocks_sbayes log_pi rest)"

definition e_step_sbayes :: "vem_prs_sbayes \<Rightarrow> vem_prs_sbayes result" where
  "e_step_sbayes s =
     (if 1 - pi_par s = 0 then Inl ZeroDivisionError
      else if pi_par s / (1 - pi_par s) \<le> 0 then Inl NonFinite
      else e_step_blocks_sbayes (ln (pi_par s / (1 - pi_par s))) (shapes s) s)"

subsection \<open>\<^verbatim>\<open>vem_prs_sbayes\<close>: the M-step\<close>

text \<open>
  One turn of the loop over the variants (lines 203 to 215); the state is
  \<open>(sig_e, global_sig_e, ld_prod)\<close>. \<open>snp_res_sbayes\<close> and \<open>snp_ld_sbayes\<close> are the values of
  the locals \<^verbatim>\<open>snp_res\<close> and \<^verbatim>\<open>snp_ld\<close> when the turn ends; the inner loop runs over
  \<open>j = i + 1, \<dots>, end - 1\<close> and reads \<^verbatim>\<open>Di[j - start]\<close> and \<^verbatim>\<open>var_prod[j]\<close>.
\<close>

definition snp_res_sbayes :: "real \<Rightarrow> vec \<Rightarrow> vec \<Rightarrow> vec \<Rightarrow> vec \<Rightarrow> vec \<Rightarrow> nat \<Rightarrow> real" where
  "snp_res_sbayes scale_prior_adj beta_hat_c var_gamma_c var_mu_beta_c var_sigma_beta_c var_prod i =
     0 + (1 / 2) * scale_prior_adj * var_gamma_c ! i
           * (var_mu_beta_c ! i * var_mu_beta_c ! i + var_sigma_beta_c ! i)
       - var_prod ! i * beta_hat_c ! i"

definition snp_ld_sbayes :: "vec \<Rightarrow> nat list \<times> nat list \<Rightarrow> vec \<Rightarrow> nat \<Rightarrow> real" where
  "snp_ld_sbayes Di ld_bound var_prod i =
     foldl (\<lambda>acc j. acc + Di ! (j - fst ld_bound ! i) * var_prod ! i * var_prod ! j) 0
       [Suc i..<snd ld_bound ! i]"

definition m_step_snp_sbayes ::
  "real \<Rightarrow> vec \<Rightarrow> vec \<Rightarrow> vec \<Rightarrow> vec \<Rightarrow> vec \<Rightarrow> nat list \<times> nat list \<Rightarrow> vec \<Rightarrow> nat \<Rightarrow> vec \<Rightarrow>
   vec \<times> real \<times> real \<Rightarrow> (vec \<times> real \<times> real) result" where
  "m_step_snp_sbayes scale_prior_adj beta_hat_c var_gamma_c var_mu_beta_c var_sigma_beta_c var_prod
       ld_bound yy_c i Di st =
     (case st of (sig_e, global_sig_e, ld_prod_acc) \<Rightarrow>
      if \<not> (i < length (fst ld_bound) \<and> i < length (snd ld_bound)) then Inl OutOfBounds
      else
        let start = fst ld_bound ! i; stop = snd ld_bound ! i in
        if \<not> (i < length beta_hat_c \<and> i < length var_gamma_c \<and> i < length var_mu_beta_c
              \<and> i < length var_sigma_beta_c \<and> i < length var_prod \<and> i < length yy_c
              \<and> i < length sig_e
              \<and> list_all (\<lambda>j. start \<le> j \<and> j - start < length Di \<and> j < length var_prod) [Suc i..<stop])
        then Inl OutOfBounds
        else
          let snp_res = snp_res_sbayes scale_prior_adj beta_hat_c var_gamma_c var_mu_beta_c
                          var_sigma_beta_c var_prod i;
              snp_ld = snp_ld_sbayes Di ld_bound var_prod i
          in Inr (sig_e[i := yy_c ! i + 2 * (snp_res + snp_ld)],
                  global_sig_e + snp_res, ld_prod_acc + snp_ld))"

fun m_step_pass_sbayes ::
  "real \<Rightarrow> vec \<Rightarrow> vec \<Rightarrow> vec \<Rightarrow> vec \<Rightarrow> vec \<Rightarrow> nat list \<times> nat list \<Rightarrow> vec \<Rightarrow> nat \<Rightarrow> vec list \<Rightarrow>
   vec \<times> real \<times> real \<Rightarrow> (vec \<times> real \<times> real) result" where
  "m_step_pass_sbayes adj bh vg vmb vsb vp ld_bound yy_c i [] st = Inr st"
| "m_step_pass_sbayes adj bh vg vmb vsb vp ld_bound yy_c i (Di # rows) st =
     bind_res (m_step_snp_sbayes adj bh vg vmb vsb vp ld_bound yy_c i Di st)
       (m_step_pass_sbayes adj bh vg vmb vsb vp ld_bound yy_c (Suc i) rows)"

text \<open>
  The loop over the blocks (lines 192 to 217); the state is the model with the two
  accumulators \<open>(global_sig_e, ld_prod)\<close>.
\<close>

definition m_step_block_sbayes ::
  "real \<Rightarrow> block \<Rightarrow> vem_prs_sbayes \<times> real \<times> real \<Rightarrow> (vem_prs_sbayes \<times> real \<times> real) result" where
  "m_step_block_sbayes scale_prior_adj c st =
     (case st of (s, global_sig_e, ld_prod_acc) \<Rightarrow>
      bind_res (getitem (beta_hat s) c) (\<lambda>beta_hat_c.
      bind_res (getitem (var_gamma s) c) (\<lambda>var_gamma_c.
      bind_res (getitem (var_mu_beta s) c) (\<lambda>var_mu_beta_c.
      bind_res (getitem (var_sigma_beta s) c) (\<lambda>var_sigma_beta_c.
      bind_res (np_multiply var_gamma_c var_mu_beta_c) (\<lambda>var_prod.
      bind_res (getitem (ld_bounds s) c) (\<lambda>ld_bound.
      bind_res (getitem (sig_e_snp s) c) (\<lambda>sig_e.
      bind_res (getitem (yy s) c) (\<lambda>yy_c.
      bind_res (getitem (ld s) c) (\<lambda>rows.
      bind_res (m_step_pass_sbayes scale_prior_adj beta_hat_c var_gamma_c var_mu_beta_c
                  var_sigma_beta_c var_prod ld_bound yy_c 0 rows (sig_e, global_sig_e, ld_prod_acc))
        (\<lambda>(sig_e, global_sig_e, ld_prod_acc).
           Inr (s\<lparr>sig_e_snp := setitem (sig_e_snp s) c
                                  (map (\<lambda>x. np_clip x (1 / 10 ^ 12) (Some (10 ^ 12))) sig_e)\<rparr>,
                global_sig_e, ld_prod_acc))))))))))))"

fun m_step_blocks_sbayes ::
  "real \<Rightarrow> nat bdict \<Rightarrow> vem_prs_sbayes \<times> real \<times> real \<Rightarrow> (vem_prs_sbayes \<times> real \<times> real) result" where
  "m_step_blocks_sbayes scale_prior_adj [] st = Inr st"
| "m_step_blocks_sbayes scale_prior_adj ((c, c_size) # rest) st =
     bind_res (m_step_block_sbayes scale_prior_adj c st) (m_step_blocks_sbayes scale_prior_adj rest)"

definition m_step_pi_sbayes :: "vem_prs_sbayes \<Rightarrow> vem_prs_sbayes result" where
  "m_step_pi_sbayes s =
     bind_res
       (if ''pi'' \<notin> dom (fix_params s) then
          if M s = 0 then Inl ZeroDivisionError
          else Inr (s\<lparr>pi_par := np_clip (var_gamma_sum s / real (M s)) (1 / real (M s)) (Some 1)\<rparr>)
        else Inr s)
       (\<lambda>s. history_append ''pi'' (pi_par s) s)"

definition m_step_sigma_beta_sbayes :: "real \<Rightarrow> vem_prs_sbayes \<Rightarrow> vem_prs_sbayes result" where
  "m_step_sigma_beta_sbayes vgs s =
     bind_res
       (if ''sigma_beta'' \<notin> dom (fix_params s) then
          bind_res (sigma_beta_numerator s) (\<lambda>num.
            if vgs = 0 then Inl NonFinite
            else if scale_prior s \<and> sigma_epsilon s = 0 then Inl ZeroDivisionError
            else
              let sb = num / vgs;
                  sb = (if scale_prior s then sb / sigma_epsilon s else sb)
              in Inr (s\<lparr>sigma_beta := np_clip sb (1 / 10 ^ 12) None\<rparr>))
        else Inr s)
       (\<lambda>s. history_append ''sigma_beta'' (sigma_beta s) s)"

text \<open>
  Lines 183 to 220: the loop over the blocks and the assignment of \<^verbatim>\<open>ld_prod\<close>. They stand
  before the test on \<^verbatim>\<open>fix_params\<close> and run at every M-step. The result is the model with
  the final value of \<^verbatim>\<open>global_sig_e\<close>.
\<close>

definition m_step_residuals_sbayes :: "vem_prs_sbayes \<Rightarrow> (vem_prs_sbayes \<times> real) result" where
  "m_step_residuals_sbayes s =
     (if scale_prior s \<and> real (N s) * sigma_beta s = 0 then Inl ZeroDivisionError
      else
        let scale_prior_adj = (if scale_prior s then 1 + 1 / (real (N s) * sigma_beta s) else 1) in
        bind_res (m_step_blocks_sbayes scale_prior_adj (shapes s) (s, 0, 0))
          (\<lambda>(s1, global_sig_e, ld_prod_acc).
             Inr (s1\<lparr>ld_prod := 2 * ld_prod_acc\<rparr>, global_sig_e + ld_prod_acc)))"

text \<open>Lines 222 to 230: the update of the scalar \<^verbatim>\<open>sigma_epsilon\<close> and its history.\<close>

definition m_step_sigma_epsilon_sbayes :: "real \<Rightarrow> real \<Rightarrow> vem_prs_sbayes \<Rightarrow> vem_prs_sbayes result" where
  "m_step_sigma_epsilon_sbayes vgs global_sig_e s =
     bind_res
       (if ''sigma_epsilon'' \<notin> dom (fix_params s) then
          let final_sig_e = 1 + 2 * global_sig_e in
          if scale_prior s \<and> real (N s) + vgs = 0 then Inl NonFinite
          else
            let final_sig_e =
                  (if scale_prior s then final_sig_e * (real (N s) / (real (N s) + vgs))
                   else final_sig_e)
            in Inr (s\<lparr>sigma_epsilon := np_clip final_sig_e (1 / 10 ^ 12) (Some (10 ^ 12))\<rparr>)
        else Inr s)
       (\<lambda>s. history_append ''sigma_epsilon'' (sigma_epsilon s) s)"

definition m_step_sbayes :: "vem_prs_sbayes \<Rightarrow> vem_prs_sbayes result" where
  "m_step_sbayes s =
     (let vgs = var_gamma_sum s in
      bind_res (m_step_pi_sbayes s) (\<lambda>s1.
      bind_res (m_step_sigma_beta_sbayes vgs s1) (\<lambda>s2.
      bind_res (m_step_residuals_sbayes s2) (\<lambda>(s3, global_sig_e).
      m_step_sigma_epsilon_sbayes vgs global_sig_e s3))))"

subsection \<open>\<^verbatim>\<open>vem_prs_sbayes\<close>: objective and heritability\<close>

definition ld_term_sbayes :: "vem_prs_sbayes \<Rightarrow> block \<Rightarrow> vec \<Rightarrow> real result" where
  "ld_term_sbayes s c gamma_mu = Inr (ld_prod s)"

definition objective_sbayes :: "vem_prs_sbayes \<Rightarrow> (real \<times> vem_prs_sbayes) result" where
  "objective_sbayes s = objective ld_term_sbayes s"

definition get_heritability_sbayes :: "vem_prs_sbayes \<Rightarrow> (real \<times> vem_prs_sbayes) result" where
  "get_heritability_sbayes s = get_heritability (\<lambda>s c gamma_mu. Inr 0) (ld_prod s) s"

subsection \<open>The fit driver (both classes)\<close>

text \<open>
  \<^verbatim>\<open>fit\<close> is the same text in both files. What it prints is the list of messages it
  returns here; the loop also returns the last value of its counter \<open>i\<close> and of
  \<^verbatim>\<open>elbo_dropped_count\<close>.
\<close>

datatype message =
    ElboDropped nat real real
  | Converged nat real
  | Halted
  | MaxIterReached

text \<open>The four calls that open every turn of the loop.\<close>

definition iteration_opt :: "vem_prs_opt \<Rightarrow> vem_prs_opt result" where
  "iteration_opt s =
     bind_res (e_step_opt s) (\<lambda>s1.
     bind_res (m_step_opt s1) (\<lambda>s2.
     bind_res (objective_opt s2) (\<lambda>(elbo, s3).
     bind_res (get_heritability_opt s3) (\<lambda>(h2g, s4). Inr s4))))"

definition iteration_sbayes :: "vem_prs_sbayes \<Rightarrow> vem_prs_sbayes result" where
  "iteration_sbayes s =
     bind_res (e_step_sbayes s) (\<lambda>s1.
     bind_res (m_step_sbayes s1) (\<lambda>s2.
     bind_res (objective_sbayes s2) (\<lambda>(elbo, s3).
     bind_res (get_heritability_sbayes s3) (\<lambda>(h2g, s4). Inr s4))))"

text \<open>
  The test that closes a turn of the loop (\<^verbatim>\<open>if i > 1: ...\<close>), which reads
  \<^verbatim>\<open>self.history['ELBO']\<close>: the new count, the messages printed, and whether the loop
  breaks.
\<close>

definition check_elbo ::
  "nat \<Rightarrow> real \<Rightarrow> int \<Rightarrow> (string \<rightharpoonup> vec) \<Rightarrow> int \<Rightarrow> (int \<times> message list \<times> bool) result" where
  "check_elbo i tol max_elbo_drops hist elbo_dropped_count =
     (if i > 1 then
        bind_res (lookup hist ''ELBO'') (\<lambda>elbo.
        if \<not> (i - 1 < length elbo) then Inl IndexError
        else
          let dropped = (elbo ! (i - 1) < elbo ! (i - 2));
              elbo_dropped_count = (if dropped then elbo_dropped_count + 1 else elbo_dropped_count);
              out = (if dropped then [ElboDropped i (elbo ! (i - 2)) (elbo ! (i - 1))] else [])
          in
          if \<bar>elbo ! (i - 1) - elbo ! (i - 2)\<bar> \<le> tol
          then Inr (elbo_dropped_count, out @ [Converged i (elbo ! (i - 1))], True)
          else if elbo_dropped_count > max_elbo_drops
          then Inr (elbo_dropped_count, out @ [Halted], True)
          else Inr (elbo_dropped_count, out, False))
      else Inr (elbo_dropped_count, [], False))"

text \<open>
  \<^verbatim>\<open>for i in range(1, max_iter + 1)\<close>, from the turn \<open>i\<close> on. When the range is used up the
  counter keeps its last value, \<open>i - 1\<close>.
\<close>

function fit_loop ::
  "('a vem_prs_scheme \<Rightarrow> 'a vem_prs_scheme result) \<Rightarrow> nat \<Rightarrow> real \<Rightarrow> int \<Rightarrow> nat \<Rightarrow> int \<Rightarrow>
   message list \<Rightarrow> 'a vem_prs_scheme \<Rightarrow> ('a vem_prs_scheme \<times> nat \<times> int \<times> message list) result" where
  "fit_loop iteration max_iter tol max_elbo_drops i elbo_dropped_count out s =
     (if i > max_iter then Inr (s, i - 1, elbo_dropped_count, out)
      else
        (case iteration s of
           Inl e \<Rightarrow> Inl e
         | Inr s1 \<Rightarrow>
             (case check_elbo i tol max_elbo_drops (history s1) elbo_dropped_count of
                Inl e \<Rightarrow> Inl e
              | Inr (cnt, msgs, stop) \<Rightarrow>
                  if stop then Inr (s1, i, cnt, out @ msgs)
                  else fit_loop iteration max_iter tol max_elbo_drops (Suc i) cnt (out @ msgs) s1)))"
  by pat_completeness auto
termination
  by (relation "measure (\<lambda>(iteration, max_iter, tol, max_elbo_drops, i, cnt, out, s). Suc max_iter - i)") auto

text \<open>
  \<^verbatim>\<open>self.inf_beta = {c: self.var_gamma[c] * self.var_mu_beta[c] for c, v in
  self.var_gamma.items()}\<close>.
\<close>

fun inf_beta_of :: "vec bdict \<Rightarrow> vec bdict \<Rightarrow> vec bdict result" where
  "inf_beta_of [] mus = Inr []"
| "inf_beta_of ((c, g) # rest) mus =
     bind_res (getitem mus c) (\<lambda>mu.
     bind_res (np_multiply g mu) (\<lambda>p.
     bind_res (inf_beta_of rest mus) (\<lambda>r. Inr ((c, p) # r))))"

text \<open>
  \<^verbatim>\<open>fit\<close>. With \<open>max_iter = 0\<close> the loop never binds \<open>i\<close>, and the test \<^verbatim>\<open>i == max_iter\<close>
  after it raises. The result is the model, the generator, the last \<open>i\<close> and the messages.
\<close>

definition fit ::
  "('a vem_prs_scheme \<times> rng \<Rightarrow> ('a vem_prs_scheme \<times> rng) result) \<Rightarrow>
   ('a vem_prs_scheme \<Rightarrow> 'a vem_prs_scheme result) \<Rightarrow>
   nat \<Rightarrow> bool \<Rightarrow> real \<Rightarrow> int \<Rightarrow> 'a vem_prs_scheme \<times> rng \<Rightarrow>
   ('a vem_prs_scheme \<times> rng \<times> nat \<times> message list) result" where
  "fit initialize iteration max_iter continued tol max_elbo_drops sg =
     bind_res (if \<not> continued then initialize sg else Inr sg) (\<lambda>(s0, g0).
     bind_res (fit_loop iteration max_iter tol max_elbo_drops 1 0 [] s0) (\<lambda>(s1, i, cnt, out).
       if max_iter = 0 then Inl UnboundLocalError
       else
         let out = (if i = max_iter then out @ [MaxIterReached] else out) in
         bind_res (inf_beta_of (var_gamma s1) (var_mu_beta s1)) (\<lambda>ib.
           Inr (s1\<lparr>pip := var_gamma s1, inf_beta := ib\<rparr>, g0, i, out))))"

definition fit_opt ::
  "nat \<Rightarrow> bool \<Rightarrow> real \<Rightarrow> int \<Rightarrow> vem_prs_opt \<times> rng \<Rightarrow> (vem_prs_opt \<times> rng \<times> nat \<times> message list) result" where
  "fit_opt = fit initialize_opt iteration_opt"

definition fit_sbayes ::
  "nat \<Rightarrow> bool \<Rightarrow> real \<Rightarrow> int \<Rightarrow> vem_prs_sbayes \<times> rng \<Rightarrow>
   (vem_prs_sbayes \<times> rng \<times> nat \<times> message list) result" where
  "fit_sbayes = fit initialize_sbayes iteration_sbayes"

section \<open>Predicates of the specification and sample inputs\<close>

text \<open>A dict holds, for block \<open>c\<close>, an array of length \<open>n\<close>.\<close>

definition has_len :: "vec bdict \<Rightarrow> block \<Rightarrow> nat \<Rightarrow> bool" where
  "has_len d c n = (case map_of d c of None \<Rightarrow> False | Some v \<Rightarrow> length v = n)"

definition var_lens :: "'a vem_prs_scheme \<Rightarrow> block \<Rightarrow> nat \<Rightarrow> bool" where
  "var_lens s c n =
     (has_len (var_gamma s) c n \<and> has_len (var_mu_beta s) c n \<and> has_len (var_sigma_beta s) c n)"

text \<open>
  Shape consistency of the inputs, in the words of the spec: "every per-block array for a
  given block key must have length equal to that block's size". The inputs are the
  marginal effects of the data loader, the rows of the LD matrix and the two rows of the
  window boundaries (and \<^verbatim>\<open>yy\<close> in \<^verbatim>\<open>vem_prs_sbayes\<close>).
\<close>

definition inputs_consistent :: "'a vem_prs_scheme \<Rightarrow> bool" where
  "inputs_consistent s =
     list_all (\<lambda>(c, n).
        has_len (gdl_beta_hats s) c n
        \<and> (case map_of (ld s) c of None \<Rightarrow> False | Some rows \<Rightarrow> length rows = n)
        \<and> (case map_of (ld_bounds s) c of None \<Rightarrow> False
            | Some (starts, stops) \<Rightarrow> length starts = n \<and> length stops = n))
       (shapes s)"

definition inputs_consistent_sbayes :: "vem_prs_sbayes \<Rightarrow> bool" where
  "inputs_consistent_sbayes s =
     (inputs_consistent s \<and> list_all (\<lambda>(c, n). has_len (yy s) c n) (shapes s))"

text \<open>
  The value the M-step of \<^verbatim>\<open>vem_prs_sbayes\<close> writes into \<^verbatim>\<open>sig_e[i]\<close>, before clipping, and the
  range \<open>[1e-12, 1e12]\<close> for all entries of the array of a block.
\<close>

definition sig_e_new ::
  "real \<Rightarrow> vec \<Rightarrow> vec \<Rightarrow> vec \<Rightarrow> vec \<Rightarrow> vec \<Rightarrow> nat list \<times> nat list \<Rightarrow> vec \<Rightarrow> vec \<Rightarrow> nat \<Rightarrow> real" where
  "sig_e_new adj bh vg vmb vsb vp lb yy_c Di i =
     yy_c ! i + 2 * (snp_res_sbayes adj bh vg vmb vsb vp i + snp_ld_sbayes Di lb vp i)"

definition in_range :: "vec bdict \<Rightarrow> block \<Rightarrow> bool" where
  "in_range d c =
     (case map_of d c of None \<Rightarrow> False
      | Some v \<Rightarrow> list_all (\<lambda>x. 1 / 10 ^ 12 \<le> x \<and> x \<le> 10 ^ 12) v)"

subsection \<open>Valid input states of an M-step\<close>

text \<open>
  The spec states the ranges of the parameters "for all valid inputs" and describes a state
  by its shapes only. The predicates below make the valid input states of an M-step
  precise.
  \<^item> Sizes: \<open>M\<close> is the total number of variants of \<open>shapes\<close>, fewer than \<open>2^32\<close> (the loops
    count in \<^verbatim>\<open>unsigned int\<close>); the three dicts of variational parameters hold the blocks of
    \<open>shapes\<close>, in its order; every per-block array has the size of its block.
  \<^item> Values: inclusion probabilities lie in \<open>[0, 1]\<close> and sum to a positive number; the
    variances are not negative; \<open>sigma_beta\<close> and \<open>sigma_epsilon\<close> are at least \<open>1e-12\<close>, the
    floor of their range; every stored number has magnitude at most \<open>1e50\<close>.
  \<^item> The three parameter histories exist.

  The bound \<open>1e50\<close> is what ties the model, which computes in the reals, to the doubles of
  the program. On a valid state a product of two stored numbers is at most \<open>1e100\<close>, a sum
  has fewer than \<open>2^32\<close> terms, the factor \<^verbatim>\<open>scale_prior_adj\<close> is at most \<open>1 + 1e12\<close>, and a
  divisor is at least \<open>1e-12\<close>, or is the sum of the inclusion probabilities under a
  numerator weighted by the same probabilities; the new \<open>sigma_beta\<close> is then at most
  \<open>1e113\<close> and its product with \<open>N\<close> at most \<open>1e163\<close>. So no intermediate value of an M-step
  exceeds \<open>1e170\<close>, far below the largest double: nothing overflows, no \<^verbatim>\<open>inf\<close> or \<^verbatim>\<open>nan\<close>
  arises, and the doubles differ from the reals of the model by rounding only.
\<close>

definition block_vec :: "vec bdict \<Rightarrow> block \<Rightarrow> nat \<Rightarrow> (real \<Rightarrow> bool) \<Rightarrow> bool" where
  "block_vec d c n P = (case map_of d c of None \<Rightarrow> False | Some v \<Rightarrow> length v = n \<and> list_all P v)"

definition block_arrays_ok :: "'a vem_prs_scheme \<Rightarrow> block \<Rightarrow> nat \<Rightarrow> bool" where
  "block_arrays_ok s c n =
     (block_vec (var_gamma s) c n (\<lambda>x. 0 \<le> x \<and> x \<le> 1)
      \<and> block_vec (var_mu_beta s) c n (\<lambda>x. \<bar>x\<bar> \<le> 10 ^ 50)
      \<and> block_vec (var_sigma_beta s) c n (\<lambda>x. 0 \<le> x \<and> x \<le> 10 ^ 50)
      \<and> block_vec (beta_hat s) c n (\<lambda>x. \<bar>x\<bar> \<le> 10 ^ 50))"

definition valid_m_step :: "'a vem_prs_scheme \<Rightarrow> bool" where
  "valid_m_step s =
     (0 < N s \<and> real (N s) \<le> 10 ^ 50
      \<and> 0 < M s \<and> M s < 2 ^ 32 \<and> M s = sum_list (map snd (shapes s))
      \<and> distinct (map fst (shapes s))
      \<and> map fst (var_gamma s) = map fst (shapes s)
      \<and> map fst (var_mu_beta s) = map fst (shapes s)
      \<and> map fst (var_sigma_beta s) = map fst (shapes s)
      \<and> list_all (\<lambda>(c, n). block_arrays_ok s c n) (shapes s)
      \<and> 0 < var_gamma_sum s
      \<and> 1 / 10 ^ 12 \<le> sigma_beta s \<and> sigma_beta s \<le> 10 ^ 50
      \<and> 1 / 10 ^ 12 \<le> sigma_epsilon s \<and> sigma_epsilon s \<le> 10 ^ 50
      \<and> history s ''pi'' \<noteq> None \<and> history s ''sigma_beta'' \<noteq> None
      \<and> history s ''sigma_epsilon'' \<noteq> None)"

text \<open>\<^verbatim>\<open>vem_prs_opt\<close> also reads \<^verbatim>\<open>q\<close>.\<close>

definition valid_m_step_opt :: "vem_prs_opt \<Rightarrow> bool" where
  "valid_m_step_opt s =
     (valid_m_step s
      \<and> list_all (\<lambda>(c, n). block_vec (q s) c n (\<lambda>x. \<bar>x\<bar> \<le> 10 ^ 50)) (shapes s))"

text \<open>
  \<^verbatim>\<open>vem_prs_sbayes\<close> also reads \<^verbatim>\<open>yy\<close>, the LD rows and the window boundaries, and writes
  \<^verbatim>\<open>sig_e_snp\<close>. The window of variant \<open>i\<close> is \<open>[start, end)\<close> with \<open>start \<le> i < end \<le> n\<close>,
  its LD row holds one correlation, of magnitude at most one, for each variant of the
  window.
\<close>

definition window_ok :: "nat list \<times> nat list \<Rightarrow> nat \<Rightarrow> nat \<Rightarrow> vec \<Rightarrow> bool" where
  "window_ok ld_bound n i Di =
     (fst ld_bound ! i \<le> i \<and> i < snd ld_bound ! i \<and> snd ld_bound ! i \<le> n
      \<and> length Di = snd ld_bound ! i - fst ld_bound ! i
      \<and> list_all (\<lambda>x. \<bar>x\<bar> \<le> 1) Di)"

definition block_ld_ok :: "vec list bdict \<Rightarrow> (nat list \<times> nat list) bdict \<Rightarrow> block \<Rightarrow> nat \<Rightarrow> bool" where
  "block_ld_ok lds bounds c n =
     (case map_of bounds c of None \<Rightarrow> False
      | Some ld_bound \<Rightarrow>
          (case map_of lds c of None \<Rightarrow> False
           | Some rows \<Rightarrow>
               length (fst ld_bound) = n \<and> length (snd ld_bound) = n \<and> length rows = n
               \<and> list_all (\<lambda>i. window_ok ld_bound n i (rows ! i)) [0..<n]))"

definition block_inputs_ok_sbayes :: "vem_prs_sbayes \<Rightarrow> block \<Rightarrow> nat \<Rightarrow> bool" where
  "block_inputs_ok_sbayes s c n =
     (block_vec (yy s) c n (\<lambda>x. \<bar>x\<bar> \<le> 10 ^ 50) \<and> has_len (sig_e_snp s) c n
      \<and> block_ld_ok (ld s) (ld_bounds s) c n)"

definition valid_m_step_sbayes :: "vem_prs_sbayes \<Rightarrow> bool" where
  "valid_m_step_sbayes s =
     (valid_m_step s \<and> list_all (\<lambda>(c, n). block_inputs_ok_sbayes s c n) (shapes s))"

text \<open>\<^verbatim>\<open>getattr(self, name)\<close> for the three global parameters.\<close>

definition param :: "string \<Rightarrow> 'a vem_prs_scheme \<Rightarrow> real" where
  "param name s =
     (if name = ''pi'' then pi_par s
      else if name = ''sigma_beta'' then sigma_beta s
      else sigma_epsilon s)"

text \<open>
  What one turn of the fit loop (E-step, M-step, objective, heritability) does to the
  pinned parameters and to the history: the configuration is kept, a pinned parameter
  keeps its value, and each of the five histories gets one more value, the three parameter
  histories the current value of their parameter.
\<close>

definition iteration_effect :: "'a vem_prs_scheme \<Rightarrow> 'a vem_prs_scheme \<Rightarrow> bool" where
  "iteration_effect s s' =
     (fix_params s' = fix_params s
      \<and> (''pi'' \<in> dom (fix_params s) \<longrightarrow> pi_par s' = pi_par s)
      \<and> (''sigma_beta'' \<in> dom (fix_params s) \<longrightarrow> sigma_beta s' = sigma_beta s)
      \<and> (''sigma_epsilon'' \<in> dom (fix_params s) \<longrightarrow> sigma_epsilon s' = sigma_epsilon s)
      \<and> (\<exists>hp hb he hl hh elbo h2g.
            history s ''pi'' = Some hp \<and> history s ''sigma_beta'' = Some hb
          \<and> history s ''sigma_epsilon'' = Some he \<and> history s ''ELBO'' = Some hl
          \<and> history s ''heritability'' = Some hh
          \<and> history s' = (history s)
               (''pi'' \<mapsto> hp @ [pi_par s'], ''sigma_beta'' \<mapsto> hb @ [sigma_beta s'],
                ''sigma_epsilon'' \<mapsto> he @ [sigma_epsilon s'], ''ELBO'' \<mapsto> hl @ [elbo],
                ''heritability'' \<mapsto> hh @ [h2g])))"

text \<open>
  What \<^verbatim>\<open>initialize\<close> does to the configuration, to the pinned parameters and to the history.
\<close>

definition initialize_effect :: "'a vem_prs_scheme \<Rightarrow> 'a vem_prs_scheme \<Rightarrow> bool" where
  "initialize_effect s s0 =
     (fix_params s0 = fix_params s
      \<and> (\<forall>v. fix_params s ''pi'' = Some v \<longrightarrow> pi_par s0 = v)
      \<and> (\<forall>v. fix_params s ''sigma_beta'' = Some v \<longrightarrow> sigma_beta s0 = v)
      \<and> (\<forall>v. fix_params s ''sigma_epsilon'' = Some v \<longrightarrow> sigma_epsilon s0 = v)
      \<and> history s0 = [''ELBO'' \<mapsto> [], ''pi'' \<mapsto> [], ''sigma_beta'' \<mapsto> [],
                       ''sigma_epsilon'' \<mapsto> [], ''heritability'' \<mapsto> []])"

text \<open>\<open>k\<close> completed turns of the loop body \<open>f\<close>, one after the other.\<close>

fun iterate :: "('s \<Rightarrow> 's result) \<Rightarrow> nat \<Rightarrow> 's \<Rightarrow> 's result" where
  "iterate f 0 s = Inr s"
| "iterate f (Suc k) s = bind_res (f s) (iterate f k)"

subsection \<open>Sample inputs\<close>

text \<open>A generator that returns \<open>1/2\<close> for every uniform draw and \<open>0\<close> for every normal draw.\<close>

definition rng_half :: rng where
  "rng_half = \<lparr>uniform01 = (\<lambda>k. 1 / 2), std_normal = (\<lambda>k. 0)\<rparr>"

text \<open>
  The scenario of the spec with one variant: a single block, LD row \<open>[1]\<close> with window
  \<open>[0, 1)\<close>, \<open>N = 1000\<close>, and all three parameters pinned (\<open>pi = 0.1\<close>,
  \<open>sigma_beta = 0.01\<close>, \<open>sigma_epsilon = 1\<close>); the object as \<^verbatim>\<open>__init__\<close> holds it before it calls
  \<^verbatim>\<open>initialize\<close>.
\<close>

definition one_variant_opt :: vem_prs_opt where
  "one_variant_opt =
     \<lparr>N = 1000, M = 1, shapes = [(0, 1)], gdl_beta_hats = [(0, [1 / 10])],
      pi_par = 0, sigma_beta = 0, sigma_epsilon = 0, scale_prior = False,
      var_mu_beta = [], var_sigma_beta = [], var_gamma = [],
      beta_hat = [(0, [1 / 10])], ld = [(0, [[1]])], ld_bounds = [(0, ([0], [1]))],
      history = Map.empty,
      fix_params = [''pi'' \<mapsto> 1 / 10, ''sigma_beta'' \<mapsto> 1 / 100, ''sigma_epsilon'' \<mapsto> 1],
      pip = [], inf_beta = [], q = []\<rparr>"

definition one_variant_sbayes :: vem_prs_sbayes where
  "one_variant_sbayes =
     \<lparr>N = 1000, M = 1, shapes = [(0, 1)], gdl_beta_hats = [(0, [1 / 10])],
      pi_par = 0, sigma_beta = 0, sigma_epsilon = 0, scale_prior = False,
      var_mu_beta = [], var_sigma_beta = [], var_gamma = [],
      beta_hat = [(0, [1 / 10])], ld = [(0, [[1]])], ld_bounds = [(0, ([0], [1]))],
      history = Map.empty,
      fix_params = [''pi'' \<mapsto> 1 / 10, ''sigma_beta'' \<mapsto> 1 / 100, ''sigma_epsilon'' \<mapsto> 1],
      pip = [], inf_beta = [], ld_prod = 0, yy = [(0, [1])], sig_e_snp = []\<rparr>"

text \<open>
  Inputs whose sizes disagree: the block is declared with two variants, the data loader
  holds one marginal effect, and the LD matrix one row.
\<close>

definition mismatched_opt :: vem_prs_opt where
  "mismatched_opt = one_variant_opt\<lparr>M := 2, shapes := [(0, 2)]\<rparr>"

definition mismatched_sbayes :: vem_prs_sbayes where
  "mismatched_sbayes = one_variant_sbayes\<lparr>M := 2, shapes := [(0, 2)]\<rparr>"

text \<open>
  A block of two variants with correlation \<open>1/2\<close>, each in the window of the other, as the
  models stand after an E-step; no parameter is pinned. \<^verbatim>\<open>q\<close> holds the LD-weighted expected
  effect of the other variant.
\<close>

definition two_variant_opt :: vem_prs_opt where
  "two_variant_opt =
     \<lparr>N = 1000, M = 2, shapes = [(0, 2)], gdl_beta_hats = [(0, [1 / 10, 1 / 5])],
      pi_par = 1 / 10, sigma_beta = 1 / 100, sigma_epsilon = 1, scale_prior = False,
      var_mu_beta = [(0, [1 / 10, 1 / 10])], var_sigma_beta = [(0, [1 / 1000, 1 / 1000])],
      var_gamma = [(0, [1 / 2, 1 / 2])],
      beta_hat = [(0, [1 / 10, 1 / 5])], ld = [(0, [[1, 1 / 2], [1 / 2, 1]])],
      ld_bounds = [(0, ([0, 0], [2, 2]))],
      history = [''ELBO'' \<mapsto> [], ''pi'' \<mapsto> [], ''sigma_beta'' \<mapsto> [],
                 ''sigma_epsilon'' \<mapsto> [], ''heritability'' \<mapsto> []],
      fix_params = Map.empty,
      pip = [], inf_beta = [], q = [(0, [1 / 40, 1 / 40])]\<rparr>"

definition two_variant_sbayes :: vem_prs_sbayes where
  "two_variant_sbayes =
     \<lparr>N = 1000, M = 2, shapes = [(0, 2)], gdl_beta_hats = [(0, [1 / 10, 1 / 5])],
      pi_par = 1 / 10, sigma_beta = 1 / 100, sigma_epsilon = 1, scale_prior = False,
      var_mu_beta = [(0, [1 / 10, 1 / 10])], var_sigma_beta = [(0, [1 / 1000, 1 / 1000])],
      var_gamma = [(0, [1 / 2, 1 / 2])],
      beta_hat = [(0, [1 / 10, 1 / 5])], ld = [(0, [[1, 1 / 2], [1 / 2, 1]])],
      ld_bounds = [(0, ([0, 0], [2, 2]))],
      history = [''ELBO'' \<mapsto> [], ''pi'' \<mapsto> [], ''sigma_beta'' \<mapsto> [],
                 ''sigma_epsilon'' \<mapsto> [], ''heritability'' \<mapsto> []],
      fix_params = Map.empty,
      pip = [], inf_beta = [], ld_prod = 0, yy = [(0, [1, 1])], sig_e_snp = [(0, [1, 1])]\<rparr>"

text \<open>
  The same model with the prior scaled by a residual variance at the floor of its range
  (\<open>1e-12\<close>) and posterior means of size one.
\<close>

definition small_residual_sbayes :: vem_prs_sbayes where
  "small_residual_sbayes =
     two_variant_sbayes\<lparr>sigma_epsilon := 1 / 10 ^ 12, scale_prior := True,
                        var_mu_beta := [(0, [1, 1])]\<rparr>"

text \<open>The two one-variant samples as \<^verbatim>\<open>initialize\<close> leaves them with the generator above.\<close>

definition one_variant_opt_init :: vem_prs_opt where
  "one_variant_opt_init =
     one_variant_opt\<lparr>pi_par := 1 / 10, sigma_beta := 1 / 100, sigma_epsilon := 1,
                      var_mu_beta := [(0, [0])], var_sigma_beta := [(0, [1])],
                      var_gamma := [(0, [1 / 2])],
                      history := [''ELBO'' \<mapsto> [], ''pi'' \<mapsto> [], ''sigma_beta'' \<mapsto> [],
                                  ''sigma_epsilon'' \<mapsto> [], ''heritability'' \<mapsto> []],
                      q := [(0, [0])]\<rparr>"

definition one_variant_sbayes_init :: vem_prs_sbayes where
  "one_variant_sbayes_init =
     one_variant_sbayes\<lparr>pi_par := 1 / 10, sigma_beta := 1 / 100, sigma_epsilon := 1,
                         var_mu_beta := [(0, [0])], var_sigma_beta := [(0, [1])],
                         var_gamma := [(0, [1 / 2])],
                         history := [''ELBO'' \<mapsto> [], ''pi'' \<mapsto> [], ''sigma_beta'' \<mapsto> [],
                                     ''sigma_epsilon'' \<mapsto> [], ''heritability'' \<mapsto> []],
                         sig_e_snp := [(0, [1])]\<rparr>"





section \<open>Basic facts\<close>

subsection \<open>Results, dicts, vectors\<close>

lemma bind_res_Inr [simp]: "bind_res (Inr x) f = f x"
  by (simp add: bind_res_def)

lemma bind_res_Inl [simp]: "bind_res (Inl e) f = Inl e"
  by (simp add: bind_res_def)

lemma bind_res_eq_Inr: "bind_res m f = Inr y \<longleftrightarrow> (\<exists>x. m = Inr x \<and> f x = Inr y)"
  by (cases m) simp_all

lemma getitem_eq_Inr: "getitem d k = Inr v \<longleftrightarrow> map_of d k = Some v"
  by (simp add: getitem_def split: option.splits)

lemma getitem_setitem: "getitem (setitem d k v) k' = (if k' = k then Inr v else getitem d k')"
  by (simp add: getitem_def setitem_def update_conv')

lemma map_of_setitem: "map_of (setitem d k v) = (map_of d)(k \<mapsto> v)"
  by (simp add: setitem_def update_conv')

lemma keys_setitem: "fst ` set (setitem d k v) = insert k (fst ` set d)"
proof -
  have "set (map fst (AList.update k v d)) = insert k (set (map fst d))"
    by (auto simp: update_keys)
  then show ?thesis
    by (simp add: setitem_def)
qed

lemma distinct_setitem: "distinct (map fst d) \<Longrightarrow> distinct (map fst (setitem d k v))"
  by (simp add: setitem_def distinct_update)

lemma lookup_eq_Inr: "lookup d k = Inr v \<longleftrightarrow> d k = Some v"
  by (simp add: lookup_def split: option.splits)

lemma history_append_eq_Inr:
  "history_append k v s = Inr s' \<longleftrightarrow>
     (\<exists>h. history s k = Some h \<and> s' = s\<lparr>history := (history s)(k \<mapsto> h @ [v])\<rparr>)"
  by (auto simp: history_append_def bind_res_eq_Inr lookup_eq_Inr)

lemma clip_bounds: "lo \<le> hi \<Longrightarrow> lo \<le> clip a lo hi \<and> clip a lo hi \<le> hi"
  by (simp add: clip_def)

lemma np_clip_bounds: "lo \<le> hi \<Longrightarrow> lo \<le> np_clip a lo (Some hi) \<and> np_clip a lo (Some hi) \<le> hi"
  by (simp add: np_clip_def)

lemma np_clip_lower: "lo \<le> np_clip a lo None"
  by (simp add: np_clip_def)

subsection \<open>Initialization\<close>

lemma has_len_setitem:
  "has_len (setitem d k v) c n = (if c = k then length v = n else has_len d c n)"
  by (simp add: has_len_def map_of_setitem)

lemma init_var_block_Inr:
  assumes "M s \<noteq> 0"
  shows "\<exists>gam mu g'. length gam = n \<and> length mu = n \<and>
           init_var_block c n (s, g) =
             Inr (s\<lparr>var_gamma := setitem (var_gamma s) c gam,
                     var_mu_beta := setitem (var_mu_beta s) c mu,
                     var_sigma_beta := setitem (var_sigma_beta s) c (replicate n (1 / real (M s)))\<rparr>, g')"
proof -
  let ?gam = "map (uniform01 g) [0..<n]"
  let ?mu = "map (\<lambda>k. 1 / sqrt (real (M s)) * std_normal g k) [0..<n]"
  have "length ?gam = n" "length ?mu = n" by simp_all
  moreover have "\<exists>g'. init_var_block c n (s, g) =
             Inr (s\<lparr>var_gamma := setitem (var_gamma s) c ?gam,
                     var_mu_beta := setitem (var_mu_beta s) c ?mu,
                     var_sigma_beta := setitem (var_sigma_beta s) c (replicate n (1 / real (M s)))\<rparr>, g')"
    using assms
    by (simp add: init_var_block_def random_uniform_vec_def random_normal_vec_def)
  ultimately show ?thesis by blast
qed

text \<open>
  The loop over the blocks never fails when \<open>M > 0\<close>; it leaves every field but the
  variational dicts (and \<open>q\<close>) alone, and gives every block of \<open>shapes\<close> arrays of the
  declared size.
\<close>

lemma init_var_blocks_opt_total:
  assumes "M s \<noteq> 0" "distinct (map fst bs)"
  shows "\<exists>s' g' vg vm vs qq.
           init_var_blocks_opt bs (s, g) = Inr (s', g')
           \<and> s' = s\<lparr>var_gamma := vg, var_mu_beta := vm, var_sigma_beta := vs, q := qq\<rparr>
           \<and> (\<forall>(c, n) \<in> set bs. var_lens s' c n \<and> has_len (q s') c n)
           \<and> (\<forall>c n. c \<notin> fst ` set bs \<longrightarrow>
                 var_lens s' c n = var_lens s c n \<and> has_len (q s') c n = has_len (q s) c n)"
  using assms
proof (induction bs arbitrary: s g)
  case Nil
  show ?case
    by (rule exI[of _ s], rule exI[of _ g], rule exI[of _ "var_gamma s"],
        rule exI[of _ "var_mu_beta s"], rule exI[of _ "var_sigma_beta s"], rule exI[of _ "q s"])
       simp
next
  case (Cons b bs)
  obtain c n where b: "b = (c, n)" by (cases b)
  let ?s0 = "s\<lparr>q := setitem (q s) c (replicate n 0)\<rparr>"
  from Cons.prems have "M ?s0 \<noteq> 0" by simp
  from init_var_block_Inr[OF this, of n c g] obtain gam mu g1 where
    len: "length gam = n" "length mu = n" and
    blk: "init_var_block c n (?s0, g) =
             Inr (?s0\<lparr>var_gamma := setitem (var_gamma ?s0) c gam,
                     var_mu_beta := setitem (var_mu_beta ?s0) c mu,
                     var_sigma_beta := setitem (var_sigma_beta ?s0) c (replicate n (1 / real (M ?s0)))\<rparr>, g1)"
    (is "_ = Inr (?s1, g1)")
    by blast
  have m1: "M ?s1 \<noteq> 0" using Cons.prems by simp
  from Cons.prems b have d: "distinct (map fst bs)" and notin: "c \<notin> fst ` set bs" by auto
  from Cons.IH[OF m1 d, of g1] obtain s' g' vg vm vs qq where
    r: "init_var_blocks_opt bs (?s1, g1) = Inr (s', g')"
    and fr: "s' = ?s1\<lparr>var_gamma := vg, var_mu_beta := vm, var_sigma_beta := vs, q := qq\<rparr>"
    and inr: "\<forall>(c, n) \<in> set bs. var_lens s' c n \<and> has_len (q s') c n"
    and out: "\<forall>c n. c \<notin> fst ` set bs \<longrightarrow>
                var_lens s' c n = var_lens ?s1 c n \<and> has_len (q s') c n = has_len (q ?s1) c n"
    by blast
  have run: "init_var_blocks_opt (b # bs) (s, g) = Inr (s', g')"
    using blk r b by simp
  have fr': "s' = s\<lparr>var_gamma := vg, var_mu_beta := vm, var_sigma_beta := vs, q := qq\<rparr>"
    using fr by simp
  have head: "var_lens s' c n \<and> has_len (q s') c n"
    using out notin len by (simp add: var_lens_def has_len_setitem)
  have frame: "\<forall>c' n'. c' \<notin> fst ` set (b # bs) \<longrightarrow>
        var_lens s' c' n' = var_lens s c' n' \<and> has_len (q s') c' n' = has_len (q s) c' n'"
    using out b by (simp add: var_lens_def has_len_setitem)
  show ?case
    using run fr' head inr frame b by auto
qed

lemma init_var_blocks_sbayes_total:
  assumes "M s \<noteq> 0" "distinct (map fst bs)"
  shows "\<exists>s' g' vg vm vs.
           init_var_blocks_sbayes bs (s, g) = Inr (s', g')
           \<and> s' = s\<lparr>var_gamma := vg, var_mu_beta := vm, var_sigma_beta := vs\<rparr>
           \<and> (\<forall>(c, n) \<in> set bs. var_lens s' c n)
           \<and> (\<forall>c n. c \<notin> fst ` set bs \<longrightarrow> var_lens s' c n = var_lens s c n)"
  using assms
proof (induction bs arbitrary: s g)
  case Nil
  show ?case
    by (rule exI[of _ s], rule exI[of _ g], rule exI[of _ "var_gamma s"],
        rule exI[of _ "var_mu_beta s"], rule exI[of _ "var_sigma_beta s"])
       simp
next
  case (Cons b bs)
  obtain c n where b: "b = (c, n)" by (cases b)
  from init_var_block_Inr[OF Cons.prems(1), of n c g] obtain gam mu g1 where
    len: "length gam = n" "length mu = n" and
    blk: "init_var_block c n (s, g) =
             Inr (s\<lparr>var_gamma := setitem (var_gamma s) c gam,
                     var_mu_beta := setitem (var_mu_beta s) c mu,
                     var_sigma_beta := setitem (var_sigma_beta s) c (replicate n (1 / real (M s)))\<rparr>, g1)"
    (is "_ = Inr (?s1, g1)")
    by blast
  have m1: "M ?s1 \<noteq> 0" using Cons.prems by simp
  from Cons.prems b have d: "distinct (map fst bs)" and notin: "c \<notin> fst ` set bs" by auto
  from Cons.IH[OF m1 d, of g1] obtain s' g' vg vm vs where
    r: "init_var_blocks_sbayes bs (?s1, g1) = Inr (s', g')"
    and fr: "s' = ?s1\<lparr>var_gamma := vg, var_mu_beta := vm, var_sigma_beta := vs\<rparr>"
    and inr: "\<forall>(c, n) \<in> set bs. var_lens s' c n"
    and out: "\<forall>c n. c \<notin> fst ` set bs \<longrightarrow> var_lens s' c n = var_lens ?s1 c n"
    by blast
  have run: "init_var_blocks_sbayes (b # bs) (s, g) = Inr (s', g')"
    using blk r b by simp
  have fr': "s' = s\<lparr>var_gamma := vg, var_mu_beta := vm, var_sigma_beta := vs\<rparr>"
    using fr by simp
  have head: "var_lens s' c n"
    using out notin len by (simp add: var_lens_def has_len_setitem)
  have frame: "\<forall>c' n'. c' \<notin> fst ` set (b # bs) \<longrightarrow> var_lens s' c' n' = var_lens s c' n'"
    using out b by (simp add: var_lens_def has_len_setitem)
  show ?case
    using run fr' head inr frame b by auto
qed

lemma initialize_theta_opt_Inr:
  assumes "initialize_theta_opt (s, g) = Inr (s', g')"
  shows "\<exists>b e p. s' = s\<lparr>sigma_beta := b, sigma_epsilon := e, pi_par := p\<rparr>
           \<and> (\<forall>v. fix_params s ''sigma_beta'' = Some v \<longrightarrow> b = v)
           \<and> (\<forall>v. fix_params s ''sigma_epsilon'' = Some v \<longrightarrow> e = v)
           \<and> (\<forall>v. fix_params s ''pi'' = Some v \<longrightarrow> p = v)"
  using assms unfolding initialize_theta_opt_def
  by (auto split: option.splits prod.splits if_splits)

lemma initialize_theta_opt_total:
  assumes "M s \<noteq> 0"
  shows "\<exists>s' g'. initialize_theta_opt (s, g) = Inr (s', g')"
  using assms unfolding initialize_theta_opt_def
  by (auto split: option.splits prod.splits if_splits)

lemma initialize_theta_sbayes_Inr:
  assumes "initialize_theta_sbayes (s, g) = Inr (s', g')"
  shows "\<exists>b e p. s' = s\<lparr>sigma_beta := b, sigma_epsilon := e,
                         sig_e_snp := map (\<lambda>(c, c_size). (c, replicate c_size e)) (shapes s),
                         pi_par := p\<rparr>
           \<and> (\<forall>v. fix_params s ''sigma_beta'' = Some v \<longrightarrow> b = v)
           \<and> (\<forall>v. fix_params s ''sigma_epsilon'' = Some v \<longrightarrow> e = v)
           \<and> (\<forall>v. fix_params s ''pi'' = Some v \<longrightarrow> p = v)"
  using assms unfolding initialize_theta_sbayes_def Let_def
  by (auto split: option.splits prod.splits if_splits)

lemma initialize_theta_sbayes_total:
  assumes "M s \<noteq> 0"
  shows "\<exists>s' g'. initialize_theta_sbayes (s, g) = Inr (s', g')"
  using assms unfolding initialize_theta_sbayes_def Let_def
  by (auto split: option.splits prod.splits if_splits)

lemma initialize_opt_Inr:
  assumes "initialize_opt (s, g) = Inr (s', g')"
  shows "\<exists>s1 g1 s2. initialize_variational_params_opt (s\<lparr>beta_hat := gdl_beta_hats s\<rparr>, g) = Inr (s1, g1)
           \<and> initialize_theta_opt (s1, g1) = Inr (s2, g') \<and> s' = init_history s2"
  using assms unfolding initialize_opt_def
  by (auto simp: bind_res_eq_Inr)

lemma initialize_sbayes_Inr:
  assumes "initialize_sbayes (s, g) = Inr (s', g')"
  shows "\<exists>s1 g1 s2. initialize_variational_params_sbayes (s\<lparr>beta_hat := gdl_beta_hats s\<rparr>, g) = Inr (s1, g1)
           \<and> initialize_theta_sbayes (s1, g1) = Inr (s2, g') \<and> s' = init_history s2"
  using assms unfolding initialize_sbayes_def
  by (auto simp: bind_res_eq_Inr)

lemma initialize_opt_total:
  assumes m: "M s \<noteq> 0" and d: "distinct (map fst (shapes s))"
  shows "\<exists>s' g'. initialize_opt (s, g) = Inr (s', g')
           \<and> (\<forall>(c, n) \<in> set (shapes s). var_lens s' c n \<and> has_len (q s') c n)"
proof -
  let ?s0 = "s\<lparr>beta_hat := gdl_beta_hats s, var_mu_beta := [], var_sigma_beta := [], var_gamma := []\<rparr>"
  have m0: "M ?s0 \<noteq> 0" and d0: "distinct (map fst (shapes ?s0))" using m d by simp_all
  from init_var_blocks_opt_total[OF m0 d0, of g] obtain s1 g1 vg vm vs qq where
    r1: "init_var_blocks_opt (shapes ?s0) (?s0, g) = Inr (s1, g1)"
    and fr: "s1 = ?s0\<lparr>var_gamma := vg, var_mu_beta := vm, var_sigma_beta := vs, q := qq\<rparr>"
    and lens: "\<forall>(c, n) \<in> set (shapes ?s0). var_lens s1 c n \<and> has_len (q s1) c n"
    by blast
  have v: "initialize_variational_params_opt (s\<lparr>beta_hat := gdl_beta_hats s\<rparr>, g) = Inr (s1, g1)"
    using r1 by (simp add: initialize_variational_params_opt_def)
  have "M s1 \<noteq> 0" using fr m by simp
  from initialize_theta_opt_total[OF this, of g1] obtain s2 g2 where
    t: "initialize_theta_opt (s1, g1) = Inr (s2, g2)" by blast
  from initialize_theta_opt_Inr[OF t] obtain b e p where
    s2: "s2 = s1\<lparr>sigma_beta := b, sigma_epsilon := e, pi_par := p\<rparr>" by blast
  have run: "initialize_opt (s, g) = Inr (init_history s2, g2)"
    using v t by (simp add: initialize_opt_def)
  have "\<forall>(c, n) \<in> set (shapes s). var_lens (init_history s2) c n \<and> has_len (q (init_history s2)) c n"
    using lens s2 by (simp add: var_lens_def init_history_def)
  with run show ?thesis by blast
qed

lemma has_len_replicate_map:
  "(c, n) \<in> set bs \<Longrightarrow> distinct (map fst bs) \<Longrightarrow>
   has_len (map (\<lambda>(c, c_size). (c, replicate c_size e)) bs) c n"
proof -
  assume a: "(c, n) \<in> set bs" "distinct (map fst bs)"
  have "map_of (map (\<lambda>(c, c_size). (c, replicate c_size e)) bs) c = map_option (\<lambda>k. replicate k e) (map_of bs c)"
    by (induction bs) auto
  moreover from a have "map_of bs c = Some n" by simp
  ultimately show ?thesis by (simp add: has_len_def)
qed

lemma initialize_sbayes_total:
  assumes m: "M s \<noteq> 0" and d: "distinct (map fst (shapes s))"
  shows "\<exists>s' g'. initialize_sbayes (s, g) = Inr (s', g')
           \<and> (\<forall>(c, n) \<in> set (shapes s). var_lens s' c n \<and> has_len (sig_e_snp s') c n)"
proof -
  let ?s0 = "s\<lparr>beta_hat := gdl_beta_hats s, var_mu_beta := [], var_sigma_beta := [], var_gamma := []\<rparr>"
  have m0: "M ?s0 \<noteq> 0" and d0: "distinct (map fst (shapes ?s0))" using m d by simp_all
  from init_var_blocks_sbayes_total[OF m0 d0, of g] obtain s1 g1 vg vm vs where
    r1: "init_var_blocks_sbayes (shapes ?s0) (?s0, g) = Inr (s1, g1)"
    and fr: "s1 = ?s0\<lparr>var_gamma := vg, var_mu_beta := vm, var_sigma_beta := vs\<rparr>"
    and lens: "\<forall>(c, n) \<in> set (shapes ?s0). var_lens s1 c n"
    by blast
  have v: "initialize_variational_params_sbayes (s\<lparr>beta_hat := gdl_beta_hats s\<rparr>, g) = Inr (s1, g1)"
    using r1 by (simp add: initialize_variational_params_sbayes_def)
  have "M s1 \<noteq> 0" using fr m by simp
  from initialize_theta_sbayes_total[OF this, of g1] obtain s2 g2 where
    t: "initialize_theta_sbayes (s1, g1) = Inr (s2, g2)" by blast
  from initialize_theta_sbayes_Inr[OF t] obtain b e p where
    s2: "s2 = s1\<lparr>sigma_beta := b, sigma_epsilon := e,
                 sig_e_snp := map (\<lambda>(c, c_size). (c, replicate c_size e)) (shapes s1),
                 pi_par := p\<rparr>" by blast
  have run: "initialize_sbayes (s, g) = Inr (init_history s2, g2)"
    using v t by (simp add: initialize_sbayes_def)
  have sh: "shapes s1 = shapes s" using fr by simp
  have "\<forall>(c, n) \<in> set (shapes s). var_lens (init_history s2) c n \<and> has_len (sig_e_snp (init_history s2)) c n"
    using lens s2 sh d by (auto simp: var_lens_def init_history_def has_len_replicate_map)
  with run show ?thesis by blast
qed

subsection \<open>The M-steps\<close>

lemma m_step_snp_sbayes_Inr:
  assumes "m_step_snp_sbayes adj bh vg vmb vsb vp lb yy_c i Di (se, a, b) = Inr r"
  shows "i < length se \<and>
         r = (se[i := sig_e_new adj bh vg vmb vsb vp lb yy_c Di i],
              a + snp_res_sbayes adj bh vg vmb vsb vp i, b + snp_ld_sbayes Di lb vp i)"
  using assms unfolding m_step_snp_sbayes_def Let_def sig_e_new_def
  by (auto split: if_splits)

lemma m_step_pass_sbayes_Inr:
  assumes "m_step_pass_sbayes adj bh vg vmb vsb vp lb yy_c i rows (se, a, b) = Inr (se', a', b')"
  shows "length se' = length se
       \<and> (rows \<noteq> [] \<longrightarrow> i + length rows \<le> length se)
       \<and> (\<forall>k < length se. se' ! k =
             (if i \<le> k \<and> k < i + length rows
              then sig_e_new adj bh vg vmb vsb vp lb yy_c (rows ! (k - i)) k else se ! k))
       \<and> a' = a + sum_list (map (\<lambda>k. snp_res_sbayes adj bh vg vmb vsb vp (i + k)) [0..<length rows])
       \<and> b' = b + sum_list (map (\<lambda>k. snp_ld_sbayes (rows ! k) lb vp (i + k)) [0..<length rows])"
  using assms
proof (induction rows arbitrary: i se a b)
  case Nil
  then show ?case by simp
next
  case (Cons Di rows)
  from Cons.prems obtain r where
    st: "m_step_snp_sbayes adj bh vg vmb vsb vp lb yy_c i Di (se, a, b) = Inr r"
    and rest: "m_step_pass_sbayes adj bh vg vmb vsb vp lb yy_c (Suc i) rows r = Inr (se', a', b')"
    by (auto simp: bind_res_eq_Inr)
  from m_step_snp_sbayes_Inr[OF st] have i: "i < length se"
    and r: "r = (se[i := sig_e_new adj bh vg vmb vsb vp lb yy_c Di i],
              a + snp_res_sbayes adj bh vg vmb vsb vp i, b + snp_ld_sbayes Di lb vp i)"
    by simp_all
  note ih = Cons.IH[OF rest[unfolded r]]
  from ih have len: "length se' = length se" by simp
  from ih i have bound: "i + length (Di # rows) \<le> length se"
    by (cases rows) auto
  have entries: "\<forall>k < length se. se' ! k =
             (if i \<le> k \<and> k < i + length (Di # rows)
              then sig_e_new adj bh vg vmb vsb vp lb yy_c ((Di # rows) ! (k - i)) k else se ! k)"
  proof (intro allI impI)
    fix k assume k: "k < length se"
    from ih k have e: "se' ! k =
             (if Suc i \<le> k \<and> k < Suc i + length rows
              then sig_e_new adj bh vg vmb vsb vp lb yy_c (rows ! (k - Suc i)) k
              else (se[i := sig_e_new adj bh vg vmb vsb vp lb yy_c Di i]) ! k)"
      by simp
    show "se' ! k = (if i \<le> k \<and> k < i + length (Di # rows)
              then sig_e_new adj bh vg vmb vsb vp lb yy_c ((Di # rows) ! (k - i)) k else se ! k)"
    proof (cases "k = i")
      case True
      with e i show ?thesis by simp
    next
      case False
      then have "(Di # rows) ! (k - i) = rows ! (k - Suc i)" if "i \<le> k"
      proof -
        from that False have "k - i = Suc (k - Suc i)" by arith
        then show ?thesis by simp
      qed
      with e False show ?thesis by auto
    qed
  qed
  have sums: "a' = a + sum_list (map (\<lambda>k. snp_res_sbayes adj bh vg vmb vsb vp (i + k)) [0..<length (Di # rows)])"
    "b' = b + sum_list (map (\<lambda>k. snp_ld_sbayes ((Di # rows) ! k) lb vp (i + k)) [0..<length (Di # rows)])"
    using ih by (simp_all add: map_upt_Suc del: upt_Suc)
  from len bound entries sums show ?case by blast
qed

lemma m_step_block_sbayes_Inr:
  assumes "m_step_block_sbayes adj c (s, a, b) = Inr (s', a', b')"
  shows "\<exists>bh vg vmb vsb vp lb se yy_c rows se'.
           map_of (beta_hat s) c = Some bh \<and> map_of (var_gamma s) c = Some vg
         \<and> map_of (var_mu_beta s) c = Some vmb \<and> map_of (var_sigma_beta s) c = Some vsb
         \<and> np_multiply vg vmb = Inr vp \<and> map_of (ld_bounds s) c = Some lb
         \<and> map_of (sig_e_snp s) c = Some se \<and> map_of (yy s) c = Some yy_c
         \<and> map_of (ld s) c = Some rows
         \<and> m_step_pass_sbayes adj bh vg vmb vsb vp lb yy_c 0 rows (se, a, b) = Inr (se', a', b')
         \<and> s' = s\<lparr>sig_e_snp := setitem (sig_e_snp s) c
                       (map (\<lambda>x. np_clip x (1 / 10 ^ 12) (Some (10 ^ 12))) se')\<rparr>"
  using assms unfolding m_step_block_sbayes_def
  by (auto simp: bind_res_eq_Inr getitem_eq_Inr split: prod.splits)

lemma in_range_setitem_clip:
  "in_range (setitem d c (map (\<lambda>x. np_clip x (1 / 10 ^ 12) (Some (10 ^ 12))) v)) c"
proof -
  have "1 / 10 ^ 12 \<le> np_clip x (1 / 10 ^ 12) (Some (10 ^ 12))
        \<and> np_clip x (1 / 10 ^ 12) (Some (10 ^ 12)) \<le> 10 ^ 12" for x
    by (rule np_clip_bounds) simp
  then show ?thesis
    unfolding in_range_def map_of_setitem list_all_iff by auto
qed

lemma in_range_setitem_other: "c' \<noteq> c \<Longrightarrow> in_range (setitem d c v) c' = in_range d c'"
  by (simp add: in_range_def map_of_setitem)

lemma m_step_blocks_sbayes_range:
  assumes "m_step_blocks_sbayes adj bs (s, a, b) = Inr (s', a', b')"
    and "\<forall>c \<in> K. in_range (sig_e_snp s) c"
  shows "(\<exists>X. s' = s\<lparr>sig_e_snp := X\<rparr>) \<and> (\<forall>c \<in> K \<union> fst ` set bs. in_range (sig_e_snp s') c)"
  using assms
proof (induction bs arbitrary: s a b K)
  case Nil
  then have "s' = s\<lparr>sig_e_snp := sig_e_snp s\<rparr>" by simp
  with Nil show ?case by (metis Un_empty_right image_empty list.set(1) vem_prs_sbayes.select_convs(3) vem_prs_sbayes.surjective vem_prs_sbayes.update_convs(3))
next
  case (Cons blk bs)
  obtain c n where blk: "blk = (c, n)" by (cases blk)
  from Cons.prems(1) blk obtain r where
    st: "m_step_block_sbayes adj c (s, a, b) = Inr r"
    and rest: "m_step_blocks_sbayes adj bs r = Inr (s', a', b')"
    by (auto simp: bind_res_eq_Inr)
  obtain s1 a1 b1 where r: "r = (s1, a1, b1)" by (cases r)
  from m_step_block_sbayes_Inr[OF st[unfolded r]] obtain se' where
    s1: "s1 = s\<lparr>sig_e_snp := setitem (sig_e_snp s) c
                       (map (\<lambda>x. np_clip x (1 / 10 ^ 12) (Some (10 ^ 12))) se')\<rparr>"
    by blast
  have k1: "\<forall>c' \<in> insert c K. in_range (sig_e_snp s1) c'"
  proof
    fix c' assume c': "c' \<in> insert c K"
    show "in_range (sig_e_snp s1) c'"
    proof (cases "c' = c")
      case True
      have "sig_e_snp s1 = setitem (sig_e_snp s) c
                       (map (\<lambda>x. np_clip x (1 / 10 ^ 12) (Some (10 ^ 12))) se')"
        unfolding s1 by simp
      with True show ?thesis by (simp only: in_range_setitem_clip)
    next
      case False
      with c' Cons.prems(2) have "in_range (sig_e_snp s) c'" by blast
      moreover have "sig_e_snp s1 = setitem (sig_e_snp s) c
                       (map (\<lambda>x. np_clip x (1 / 10 ^ 12) (Some (10 ^ 12))) se')"
        unfolding s1 by simp
      ultimately show ?thesis using False by (simp add: in_range_setitem_other)
    qed
  qed
  from Cons.IH[OF rest[unfolded r] k1] obtain X where
    "s' = s1\<lparr>sig_e_snp := X\<rparr>" and rng: "\<forall>c \<in> insert c K \<union> fst ` set bs. in_range (sig_e_snp s') c"
    by blast
  with s1 have "s' = s\<lparr>sig_e_snp := X\<rparr>" by simp
  with rng blk show ?case by auto
qed

lemma m_step_pi_opt_Inr:
  assumes "m_step_pi_opt s = Inr s'"
  obtains p h where "history s ''pi'' = Some h"
    and "s' = s\<lparr>pi_par := p, history := (history s)(''pi'' \<mapsto> h @ [p])\<rparr>"
    and "''pi'' \<in> dom (fix_params s) \<Longrightarrow> p = pi_par s"
    and "''pi'' \<notin> dom (fix_params s) \<Longrightarrow> M s \<noteq> 0 \<and> p = clip (var_gamma_sum s / real (M s)) (1 / real (M s)) 1"
proof (cases "''pi'' \<in> dom (fix_params s)")
  case True
  with assms have "history_append ''pi'' (pi_par s) s = Inr s'"
    by (simp add: m_step_pi_opt_def)
  then obtain h where "history s ''pi'' = Some h" "s' = s\<lparr>history := (history s)(''pi'' \<mapsto> h @ [pi_par s])\<rparr>"
    by (auto simp: history_append_eq_Inr)
  with True that[of h "pi_par s"] show ?thesis by simp
next
  case False
  let ?p = "clip (var_gamma_sum s / real (M s)) (1 / real (M s)) 1"
  from assms False have m: "M s \<noteq> 0"
    by (auto simp: m_step_pi_opt_def split: if_splits)
  with assms False have "history_append ''pi'' ?p (s\<lparr>pi_par := ?p\<rparr>) = Inr s'"
    by (simp add: m_step_pi_opt_def)
  then obtain h where "history s ''pi'' = Some h" "s' = s\<lparr>pi_par := ?p, history := (history s)(''pi'' \<mapsto> h @ [?p])\<rparr>"
    by (auto simp: history_append_eq_Inr)
  with False m that[of h ?p] show ?thesis by simp
qed

lemma m_step_pi_sbayes_Inr:
  assumes "m_step_pi_sbayes s = Inr s'"
  obtains p h where "history s ''pi'' = Some h"
    and "s' = s\<lparr>pi_par := p, history := (history s)(''pi'' \<mapsto> h @ [p])\<rparr>"
    and "''pi'' \<in> dom (fix_params s) \<Longrightarrow> p = pi_par s"
    and "''pi'' \<notin> dom (fix_params s) \<Longrightarrow> M s \<noteq> 0 \<and> p = np_clip (var_gamma_sum s / real (M s)) (1 / real (M s)) (Some 1)"
proof (cases "''pi'' \<in> dom (fix_params s)")
  case True
  with assms have "history_append ''pi'' (pi_par s) s = Inr s'"
    by (simp add: m_step_pi_sbayes_def)
  then obtain h where "history s ''pi'' = Some h" "s' = s\<lparr>history := (history s)(''pi'' \<mapsto> h @ [pi_par s])\<rparr>"
    by (auto simp: history_append_eq_Inr)
  with True that[of h "pi_par s"] show ?thesis by simp
next
  case False
  let ?p = "np_clip (var_gamma_sum s / real (M s)) (1 / real (M s)) (Some 1)"
  from assms False have m: "M s \<noteq> 0"
    by (auto simp: m_step_pi_sbayes_def split: if_splits)
  with assms False have "history_append ''pi'' ?p (s\<lparr>pi_par := ?p\<rparr>) = Inr s'"
    by (simp add: m_step_pi_sbayes_def)
  then obtain h where "history s ''pi'' = Some h" "s' = s\<lparr>pi_par := ?p, history := (history s)(''pi'' \<mapsto> h @ [?p])\<rparr>"
    by (auto simp: history_append_eq_Inr)
  with False m that[of h ?p] show ?thesis by simp
qed

lemma m_step_sigma_beta_opt_Inr:
  assumes "m_step_sigma_beta_opt vgs s = Inr s'"
  obtains b h where "history s ''sigma_beta'' = Some h"
    and "s' = s\<lparr>sigma_beta := b, history := (history s)(''sigma_beta'' \<mapsto> h @ [b])\<rparr>"
    and "''sigma_beta'' \<in> dom (fix_params s) \<Longrightarrow> b = sigma_beta s"
    and "''sigma_beta'' \<notin> dom (fix_params s) \<Longrightarrow> \<exists>x. b = clip x (1 / 10 ^ 12) (10 ^ 12)"
proof -
  from assms obtain s1 where s1: "history_append ''sigma_beta'' (sigma_beta s1) s1 = Inr s'"
    and fixed: "''sigma_beta'' \<in> dom (fix_params s) \<Longrightarrow> s1 = s"
    and free: "''sigma_beta'' \<notin> dom (fix_params s) \<Longrightarrow> \<exists>x. s1 = s\<lparr>sigma_beta := clip x (1 / 10 ^ 12) (10 ^ 12)\<rparr>"
    unfolding m_step_sigma_beta_opt_def bind_res_eq_Inr
    by (auto simp: Let_def bind_res_eq_Inr split: if_splits)
  from s1 obtain h where h: "history s1 ''sigma_beta'' = Some h"
    "s' = s1\<lparr>history := (history s1)(''sigma_beta'' \<mapsto> h @ [sigma_beta s1])\<rparr>"
    by (auto simp: history_append_eq_Inr)
  show ?thesis
  proof (cases "''sigma_beta'' \<in> dom (fix_params s)")
    case True
    with fixed h that[of h "sigma_beta s"] show ?thesis by simp
  next
    case False
    with free obtain x where "s1 = s\<lparr>sigma_beta := clip x (1 / 10 ^ 12) (10 ^ 12)\<rparr>" by blast
    with False h that[of h "clip x (1 / 10 ^ 12) (10 ^ 12)"] show ?thesis by auto
  qed
qed

lemma m_step_sigma_beta_sbayes_Inr:
  assumes "m_step_sigma_beta_sbayes vgs s = Inr s'"
  obtains b h where "history s ''sigma_beta'' = Some h"
    and "s' = s\<lparr>sigma_beta := b, history := (history s)(''sigma_beta'' \<mapsto> h @ [b])\<rparr>"
    and "''sigma_beta'' \<in> dom (fix_params s) \<Longrightarrow> b = sigma_beta s"
    and "''sigma_beta'' \<notin> dom (fix_params s) \<Longrightarrow> \<exists>x. b = np_clip x (1 / 10 ^ 12) None"
proof -
  from assms obtain s1 where s1: "history_append ''sigma_beta'' (sigma_beta s1) s1 = Inr s'"
    and fixed: "''sigma_beta'' \<in> dom (fix_params s) \<Longrightarrow> s1 = s"
    and free: "''sigma_beta'' \<notin> dom (fix_params s) \<Longrightarrow> \<exists>x. s1 = s\<lparr>sigma_beta := np_clip x (1 / 10 ^ 12) None\<rparr>"
    unfolding m_step_sigma_beta_sbayes_def bind_res_eq_Inr
    by (auto simp: Let_def bind_res_eq_Inr split: if_splits)
  from s1 obtain h where h: "history s1 ''sigma_beta'' = Some h"
    "s' = s1\<lparr>history := (history s1)(''sigma_beta'' \<mapsto> h @ [sigma_beta s1])\<rparr>"
    by (auto simp: history_append_eq_Inr)
  show ?thesis
  proof (cases "''sigma_beta'' \<in> dom (fix_params s)")
    case True
    with fixed h that[of h "sigma_beta s"] show ?thesis by simp
  next
    case False
    with free obtain x where "s1 = s\<lparr>sigma_beta := np_clip x (1 / 10 ^ 12) None\<rparr>" by blast
    with False h that[of h "np_clip x (1 / 10 ^ 12) None"] show ?thesis by auto
  qed
qed

lemma m_step_sigma_epsilon_opt_Inr:
  assumes "m_step_sigma_epsilon_opt vgs s = Inr s'"
  obtains e h where "history s ''sigma_epsilon'' = Some h"
    and "s' = s\<lparr>sigma_epsilon := e, history := (history s)(''sigma_epsilon'' \<mapsto> h @ [e])\<rparr>"
    and "''sigma_epsilon'' \<in> dom (fix_params s) \<Longrightarrow> e = sigma_epsilon s"
    and "''sigma_epsilon'' \<notin> dom (fix_params s) \<Longrightarrow> \<exists>x. e = clip x (1 / 10 ^ 12) (10 ^ 12)"
proof -
  from assms obtain s1 where s1: "history_append ''sigma_epsilon'' (sigma_epsilon s1) s1 = Inr s'"
    and fixed: "''sigma_epsilon'' \<in> dom (fix_params s) \<Longrightarrow> s1 = s"
    and free: "''sigma_epsilon'' \<notin> dom (fix_params s) \<Longrightarrow> \<exists>x. s1 = s\<lparr>sigma_epsilon := clip x (1 / 10 ^ 12) (10 ^ 12)\<rparr>"
    unfolding m_step_sigma_epsilon_opt_def bind_res_eq_Inr
    by (auto simp: Let_def bind_res_eq_Inr split: if_splits)
  from s1 obtain h where h: "history s1 ''sigma_epsilon'' = Some h"
    "s' = s1\<lparr>history := (history s1)(''sigma_epsilon'' \<mapsto> h @ [sigma_epsilon s1])\<rparr>"
    by (auto simp: history_append_eq_Inr)
  show ?thesis
  proof (cases "''sigma_epsilon'' \<in> dom (fix_params s)")
    case True
    with fixed h that[of h "sigma_epsilon s"] show ?thesis by simp
  next
    case False
    with free obtain x where "s1 = s\<lparr>sigma_epsilon := clip x (1 / 10 ^ 12) (10 ^ 12)\<rparr>" by blast
    with False h that[of h "clip x (1 / 10 ^ 12) (10 ^ 12)"] show ?thesis by auto
  qed
qed

lemma m_step_residuals_sbayes_Inr:
  assumes "m_step_residuals_sbayes s = Inr (s', gse)"
  shows "\<exists>s1 g0 ldp.
        m_step_blocks_sbayes (if scale_prior s then 1 + 1 / (real (N s) * sigma_beta s) else 1)
           (shapes s) (s, 0, 0) = Inr (s1, g0, ldp)
      \<and> s' = s1\<lparr>ld_prod := 2 * ldp\<rparr> \<and> gse = g0 + ldp"
  using assms unfolding m_step_residuals_sbayes_def Let_def
  by (auto simp: bind_res_eq_Inr split: if_splits)

lemma m_step_sigma_epsilon_sbayes_Inr:
  assumes "m_step_sigma_epsilon_sbayes vgs gse s = Inr s'"
  obtains e h where "history s ''sigma_epsilon'' = Some h"
    and "s' = s\<lparr>sigma_epsilon := e, history := (history s)(''sigma_epsilon'' \<mapsto> h @ [e])\<rparr>"
    and "''sigma_epsilon'' \<in> dom (fix_params s) \<Longrightarrow> e = sigma_epsilon s"
    and "''sigma_epsilon'' \<notin> dom (fix_params s) \<Longrightarrow> \<exists>x. e = np_clip x (1 / 10 ^ 12) (Some (10 ^ 12))"
proof (cases "''sigma_epsilon'' \<in> dom (fix_params s)")
  case True
  with assms have "history_append ''sigma_epsilon'' (sigma_epsilon s) s = Inr s'"
    by (simp add: m_step_sigma_epsilon_sbayes_def)
  then obtain h where "history s ''sigma_epsilon'' = Some h"
    "s' = s\<lparr>history := (history s)(''sigma_epsilon'' \<mapsto> h @ [sigma_epsilon s])\<rparr>"
    by (auto simp: history_append_eq_Inr)
  with True that[of h "sigma_epsilon s"] show ?thesis by simp
next
  case False
  define x where "x = (if scale_prior s then (1 + 2 * gse) * (real (N s) / (real (N s) + vgs))
                       else 1 + 2 * gse)"
  let ?e = "np_clip x (1 / 10 ^ 12) (Some (10 ^ 12))"
  from assms False have "history_append ''sigma_epsilon'' ?e (s\<lparr>sigma_epsilon := ?e\<rparr>) = Inr s'"
    unfolding m_step_sigma_epsilon_sbayes_def Let_def x_def
    by (simp split: if_splits)
  then obtain h where "history s ''sigma_epsilon'' = Some h"
    "s' = s\<lparr>sigma_epsilon := ?e, history := (history s)(''sigma_epsilon'' \<mapsto> h @ [?e])\<rparr>"
    by (auto simp: history_append_eq_Inr)
  with False that[of h ?e] show ?thesis by blast
qed

lemma m_step_opt_Inr:
  assumes "m_step_opt s = Inr s'"
  obtains p b e hp hb he where
        "history s ''pi'' = Some hp" "history s ''sigma_beta'' = Some hb"
        "history s ''sigma_epsilon'' = Some he"
    and "s' = s\<lparr>pi_par := p, sigma_beta := b, sigma_epsilon := e,
                 history := (history s)(''pi'' \<mapsto> hp @ [p], ''sigma_beta'' \<mapsto> hb @ [b],
                                        ''sigma_epsilon'' \<mapsto> he @ [e])\<rparr>"
    and "''pi'' \<in> dom (fix_params s) \<Longrightarrow> p = pi_par s"
    and "''pi'' \<notin> dom (fix_params s) \<Longrightarrow>
           M s \<noteq> 0 \<and> p = clip (var_gamma_sum s / real (M s)) (1 / real (M s)) 1"
    and "''sigma_beta'' \<in> dom (fix_params s) \<Longrightarrow> b = sigma_beta s"
    and "''sigma_beta'' \<notin> dom (fix_params s) \<Longrightarrow> \<exists>x. b = clip x (1 / 10 ^ 12) (10 ^ 12)"
    and "''sigma_epsilon'' \<in> dom (fix_params s) \<Longrightarrow> e = sigma_epsilon s"
    and "''sigma_epsilon'' \<notin> dom (fix_params s) \<Longrightarrow> \<exists>x. e = clip x (1 / 10 ^ 12) (10 ^ 12)"
proof -
  from assms obtain s1 s2 where
    1: "m_step_pi_opt s = Inr s1" and 2: "m_step_sigma_beta_opt (var_gamma_sum s) s1 = Inr s2"
    and 3: "m_step_sigma_epsilon_opt (var_gamma_sum s) s2 = Inr s'"
    unfolding m_step_opt_def Let_def by (auto simp: bind_res_eq_Inr)
  from 1 obtain p hp where hp: "history s ''pi'' = Some hp"
    and s1: "s1 = s\<lparr>pi_par := p, history := (history s)(''pi'' \<mapsto> hp @ [p])\<rparr>"
    and p: "''pi'' \<in> dom (fix_params s) \<longrightarrow> p = pi_par s"
      "''pi'' \<notin> dom (fix_params s) \<longrightarrow>
           M s \<noteq> 0 \<and> p = clip (var_gamma_sum s / real (M s)) (1 / real (M s)) 1"
    by (rule m_step_pi_opt_Inr) blast
  from 2 obtain b hb where hb: "history s1 ''sigma_beta'' = Some hb"
    and s2: "s2 = s1\<lparr>sigma_beta := b, history := (history s1)(''sigma_beta'' \<mapsto> hb @ [b])\<rparr>"
    and b: "''sigma_beta'' \<in> dom (fix_params s1) \<longrightarrow> b = sigma_beta s1"
      "''sigma_beta'' \<notin> dom (fix_params s1) \<longrightarrow> (\<exists>x. b = clip x (1 / 10 ^ 12) (10 ^ 12))"
    by (rule m_step_sigma_beta_opt_Inr) blast
  from 3 obtain e he where he: "history s2 ''sigma_epsilon'' = Some he"
    and s3: "s' = s2\<lparr>sigma_epsilon := e, history := (history s2)(''sigma_epsilon'' \<mapsto> he @ [e])\<rparr>"
    and e: "''sigma_epsilon'' \<in> dom (fix_params s2) \<longrightarrow> e = sigma_epsilon s2"
      "''sigma_epsilon'' \<notin> dom (fix_params s2) \<longrightarrow> (\<exists>x. e = clip x (1 / 10 ^ 12) (10 ^ 12))"
    by (rule m_step_sigma_epsilon_opt_Inr) blast
  have hb': "history s ''sigma_beta'' = Some hb" using hb s1 by simp
  have he': "history s ''sigma_epsilon'' = Some he" using he s2 s1 by simp
  have eq: "s' = s\<lparr>pi_par := p, sigma_beta := b, sigma_epsilon := e,
                 history := (history s)(''pi'' \<mapsto> hp @ [p], ''sigma_beta'' \<mapsto> hb @ [b],
                                        ''sigma_epsilon'' \<mapsto> he @ [e])\<rparr>"
    using s1 s2 s3 by simp
  show ?thesis
    using that[OF hp hb' he' eq] p b e s1 s2 by simp
qed

lemma m_step_sbayes_Inr:
  assumes "m_step_sbayes s = Inr s'"
  obtains p b e hp hb he s3 g0 ldp where
        "history s ''pi'' = Some hp" "history s ''sigma_beta'' = Some hb"
        "history s ''sigma_epsilon'' = Some he"
    and "m_step_blocks_sbayes (if scale_prior s then 1 + 1 / (real (N s) * b) else 1) (shapes s)
           (s\<lparr>pi_par := p, sigma_beta := b,
               history := (history s)(''pi'' \<mapsto> hp @ [p], ''sigma_beta'' \<mapsto> hb @ [b])\<rparr>, 0, 0)
         = Inr (s3, g0, ldp)"
    and "s' = s3\<lparr>sigma_epsilon := e,
                  history := (history s)(''pi'' \<mapsto> hp @ [p], ''sigma_beta'' \<mapsto> hb @ [b],
                                         ''sigma_epsilon'' \<mapsto> he @ [e]),
                  ld_prod := 2 * ldp\<rparr>"
    and "''pi'' \<in> dom (fix_params s) \<Longrightarrow> p = pi_par s"
    and "''pi'' \<notin> dom (fix_params s) \<Longrightarrow>
           M s \<noteq> 0 \<and> p = np_clip (var_gamma_sum s / real (M s)) (1 / real (M s)) (Some 1)"
    and "''sigma_beta'' \<in> dom (fix_params s) \<Longrightarrow> b = sigma_beta s"
    and "''sigma_beta'' \<notin> dom (fix_params s) \<Longrightarrow> \<exists>x. b = np_clip x (1 / 10 ^ 12) None"
    and "''sigma_epsilon'' \<in> dom (fix_params s) \<Longrightarrow> e = sigma_epsilon s"
    and "''sigma_epsilon'' \<notin> dom (fix_params s) \<Longrightarrow> \<exists>x. e = np_clip x (1 / 10 ^ 12) (Some (10 ^ 12))"
proof -
  from assms obtain s1 s2 s4 gse where
    1: "m_step_pi_sbayes s = Inr s1" and 2: "m_step_sigma_beta_sbayes (var_gamma_sum s) s1 = Inr s2"
    and r: "m_step_residuals_sbayes s2 = Inr (s4, gse)"
    and 3: "m_step_sigma_epsilon_sbayes (var_gamma_sum s) gse s4 = Inr s'"
    unfolding m_step_sbayes_def Let_def by (auto simp: bind_res_eq_Inr)
  from 1 obtain p hp where hp: "history s ''pi'' = Some hp"
    and s1: "s1 = s\<lparr>pi_par := p, history := (history s)(''pi'' \<mapsto> hp @ [p])\<rparr>"
    and p: "''pi'' \<in> dom (fix_params s) \<longrightarrow> p = pi_par s"
      "''pi'' \<notin> dom (fix_params s) \<longrightarrow>
           M s \<noteq> 0 \<and> p = np_clip (var_gamma_sum s / real (M s)) (1 / real (M s)) (Some 1)"
    by (rule m_step_pi_sbayes_Inr) blast
  from 2 obtain b hb where hb: "history s1 ''sigma_beta'' = Some hb"
    and s2: "s2 = s1\<lparr>sigma_beta := b, history := (history s1)(''sigma_beta'' \<mapsto> hb @ [b])\<rparr>"
    and b: "''sigma_beta'' \<in> dom (fix_params s1) \<longrightarrow> b = sigma_beta s1"
      "''sigma_beta'' \<notin> dom (fix_params s1) \<longrightarrow> (\<exists>x. b = np_clip x (1 / 10 ^ 12) None)"
    by (rule m_step_sigma_beta_sbayes_Inr) blast
  from m_step_residuals_sbayes_Inr[OF r] obtain s3 g0 ldp where
    blocks: "m_step_blocks_sbayes (if scale_prior s2 then 1 + 1 / (real (N s2) * sigma_beta s2) else 1)
           (shapes s2) (s2, 0, 0) = Inr (s3, g0, ldp)"
    and s4: "s4 = s3\<lparr>ld_prod := 2 * ldp\<rparr>"
    by blast
  from m_step_blocks_sbayes_range[OF blocks, of "{}"] obtain X where s3: "s3 = s2\<lparr>sig_e_snp := X\<rparr>"
    by auto
  from 3 obtain e he where he: "history s4 ''sigma_epsilon'' = Some he"
    and s5: "s' = s4\<lparr>sigma_epsilon := e, history := (history s4)(''sigma_epsilon'' \<mapsto> he @ [e])\<rparr>"
    and e: "''sigma_epsilon'' \<in> dom (fix_params s4) \<longrightarrow> e = sigma_epsilon s4"
      "''sigma_epsilon'' \<notin> dom (fix_params s4) \<longrightarrow> (\<exists>x. e = np_clip x (1 / 10 ^ 12) (Some (10 ^ 12)))"
    by (rule m_step_sigma_epsilon_sbayes_Inr) blast
  have hb': "history s ''sigma_beta'' = Some hb" using hb s1 by simp
  have he': "history s ''sigma_epsilon'' = Some he" using he s4 s3 s2 s1 by simp
  have s2': "s2 = s\<lparr>pi_par := p, sigma_beta := b,
               history := (history s)(''pi'' \<mapsto> hp @ [p], ''sigma_beta'' \<mapsto> hb @ [b])\<rparr>"
    using s1 s2 by simp
  have blocks': "m_step_blocks_sbayes (if scale_prior s then 1 + 1 / (real (N s) * b) else 1) (shapes s)
           (s\<lparr>pi_par := p, sigma_beta := b,
               history := (history s)(''pi'' \<mapsto> hp @ [p], ''sigma_beta'' \<mapsto> hb @ [b])\<rparr>, 0, 0)
         = Inr (s3, g0, ldp)"
    using blocks unfolding s2' by (cases "scale_prior s") simp_all
  have eq: "s' = s3\<lparr>sigma_epsilon := e,
                  history := (history s)(''pi'' \<mapsto> hp @ [p], ''sigma_beta'' \<mapsto> hb @ [b],
                                         ''sigma_epsilon'' \<mapsto> he @ [e]),
                  ld_prod := 2 * ldp\<rparr>"
    using s5 s4 s3 s2' by simp
  show ?thesis
    using that[OF hp hb' he' blocks' eq] p b e s1 s2 s3 s4 by simp
qed

lemmas eval_defs =
  bind_res_def getitem_def setitem_def lookup_def history_append_def
  np_zip_def np_multiply_def np_add_def np_dot_def dot_def vsq_def dot_sq_plus_def
  var_gamma_sum_def sigma_beta_numerator_def Let_def numeral_2_eq_2

lemma m_step_opt_two_variant: "\<exists>s'. m_step_opt two_variant_opt = Inr s'"
  by (simp add: two_variant_opt_def m_step_opt_def m_step_pi_opt_def m_step_sigma_beta_opt_def
      m_step_sigma_epsilon_opt_def clip_def eval_defs)

lemmas m_step_sbayes_defs =
  m_step_sbayes_def m_step_pi_sbayes_def m_step_sigma_beta_sbayes_def
  m_step_residuals_sbayes_def m_step_sigma_epsilon_sbayes_def m_step_block_sbayes_def
  m_step_snp_sbayes_def snp_res_sbayes_def snp_ld_sbayes_def np_clip_def

lemma m_step_sbayes_two_variant: "\<exists>s'. m_step_sbayes two_variant_sbayes = Inr s'"
  by (simp add: two_variant_sbayes_def m_step_sbayes_defs eval_defs)

lemma m_step_opt_ranges:
  assumes "m_step_opt s = Inr s'"
  shows "(''pi'' \<notin> dom (fix_params s) \<longrightarrow> 1 / real (M s) \<le> pi_par s' \<and> pi_par s' \<le> 1)
       \<and> (''sigma_beta'' \<notin> dom (fix_params s) \<longrightarrow>
             1 / 10 ^ 12 \<le> sigma_beta s' \<and> sigma_beta s' \<le> 10 ^ 12)
       \<and> (''sigma_epsilon'' \<notin> dom (fix_params s) \<longrightarrow>
             1 / 10 ^ 12 \<le> sigma_epsilon s' \<and> sigma_epsilon s' \<le> 10 ^ 12)"
  using assms
proof (rule m_step_opt_Inr)
  fix p b e hp hb he
  assume s': "s' = s\<lparr>pi_par := p, sigma_beta := b, sigma_epsilon := e,
                 history := (history s)(''pi'' \<mapsto> hp @ [p], ''sigma_beta'' \<mapsto> hb @ [b],
                                        ''sigma_epsilon'' \<mapsto> he @ [e])\<rparr>"
    and p: "''pi'' \<notin> dom (fix_params s) \<Longrightarrow>
           M s \<noteq> 0 \<and> p = clip (var_gamma_sum s / real (M s)) (1 / real (M s)) 1"
    and b: "''sigma_beta'' \<notin> dom (fix_params s) \<Longrightarrow> \<exists>x. b = clip x (1 / 10 ^ 12) (10 ^ 12)"
    and e: "''sigma_epsilon'' \<notin> dom (fix_params s) \<Longrightarrow> \<exists>x. e = clip x (1 / 10 ^ 12) (10 ^ 12)"
  have 1: "1 / real (M s) \<le> p \<and> p \<le> 1" if "''pi'' \<notin> dom (fix_params s)"
  proof -
    from p[OF that] have m: "M s \<noteq> 0" and pe: "p = clip (var_gamma_sum s / real (M s)) (1 / real (M s)) 1"
      by simp_all
    from m have "1 / real (M s) \<le> 1" by simp
    from clip_bounds[OF this] pe show ?thesis by simp
  qed
  have r: "(1::real) / 10 ^ 12 \<le> 10 ^ 12" by simp
  have 2: "1 / 10 ^ 12 \<le> b \<and> b \<le> 10 ^ 12" if "''sigma_beta'' \<notin> dom (fix_params s)"
    using b[OF that] clip_bounds[OF r] by blast
  have 3: "1 / 10 ^ 12 \<le> e \<and> e \<le> 10 ^ 12" if "''sigma_epsilon'' \<notin> dom (fix_params s)"
    using e[OF that] clip_bounds[OF r] by blast
  have sel: "pi_par s' = p" "sigma_beta s' = b" "sigma_epsilon s' = e"
    unfolding s' by simp_all
  show ?thesis
    unfolding sel using 1 2 3 by blast
qed

lemma m_step_sbayes_ranges:
  assumes "m_step_sbayes s = Inr s'"
  shows "(''pi'' \<notin> dom (fix_params s) \<longrightarrow> 1 / real (M s) \<le> pi_par s' \<and> pi_par s' \<le> 1)
       \<and> (''sigma_beta'' \<notin> dom (fix_params s) \<longrightarrow> 1 / 10 ^ 12 \<le> sigma_beta s')
       \<and> (''sigma_epsilon'' \<notin> dom (fix_params s) \<longrightarrow>
             1 / 10 ^ 12 \<le> sigma_epsilon s' \<and> sigma_epsilon s' \<le> 10 ^ 12)
       \<and> (\<forall>c \<in> fst ` set (shapes s). in_range (sig_e_snp s') c)"
  using assms
proof (rule m_step_sbayes_Inr)
  fix p b e hp hb he s3 g0 ldp
  assume blocks: "m_step_blocks_sbayes (if scale_prior s then 1 + 1 / (real (N s) * b) else 1) (shapes s)
           (s\<lparr>pi_par := p, sigma_beta := b,
               history := (history s)(''pi'' \<mapsto> hp @ [p], ''sigma_beta'' \<mapsto> hb @ [b])\<rparr>, 0, 0)
         = Inr (s3, g0, ldp)"
    and s': "s' = s3\<lparr>sigma_epsilon := e,
                  history := (history s)(''pi'' \<mapsto> hp @ [p], ''sigma_beta'' \<mapsto> hb @ [b],
                                         ''sigma_epsilon'' \<mapsto> he @ [e]),
                  ld_prod := 2 * ldp\<rparr>"
    and p: "''pi'' \<notin> dom (fix_params s) \<Longrightarrow>
           M s \<noteq> 0 \<and> p = np_clip (var_gamma_sum s / real (M s)) (1 / real (M s)) (Some 1)"
    and b: "''sigma_beta'' \<notin> dom (fix_params s) \<Longrightarrow> \<exists>x. b = np_clip x (1 / 10 ^ 12) None"
    and e: "''sigma_epsilon'' \<notin> dom (fix_params s) \<Longrightarrow> \<exists>x. e = np_clip x (1 / 10 ^ 12) (Some (10 ^ 12))"
  let ?s2 = "s\<lparr>pi_par := p, sigma_beta := b,
               history := (history s)(''pi'' \<mapsto> hp @ [p], ''sigma_beta'' \<mapsto> hb @ [b])\<rparr>"
  from m_step_blocks_sbayes_range[OF blocks, of "{}"] obtain X where
    s3: "s3 = ?s2\<lparr>sig_e_snp := X\<rparr>" and rng: "\<forall>c \<in> fst ` set (shapes s). in_range (sig_e_snp s3) c"
    by auto
  have 1: "1 / real (M s) \<le> p \<and> p \<le> 1" if "''pi'' \<notin> dom (fix_params s)"
  proof -
    from p[OF that] have m: "M s \<noteq> 0"
      and pe: "p = np_clip (var_gamma_sum s / real (M s)) (1 / real (M s)) (Some 1)"
      by simp_all
    from m have "1 / real (M s) \<le> 1" by simp
    from np_clip_bounds[OF this] pe show ?thesis by simp
  qed
  have r: "(1::real) / 10 ^ 12 \<le> 10 ^ 12" by simp
  have 2: "1 / 10 ^ 12 \<le> b" if "''sigma_beta'' \<notin> dom (fix_params s)"
    using b[OF that] np_clip_lower by blast
  have 3: "1 / 10 ^ 12 \<le> e \<and> e \<le> 10 ^ 12" if "''sigma_epsilon'' \<notin> dom (fix_params s)"
    using e[OF that] np_clip_bounds[OF r] by blast
  have sel: "pi_par s' = p" "sigma_beta s' = b" "sigma_epsilon s' = e" "sig_e_snp s' = sig_e_snp s3"
    unfolding s' s3 by simp_all
  show ?thesis
    unfolding sel using 1 2 3 rng by blast
qed

subsection \<open>The M-steps return on valid states\<close>

lemma block_vec_getitem:
  assumes "block_vec d c n P"
  obtains v where "getitem d c = Inr v" "length v = n" "list_all P v"
  using assms by (auto simp: block_vec_def getitem_def split: option.splits)

lemma sum_res_total:
  assumes "\<And>x. x \<in> set xs \<Longrightarrow> \<exists>v. f x = Inr v"
  shows "\<exists>r. sum_res f xs = Inr r"
  using assms
proof (induction xs)
  case Nil
  then show ?case by simp
next
  case (Cons x xs)
  from Cons.prems[of x] obtain v where v: "f x = Inr v" by auto
  from Cons.IH Cons.prems obtain r where r: "sum_res f xs = Inr r" by auto
  from v r show ?case by simp
qed

lemma dot_sq_plus_total:
  "length g = n \<Longrightarrow> length mu = n \<Longrightarrow> length sb = n \<Longrightarrow> \<exists>r. dot_sq_plus g mu sb = Inr r"
  by (simp add: dot_sq_plus_def np_add_def np_zip_def vsq_def np_dot_def)

lemma block_arrays_ok_of_valid:
  assumes "valid_m_step s" "c \<in> set (map fst (shapes s))"
  shows "\<exists>n. (c, n) \<in> set (shapes s) \<and> block_arrays_ok s c n"
proof -
  from assms(2) obtain n where n: "(c, n) \<in> set (shapes s)" by auto
  with assms(1) have "block_arrays_ok s c n"
    unfolding valid_m_step_def list_all_iff by auto
  with n show ?thesis by blast
qed

lemma sigma_beta_numerator_total:
  assumes "valid_m_step s"
  shows "\<exists>r. sigma_beta_numerator s = Inr r"
  unfolding sigma_beta_numerator_def
proof (rule sum_res_total)
  fix c assume "c \<in> set (map fst (var_mu_beta s))"
  with assms have "c \<in> set (map fst (shapes s))" by (simp add: valid_m_step_def)
  from block_arrays_ok_of_valid[OF assms this] obtain n where ok: "block_arrays_ok s c n" by blast
  from ok obtain g where g: "getitem (var_gamma s) c = Inr g" "length g = n"
    unfolding block_arrays_ok_def by (auto elim: block_vec_getitem)
  from ok obtain mu where mu: "getitem (var_mu_beta s) c = Inr mu" "length mu = n"
    unfolding block_arrays_ok_def by (auto elim: block_vec_getitem)
  from ok obtain sb where sb: "getitem (var_sigma_beta s) c = Inr sb" "length sb = n"
    unfolding block_arrays_ok_def by (auto elim: block_vec_getitem)
  from dot_sq_plus_total[OF g(2) mu(2) sb(2)] g mu sb
  show "\<exists>v. bind_res (getitem (var_gamma s) c) (\<lambda>g.
        bind_res (getitem (var_mu_beta s) c) (\<lambda>mu.
        bind_res (getitem (var_sigma_beta s) c) (\<lambda>sb. dot_sq_plus g mu sb))) = Inr v"
    by simp
qed

lemma m_step_sig_eps_opt_total:
  assumes "\<And>c n. (c, n) \<in> set bl \<Longrightarrow> block_arrays_ok s c n \<and> block_vec (q s) c n P"
  shows "\<exists>r. m_step_sig_eps_opt adj s bl acc = Inr r"
  using assms
proof (induction bl arbitrary: acc)
  case Nil
  then show ?case by simp
next
  case (Cons blk bl)
  obtain c n where blk: "blk = (c, n)" by (cases blk)
  from Cons.prems[of c n] blk have ok: "block_arrays_ok s c n" and qk: "block_vec (q s) c n P" by simp_all
  from ok obtain g where g: "getitem (var_gamma s) c = Inr g" "length g = n"
    unfolding block_arrays_ok_def by (auto elim: block_vec_getitem)
  from ok obtain mu where mu: "getitem (var_mu_beta s) c = Inr mu" "length mu = n"
    unfolding block_arrays_ok_def by (auto elim: block_vec_getitem)
  from ok obtain sb where sb: "getitem (var_sigma_beta s) c = Inr sb" "length sb = n"
    unfolding block_arrays_ok_def by (auto elim: block_vec_getitem)
  from ok obtain bh where bh: "getitem (beta_hat s) c = Inr bh" "length bh = n"
    unfolding block_arrays_ok_def by (auto elim: block_vec_getitem)
  from qk obtain qc where qc: "getitem (q s) c = Inr qc" "length qc = n"
    by (auto elim: block_vec_getitem)
  from dot_sq_plus_total[OF g(2) mu(2) sb(2)] obtain d2 where d2: "dot_sq_plus g mu sb = Inr d2" by blast
  have vp: "np_multiply g mu = Inr (map2 (*) g mu)" using g mu by (simp add: np_multiply_def np_zip_def)
  have d1: "np_dot (map2 (*) g mu) bh = Inr (dot (map2 (*) g mu) bh)"
    "np_dot (map2 (*) g mu) qc = Inr (dot (map2 (*) g mu) qc)"
    using g mu bh qc by (simp_all add: np_dot_def)
  from Cons.IH[of "acc + (- 2 * dot (map2 (*) g mu) bh + adj * d2 + dot (map2 (*) g mu) qc)"] Cons.prems
  obtain r where "m_step_sig_eps_opt adj s bl
       (acc + (- 2 * dot (map2 (*) g mu) bh + adj * d2 + dot (map2 (*) g mu) qc)) = Inr r"
    by auto
  with g mu sb bh qc d2 vp d1 show ?case unfolding blk by simp
qed

lemma m_step_pi_opt_total:
  assumes "M s \<noteq> 0" "history s ''pi'' = Some h"
  shows "\<exists>p. m_step_pi_opt s = Inr (s\<lparr>pi_par := p, history := (history s)(''pi'' \<mapsto> h @ [p])\<rparr>)"
proof (cases "''pi'' \<in> dom (fix_params s)")
  case True
  with assms have "m_step_pi_opt s = Inr (s\<lparr>pi_par := pi_par s, history := (history s)(''pi'' \<mapsto> h @ [pi_par s])\<rparr>)"
    by (simp add: m_step_pi_opt_def history_append_def lookup_def)
  then show ?thesis by blast
next
  case False
  with assms have "m_step_pi_opt s
      = Inr (s\<lparr>pi_par := clip (var_gamma_sum s / real (M s)) (1 / real (M s)) 1,
               history := (history s)(''pi'' \<mapsto> h @ [clip (var_gamma_sum s / real (M s)) (1 / real (M s)) 1])\<rparr>)"
    by (simp add: m_step_pi_opt_def history_append_def lookup_def)
  then show ?thesis by blast
qed

lemma m_step_sigma_beta_opt_total:
  assumes "sigma_beta_numerator s = Inr r" "vgs \<noteq> 0" "sigma_epsilon s \<noteq> 0"
    "history s ''sigma_beta'' = Some h" "1 / 10 ^ 12 \<le> sigma_beta s"
  shows "\<exists>b. m_step_sigma_beta_opt vgs s
              = Inr (s\<lparr>sigma_beta := b, history := (history s)(''sigma_beta'' \<mapsto> h @ [b])\<rparr>)
            \<and> 1 / 10 ^ 12 \<le> b"
proof (cases "''sigma_beta'' \<in> dom (fix_params s)")
  case True
  with assms have "m_step_sigma_beta_opt vgs s
       = Inr (s\<lparr>sigma_beta := sigma_beta s, history := (history s)(''sigma_beta'' \<mapsto> h @ [sigma_beta s])\<rparr>)"
    by (simp add: m_step_sigma_beta_opt_def history_append_def lookup_def)
  with assms(5) show ?thesis by blast
next
  case False
  define x where "x = (if scale_prior s then r / vgs / sigma_epsilon s else r / vgs)"
  have r: "(1::real) / 10 ^ 12 \<le> 10 ^ 12" by simp
  from False assms have "m_step_sigma_beta_opt vgs s
       = Inr (s\<lparr>sigma_beta := clip x (1 / 10 ^ 12) (10 ^ 12),
                history := (history s)(''sigma_beta'' \<mapsto> h @ [clip x (1 / 10 ^ 12) (10 ^ 12)])\<rparr>)"
    by (simp add: m_step_sigma_beta_opt_def history_append_def lookup_def Let_def x_def)
  with clip_bounds[OF r, of x] show ?thesis by blast
qed

lemma m_step_sigma_epsilon_opt_total:
  assumes "\<And>adj. \<exists>r. m_step_sig_eps_opt adj s (shapes s) 0 = Inr r"
    "real (N s) * sigma_beta s \<noteq> 0" "real (N s) + vgs \<noteq> 0"
    "history s ''sigma_epsilon'' = Some h"
  shows "\<exists>s'. m_step_sigma_epsilon_opt vgs s = Inr s'"
proof (cases "''sigma_epsilon'' \<in> dom (fix_params s)")
  case True
  with assms show ?thesis
    by (simp add: m_step_sigma_epsilon_opt_def history_append_def lookup_def)
next
  case False
  from assms(1)[of "if scale_prior s then 1 + 1 / (real (N s) * sigma_beta s) else 1"]
  obtain r where "m_step_sig_eps_opt (if scale_prior s then 1 + 1 / (real (N s) * sigma_beta s) else 1)
      s (shapes s) 0 = Inr r"
    by blast
  with False assms(2,3,4) show ?thesis
    by (simp add: m_step_sigma_epsilon_opt_def history_append_def lookup_def Let_def)
qed

lemma m_step_opt_total:
  assumes "valid_m_step_opt s"
  shows "\<exists>s'. m_step_opt s = Inr s'"
proof -
  from assms have v: "valid_m_step s"
    and qs: "\<And>c n. (c, n) \<in> set (shapes s) \<Longrightarrow> block_vec (q s) c n (\<lambda>x. \<bar>x\<bar> \<le> 10 ^ 50)"
    unfolding valid_m_step_opt_def list_all_iff by auto
  from v have oks: "\<And>c n. (c, n) \<in> set (shapes s) \<Longrightarrow> block_arrays_ok s c n"
    unfolding valid_m_step_def list_all_iff by auto
  from v obtain hp hb he where h: "history s ''pi'' = Some hp" "history s ''sigma_beta'' = Some hb"
    "history s ''sigma_epsilon'' = Some he"
    unfolding valid_m_step_def by auto
  from v have n0: "0 < N s" "0 < M s" "0 < var_gamma_sum s" "1 / 10 ^ 12 \<le> sigma_beta s"
    "1 / 10 ^ 12 \<le> sigma_epsilon s"
    unfolding valid_m_step_def by blast+
  from n0(2) have m0: "M s \<noteq> 0" by simp
  note n = n0(1) m0 n0(3,4,5)
  from m_step_pi_opt_total[OF n(2) h(1)] obtain p where
    1: "m_step_pi_opt s = Inr (s\<lparr>pi_par := p, history := (history s)(''pi'' \<mapsto> hp @ [p])\<rparr>)"
    by blast
  let ?s1 = "s\<lparr>pi_par := p, history := (history s)(''pi'' \<mapsto> hp @ [p])\<rparr>"
  from sigma_beta_numerator_total[OF v] obtain r where "sigma_beta_numerator s = Inr r" by blast
  then have num: "sigma_beta_numerator ?s1 = Inr r" by (simp add: sigma_beta_numerator_def)
  from n(5) have se: "sigma_epsilon ?s1 \<noteq> 0" by auto
  from n(3) have vg: "var_gamma_sum s \<noteq> 0" by simp
  have hb1: "history ?s1 ''sigma_beta'' = Some hb" using h by simp
  have sb1: "1 / 10 ^ 12 \<le> sigma_beta ?s1" using n(4) by simp
  from m_step_sigma_beta_opt_total[OF num vg se hb1 sb1] obtain b where
    2: "m_step_sigma_beta_opt (var_gamma_sum s) ?s1
          = Inr (?s1\<lparr>sigma_beta := b, history := (history ?s1)(''sigma_beta'' \<mapsto> hb @ [b])\<rparr>)"
    and b: "1 / 10 ^ 12 \<le> b"
    by blast
  let ?s2 = "?s1\<lparr>sigma_beta := b, history := (history ?s1)(''sigma_beta'' \<mapsto> hb @ [b])\<rparr>"
  have tot: "\<exists>r. m_step_sig_eps_opt adj ?s2 (shapes ?s2) 0 = Inr r" for adj
  proof (rule m_step_sig_eps_opt_total)
    fix c n assume "(c, n) \<in> set (shapes ?s2)"
    then have m: "(c, n) \<in> set (shapes s)" by simp
    from oks[OF m] qs[OF m]
    show "block_arrays_ok ?s2 c n \<and> block_vec (q ?s2) c n (\<lambda>x. \<bar>x\<bar> \<le> 10 ^ 50)"
      by (simp add: block_arrays_ok_def)
  qed
  from b have "0 < b" by (rule less_le_trans[rotated]) simp
  with n(1) have nb: "real (N ?s2) * sigma_beta ?s2 \<noteq> 0" by simp
  from n(1,3) have nv: "real (N ?s2) + var_gamma_sum s \<noteq> 0" by simp
  have he2: "history ?s2 ''sigma_epsilon'' = Some he" using h by simp
  from m_step_sigma_epsilon_opt_total[OF tot nb nv he2] obtain s' where
    3: "m_step_sigma_epsilon_opt (var_gamma_sum s) ?s2 = Inr s'" by blast
  from 1 2 3 show ?thesis by (simp add: m_step_opt_def Let_def)
qed

lemma m_step_snp_sbayes_total:
  assumes "i < n" "length bh = n" "length vg = n" "length vmb = n" "length vsb = n"
    "length vp = n" "length yy_c = n" "length (fst lb) = n" "length (snd lb) = n"
    "length se = n" "window_ok lb n i Di"
  shows "\<exists>x a' b'. m_step_snp_sbayes adj bh vg vmb vsb vp lb yy_c i Di (se, a, b)
                      = Inr (se[i := x], a', b')"
proof -
  from assms(11) have w: "fst lb ! i \<le> i" "snd lb ! i \<le> n"
    "length Di = snd lb ! i - fst lb ! i"
    unfolding window_ok_def by simp_all
  have "list_all (\<lambda>j. fst lb ! i \<le> j \<and> j - fst lb ! i < length Di \<and> j < length vp)
          [Suc i..<snd lb ! i]"
    unfolding list_all_iff using w assms(6) by auto
  with assms(1-10) have "m_step_snp_sbayes adj bh vg vmb vsb vp lb yy_c i Di (se, a, b)
      = Inr (se[i := yy_c ! i + 2 * (snp_res_sbayes adj bh vg vmb vsb vp i + snp_ld_sbayes Di lb vp i)],
             a + snp_res_sbayes adj bh vg vmb vsb vp i, b + snp_ld_sbayes Di lb vp i)"
    unfolding m_step_snp_sbayes_def Let_def by simp
  then show ?thesis by blast
qed

lemma m_step_pass_sbayes_total:
  assumes "length bh = n" "length vg = n" "length vmb = n" "length vsb = n"
    "length vp = n" "length yy_c = n" "length (fst lb) = n" "length (snd lb) = n"
    "length se = n" "i + length rows \<le> n"
    "\<And>k. k < length rows \<Longrightarrow> window_ok lb n (i + k) (rows ! k)"
  shows "\<exists>se' a' b'. m_step_pass_sbayes adj bh vg vmb vsb vp lb yy_c i rows (se, a, b)
                      = Inr (se', a', b') \<and> length se' = n"
  using assms(9,10,11)
proof (induction rows arbitrary: i se a b)
  case Nil
  then show ?case by simp
next
  case (Cons Di rows)
  from Cons.prems(2) have i: "i < n" by simp
  from Cons.prems(3)[of 0] have w: "window_ok lb n i Di" by simp
  from m_step_snp_sbayes_total[OF i assms(1-8) Cons.prems(1) w, of adj a b]
  obtain x a1 b1 where
    st: "m_step_snp_sbayes adj bh vg vmb vsb vp lb yy_c i Di (se, a, b) = Inr (se[i := x], a1, b1)"
    by blast
  have l: "length (se[i := x]) = n" using Cons.prems(1) by simp
  from Cons.prems(2) have b: "Suc i + length rows \<le> n" by simp
  have ws: "window_ok lb n (Suc i + k) (rows ! k)" if "k < length rows" for k
    using Cons.prems(3)[of "Suc k"] that by simp
  from Cons.IH[OF l b ws, of a1 b1] st show ?case by simp
qed

lemma m_step_block_sbayes_total:
  assumes "block_arrays_ok s c n" "block_inputs_ok_sbayes s c n"
  shows "\<exists>se' a' b'. m_step_block_sbayes adj c (s, a, b)
            = Inr (s\<lparr>sig_e_snp := setitem (sig_e_snp s) c se'\<rparr>, a', b') \<and> length se' = n"
proof -
  from assms(1) obtain g where g: "getitem (var_gamma s) c = Inr g" "length g = n"
    unfolding block_arrays_ok_def by (auto elim: block_vec_getitem)
  from assms(1) obtain mu where mu: "getitem (var_mu_beta s) c = Inr mu" "length mu = n"
    unfolding block_arrays_ok_def by (auto elim: block_vec_getitem)
  from assms(1) obtain sb where sb: "getitem (var_sigma_beta s) c = Inr sb" "length sb = n"
    unfolding block_arrays_ok_def by (auto elim: block_vec_getitem)
  from assms(1) obtain bh where bh: "getitem (beta_hat s) c = Inr bh" "length bh = n"
    unfolding block_arrays_ok_def by (auto elim: block_vec_getitem)
  from assms(2) obtain yc where yc: "getitem (yy s) c = Inr yc" "length yc = n"
    unfolding block_inputs_ok_sbayes_def by (auto elim: block_vec_getitem)
  from assms(2) obtain se where se: "getitem (sig_e_snp s) c = Inr se" "length se = n"
    unfolding block_inputs_ok_sbayes_def has_len_def getitem_def by (auto split: option.splits)
  from assms(2) obtain lb rows where lb: "getitem (ld_bounds s) c = Inr lb"
    "length (fst lb) = n" "length (snd lb) = n"
    and rows: "getitem (ld s) c = Inr rows" "length rows = n"
    and ws: "list_all (\<lambda>i. window_ok lb n i (rows ! i)) [0..<n]"
    unfolding block_inputs_ok_sbayes_def block_ld_ok_def getitem_def by (auto split: option.splits)
  have vp: "np_multiply g mu = Inr (map2 (*) g mu)" "length (map2 (*) g mu) = n"
    using g mu by (simp_all add: np_multiply_def np_zip_def)
  have w: "window_ok lb n (0 + k) (rows ! k)" if "k < length rows" for k
    using ws that rows(2) unfolding list_all_iff by simp
  have le: "0 + length rows \<le> n" using rows(2) by simp
  from m_step_pass_sbayes_total[OF bh(2) g(2) mu(2) sb(2) vp(2) yc(2) lb(2,3) se(2) le w, of adj a b]
  obtain se' a' b' where
    pass: "m_step_pass_sbayes adj bh g mu sb (map2 (*) g mu) lb yc 0 rows (se, a, b) = Inr (se', a', b')"
    and l: "length se' = n"
    by blast
  have "m_step_block_sbayes adj c (s, a, b)
          = Inr (s\<lparr>sig_e_snp := setitem (sig_e_snp s) c
                     (map (\<lambda>x. np_clip x (1 / 10 ^ 12) (Some (10 ^ 12))) se')\<rparr>, a', b')"
    unfolding m_step_block_sbayes_def using g mu sb bh yc se lb rows vp pass by simp
  moreover have "length (map (\<lambda>x. np_clip x (1 / 10 ^ 12) (Some (10 ^ 12))) se') = n"
    using l by simp
  ultimately show ?thesis by blast
qed

lemma block_vec_setitem_other: "c' \<noteq> c \<Longrightarrow> block_vec (setitem d c v) c' n P = block_vec d c' n P"
  by (simp add: block_vec_def map_of_setitem)

lemma has_len_setitem_other: "c' \<noteq> c \<Longrightarrow> has_len (setitem d c v) c' n = has_len d c' n"
  by (simp add: has_len_def map_of_setitem)

lemma m_step_blocks_sbayes_total:
  assumes "distinct (map fst bl)"
    "\<And>c n. (c, n) \<in> set bl \<Longrightarrow> block_arrays_ok s c n \<and> block_inputs_ok_sbayes s c n"
  shows "\<exists>r. m_step_blocks_sbayes adj bl (s, a, b) = Inr r"
  using assms
proof (induction bl arbitrary: s a b)
  case Nil
  then show ?case by simp
next
  case (Cons blk bl)
  obtain c n where blk: "blk = (c, n)" by (cases blk)
  from Cons.prems(2)[of c n] blk have ok: "block_arrays_ok s c n" "block_inputs_ok_sbayes s c n"
    by simp_all
  from m_step_block_sbayes_total[OF ok, of adj a b] obtain se' a' b' where
    st: "m_step_block_sbayes adj c (s, a, b)
            = Inr (s\<lparr>sig_e_snp := setitem (sig_e_snp s) c se'\<rparr>, a', b')"
    by blast
  let ?s1 = "s\<lparr>sig_e_snp := setitem (sig_e_snp s) c se'\<rparr>"
  from Cons.prems(1) blk have d: "distinct (map fst bl)" and nc: "c \<notin> fst ` set bl" by simp_all
  have oks: "block_arrays_ok ?s1 c' n' \<and> block_inputs_ok_sbayes ?s1 c' n'" if "(c', n') \<in> set bl" for c' n'
  proof -
    from that nc have ne: "c' \<noteq> c" by force
    from Cons.prems(2)[of c' n'] that have "block_arrays_ok s c' n'" "block_inputs_ok_sbayes s c' n'"
      by simp_all
    with ne show ?thesis
      by (simp add: block_arrays_ok_def block_inputs_ok_sbayes_def has_len_setitem_other)
  qed
  from Cons.IH[OF d oks, of a' b'] obtain r where "m_step_blocks_sbayes adj bl (?s1, a', b') = Inr r"
    by blast
  with st have "m_step_blocks_sbayes adj ((c, n) # bl) (s, a, b) = Inr r" by simp
  then show ?case unfolding blk by (rule exI)
qed

lemma m_step_pi_sbayes_total:
  assumes "M s \<noteq> 0" "history s ''pi'' = Some h"
  shows "\<exists>p. m_step_pi_sbayes s = Inr (s\<lparr>pi_par := p, history := (history s)(''pi'' \<mapsto> h @ [p])\<rparr>)"
proof (cases "''pi'' \<in> dom (fix_params s)")
  case True
  with assms have "m_step_pi_sbayes s = Inr (s\<lparr>pi_par := pi_par s, history := (history s)(''pi'' \<mapsto> h @ [pi_par s])\<rparr>)"
    by (simp add: m_step_pi_sbayes_def history_append_def lookup_def)
  then show ?thesis by blast
next
  case False
  let ?p = "np_clip (var_gamma_sum s / real (M s)) (1 / real (M s)) (Some 1)"
  from False assms have "m_step_pi_sbayes s
      = Inr (s\<lparr>pi_par := ?p, history := (history s)(''pi'' \<mapsto> h @ [?p])\<rparr>)"
    by (simp add: m_step_pi_sbayes_def history_append_def lookup_def)
  then show ?thesis by blast
qed

lemma m_step_sigma_beta_sbayes_total:
  assumes "sigma_beta_numerator s = Inr r" "vgs \<noteq> 0" "sigma_epsilon s \<noteq> 0"
    "history s ''sigma_beta'' = Some h" "1 / 10 ^ 12 \<le> sigma_beta s"
  shows "\<exists>b. m_step_sigma_beta_sbayes vgs s
              = Inr (s\<lparr>sigma_beta := b, history := (history s)(''sigma_beta'' \<mapsto> h @ [b])\<rparr>)
            \<and> 1 / 10 ^ 12 \<le> b"
proof (cases "''sigma_beta'' \<in> dom (fix_params s)")
  case True
  with assms have "m_step_sigma_beta_sbayes vgs s
       = Inr (s\<lparr>sigma_beta := sigma_beta s, history := (history s)(''sigma_beta'' \<mapsto> h @ [sigma_beta s])\<rparr>)"
    by (simp add: m_step_sigma_beta_sbayes_def history_append_def lookup_def)
  with assms(5) show ?thesis by blast
next
  case False
  define x where "x = (if scale_prior s then r / vgs / sigma_epsilon s else r / vgs)"
  from False assms have "m_step_sigma_beta_sbayes vgs s
       = Inr (s\<lparr>sigma_beta := np_clip x (1 / 10 ^ 12) None,
                history := (history s)(''sigma_beta'' \<mapsto> h @ [np_clip x (1 / 10 ^ 12) None])\<rparr>)"
    by (simp add: m_step_sigma_beta_sbayes_def history_append_def lookup_def Let_def x_def)
  with np_clip_lower[of "1 / 10 ^ 12" x] show ?thesis by blast
qed

lemma m_step_sbayes_total:
  assumes "valid_m_step_sbayes s"
  shows "\<exists>s'. m_step_sbayes s = Inr s'"
proof -
  from assms have v: "valid_m_step s"
    and ins: "\<And>c n. (c, n) \<in> set (shapes s) \<Longrightarrow> block_inputs_ok_sbayes s c n"
    unfolding valid_m_step_sbayes_def list_all_iff by auto
  from v have oks: "\<And>c n. (c, n) \<in> set (shapes s) \<Longrightarrow> block_arrays_ok s c n"
    unfolding valid_m_step_def list_all_iff by auto
  from v obtain hp hb he where h: "history s ''pi'' = Some hp" "history s ''sigma_beta'' = Some hb"
    "history s ''sigma_epsilon'' = Some he"
    unfolding valid_m_step_def by auto
  from v have n0: "0 < N s" "0 < M s" "0 < var_gamma_sum s" "1 / 10 ^ 12 \<le> sigma_beta s"
    "1 / 10 ^ 12 \<le> sigma_epsilon s" "distinct (map fst (shapes s))"
    unfolding valid_m_step_def by blast+
  from n0(2) have m0: "M s \<noteq> 0" by simp
  from m_step_pi_sbayes_total[OF m0 h(1)] obtain p where
    1: "m_step_pi_sbayes s = Inr (s\<lparr>pi_par := p, history := (history s)(''pi'' \<mapsto> hp @ [p])\<rparr>)"
    by blast
  let ?s1 = "s\<lparr>pi_par := p, history := (history s)(''pi'' \<mapsto> hp @ [p])\<rparr>"
  from sigma_beta_numerator_total[OF v] obtain r where "sigma_beta_numerator s = Inr r" by blast
  then have num: "sigma_beta_numerator ?s1 = Inr r" by (simp add: sigma_beta_numerator_def)
  from n0(5) have se: "sigma_epsilon ?s1 \<noteq> 0" by auto
  from n0(3) have vg: "var_gamma_sum s \<noteq> 0" by simp
  have hb1: "history ?s1 ''sigma_beta'' = Some hb" using h by simp
  have sb1: "1 / 10 ^ 12 \<le> sigma_beta ?s1" using n0(4) by simp
  from m_step_sigma_beta_sbayes_total[OF num vg se hb1 sb1] obtain b where
    2: "m_step_sigma_beta_sbayes (var_gamma_sum s) ?s1
          = Inr (?s1\<lparr>sigma_beta := b, history := (history ?s1)(''sigma_beta'' \<mapsto> hb @ [b])\<rparr>)"
    and b: "1 / 10 ^ 12 \<le> b"
    by blast
  let ?s2 = "?s1\<lparr>sigma_beta := b, history := (history ?s1)(''sigma_beta'' \<mapsto> hb @ [b])\<rparr>"
  from b have "0 < b" by (rule less_le_trans[rotated]) simp
  with n0(1) have nb: "real (N ?s2) * sigma_beta ?s2 \<noteq> 0" by simp
  let ?adj = "if scale_prior ?s2 then 1 + 1 / (real (N ?s2) * sigma_beta ?s2) else 1"
  have d2: "distinct (map fst (shapes ?s2))" using n0(6) by simp
  have ok2: "block_arrays_ok ?s2 c n \<and> block_inputs_ok_sbayes ?s2 c n" if "(c, n) \<in> set (shapes ?s2)" for c n
  proof -
    from that have m: "(c, n) \<in> set (shapes s)" by simp
    from oks[OF m] ins[OF m] show ?thesis
      by (simp add: block_arrays_ok_def block_inputs_ok_sbayes_def)
  qed
  from m_step_blocks_sbayes_total[OF d2 ok2, of ?adj 0 0] obtain r3 where
    bl: "m_step_blocks_sbayes ?adj (shapes ?s2) (?s2, 0, 0) = Inr r3" by blast
  obtain s3 g0 ldp where r3: "r3 = (s3, g0, ldp)" by (cases r3)
  from m_step_blocks_sbayes_range[OF bl[unfolded r3], of "{}"] obtain X where
    s3: "s3 = ?s2\<lparr>sig_e_snp := X\<rparr>" by auto
  have res: "m_step_residuals_sbayes ?s2 = Inr (s3\<lparr>ld_prod := 2 * ldp\<rparr>, g0 + ldp)"
    unfolding m_step_residuals_sbayes_def Let_def using nb bl[unfolded r3] by simp
  let ?s4 = "s3\<lparr>ld_prod := 2 * ldp\<rparr>"
  have he4: "history ?s4 ''sigma_epsilon'' = Some he" unfolding s3 using h by simp
  have nv: "real (N ?s4) + var_gamma_sum s \<noteq> 0" unfolding s3 using n0(1,3) by simp
  have "\<exists>s'. m_step_sigma_epsilon_sbayes (var_gamma_sum s) (g0 + ldp) ?s4 = Inr s'"
    using he4 nv
    by (cases "''sigma_epsilon'' \<in> dom (fix_params ?s4)")
       (simp_all add: m_step_sigma_epsilon_sbayes_def history_append_def lookup_def Let_def)
  then obtain s' where 3: "m_step_sigma_epsilon_sbayes (var_gamma_sum s) (g0 + ldp) ?s4 = Inr s'"
    by blast
  from 1 2 res 3 show ?thesis by (simp add: m_step_sbayes_def Let_def)
qed

lemmas valid_defs = valid_m_step_opt_def valid_m_step_sbayes_def valid_m_step_def block_arrays_ok_def
  block_vec_def block_inputs_ok_sbayes_def block_ld_ok_def window_ok_def has_len_def var_gamma_sum_def

lemma upt_0_2: "[0..<2] = [0, Suc 0]"
  by (simp add: numeral_2_eq_2)

lemma valid_two_variant:
  "valid_m_step_opt two_variant_opt" "valid_m_step_sbayes two_variant_sbayes"
  "valid_m_step_sbayes small_residual_sbayes"
  by (simp_all add: valid_defs two_variant_opt_def two_variant_sbayes_def small_residual_sbayes_def
      upt_0_2)

subsection \<open>What the steps leave alone\<close>

lemma e_step_block_opt_frame:
  assumes "e_step_block_opt pv dn lp c n s = Inr s'"
  shows "\<exists>vsb qq vg vm. s' = s\<lparr>var_sigma_beta := vsb, q := qq, var_gamma := vg, var_mu_beta := vm\<rparr>"
  using assms unfolding e_step_block_opt_def Let_def
  by (auto simp: bind_res_eq_Inr split: if_splits prod.splits)

lemma e_step_blocks_opt_frame:
  "e_step_blocks_opt pv dn lp bs s = Inr s' \<Longrightarrow>
   \<exists>vsb qq vg vm. s' = s\<lparr>var_sigma_beta := vsb, q := qq, var_gamma := vg, var_mu_beta := vm\<rparr>"
proof (induction bs arbitrary: s)
  case Nil
  then have "s' = s" by simp
  then have "s' = s\<lparr>var_sigma_beta := var_sigma_beta s, q := q s, var_gamma := var_gamma s, var_mu_beta := var_mu_beta s\<rparr>"
    by simp
  then show ?case by blast
next
  case (Cons b bs)
  obtain c n where b: "b = (c, n)" by (cases b)
  from Cons.prems b obtain s1 where s1: "e_step_block_opt pv dn lp c n s = Inr s1"
    and rest: "e_step_blocks_opt pv dn lp bs s1 = Inr s'"
    by (auto simp: bind_res_eq_Inr)
  from e_step_block_opt_frame[OF s1] obtain vsb qq vg vm where
    "s1 = s\<lparr>var_sigma_beta := vsb, q := qq, var_gamma := vg, var_mu_beta := vm\<rparr>" by blast
  moreover from Cons.IH[OF rest] obtain vsb' qq' vg' vm' where
    "s' = s1\<lparr>var_sigma_beta := vsb', q := qq', var_gamma := vg', var_mu_beta := vm'\<rparr>" by blast
  ultimately have "s' = s\<lparr>var_sigma_beta := vsb', q := qq', var_gamma := vg', var_mu_beta := vm'\<rparr>"
    by simp
  then show ?case by blast
qed

lemma e_step_opt_frame:
  assumes "e_step_opt s = Inr s'"
  shows "\<exists>vsb qq vg vm. s' = s\<lparr>var_sigma_beta := vsb, q := qq, var_gamma := vg, var_mu_beta := vm\<rparr>"
  using assms unfolding e_step_opt_def Let_def
  by (auto split: if_splits dest: e_step_blocks_opt_frame)

lemma e_step_block_sbayes_frame:
  assumes "e_step_block_sbayes lp c n s = Inr s'"
  shows "\<exists>vg vsb vm. s' = s\<lparr>var_gamma := vg, var_sigma_beta := vsb, var_mu_beta := vm\<rparr>"
  using assms unfolding e_step_block_sbayes_def Let_def
  by (auto simp: bind_res_eq_Inr split: if_splits prod.splits)

lemma e_step_blocks_sbayes_frame:
  "e_step_blocks_sbayes lp bs s = Inr s' \<Longrightarrow>
   \<exists>vg vsb vm. s' = s\<lparr>var_gamma := vg, var_sigma_beta := vsb, var_mu_beta := vm\<rparr>"
proof (induction bs arbitrary: s)
  case Nil
  then have "s' = s" by simp
  then have "s' = s\<lparr>var_gamma := var_gamma s, var_sigma_beta := var_sigma_beta s, var_mu_beta := var_mu_beta s\<rparr>"
    by simp
  then show ?case by blast
next
  case (Cons b bs)
  obtain c n where b: "b = (c, n)" by (cases b)
  from Cons.prems b obtain s1 where s1: "e_step_block_sbayes lp c n s = Inr s1"
    and rest: "e_step_blocks_sbayes lp bs s1 = Inr s'"
    by (auto simp: bind_res_eq_Inr)
  from e_step_block_sbayes_frame[OF s1] obtain vg vsb vm where
    "s1 = s\<lparr>var_gamma := vg, var_sigma_beta := vsb, var_mu_beta := vm\<rparr>" by blast
  moreover from Cons.IH[OF rest] obtain vg' vsb' vm' where
    "s' = s1\<lparr>var_gamma := vg', var_sigma_beta := vsb', var_mu_beta := vm'\<rparr>" by blast
  ultimately have "s' = s\<lparr>var_gamma := vg', var_sigma_beta := vsb', var_mu_beta := vm'\<rparr>"
    by simp
  then show ?case by blast
qed

lemma e_step_sbayes_frame:
  assumes "e_step_sbayes s = Inr s'"
  shows "\<exists>vg vsb vm. s' = s\<lparr>var_gamma := vg, var_sigma_beta := vsb, var_mu_beta := vm\<rparr>"
  using assms unfolding e_step_sbayes_def
  by (auto split: if_splits dest: e_step_blocks_sbayes_frame)

lemma objective_Inr:
  assumes "objective ld_term s = Inr (elbo, s')"
  shows "\<exists>h. history s ''ELBO'' = Some h \<and> s' = s\<lparr>history := (history s)(''ELBO'' \<mapsto> h @ [elbo])\<rparr>"
  using assms unfolding objective_def Let_def
  by (auto simp: bind_res_eq_Inr history_append_eq_Inr split: if_splits prod.splits)

lemma get_heritability_Inr:
  assumes "get_heritability ld_term tot s = Inr (h2g, s')"
  shows "\<exists>h. history s ''heritability'' = Some h
           \<and> s' = s\<lparr>history := (history s)(''heritability'' \<mapsto> h @ [h2g])\<rparr>"
  using assms unfolding get_heritability_def Let_def
  by (auto simp: bind_res_eq_Inr history_append_eq_Inr split: if_splits prod.splits)

lemma iteration_opt_effect:
  assumes "iteration_opt s = Inr s'"
  shows "iteration_effect s s'"
proof -
  from assms obtain s1 s2 elbo s3 h2g where
    e: "e_step_opt s = Inr s1" and m: "m_step_opt s1 = Inr s2"
    and o: "objective_opt s2 = Inr (elbo, s3)" and h: "get_heritability_opt s3 = Inr (h2g, s')"
    unfolding iteration_opt_def by (auto simp: bind_res_eq_Inr split: prod.splits)
  from e_step_opt_frame[OF e] obtain vsb qq vg vm where
    s1: "s1 = s\<lparr>var_sigma_beta := vsb, q := qq, var_gamma := vg, var_mu_beta := vm\<rparr>" by blast
  from objective_Inr[OF o[unfolded objective_opt_def]] obtain hl where
    hl: "history s2 ''ELBO'' = Some hl"
    and s3: "s3 = s2\<lparr>history := (history s2)(''ELBO'' \<mapsto> hl @ [elbo])\<rparr>" by blast
  from get_heritability_Inr[OF h[unfolded get_heritability_opt_def]] obtain hh where
    hh: "history s3 ''heritability'' = Some hh"
    and s4: "s' = s3\<lparr>history := (history s3)(''heritability'' \<mapsto> hh @ [h2g])\<rparr>" by blast
  from m show ?thesis
  proof (rule m_step_opt_Inr)
    fix p b e hp hb he
    assume hist: "history s1 ''pi'' = Some hp" "history s1 ''sigma_beta'' = Some hb"
        "history s1 ''sigma_epsilon'' = Some he"
      and s2: "s2 = s1\<lparr>pi_par := p, sigma_beta := b, sigma_epsilon := e,
                 history := (history s1)(''pi'' \<mapsto> hp @ [p], ''sigma_beta'' \<mapsto> hb @ [b],
                                        ''sigma_epsilon'' \<mapsto> he @ [e])\<rparr>"
      and fx: "''pi'' \<in> dom (fix_params s1) \<Longrightarrow> p = pi_par s1"
         "''sigma_beta'' \<in> dom (fix_params s1) \<Longrightarrow> b = sigma_beta s1"
         "''sigma_epsilon'' \<in> dom (fix_params s1) \<Longrightarrow> e = sigma_epsilon s1"
    have sel: "fix_params s' = fix_params s" "pi_par s' = p" "sigma_beta s' = b" "sigma_epsilon s' = e"
      unfolding s4 s3 s2 s1 by simp_all
    have h0: "history s ''pi'' = Some hp" "history s ''sigma_beta'' = Some hb"
      "history s ''sigma_epsilon'' = Some he" "history s ''ELBO'' = Some hl"
      "history s ''heritability'' = Some hh"
      using hist hl hh unfolding s3 s2 s1 by simp_all
    have hs: "history s' = (history s)
               (''pi'' \<mapsto> hp @ [p], ''sigma_beta'' \<mapsto> hb @ [b],
                ''sigma_epsilon'' \<mapsto> he @ [e], ''ELBO'' \<mapsto> hl @ [elbo],
                ''heritability'' \<mapsto> hh @ [h2g])"
      unfolding s4 s3 s2 s1 by simp
    have fx': "''pi'' \<in> dom (fix_params s) \<longrightarrow> p = pi_par s"
         "''sigma_beta'' \<in> dom (fix_params s) \<longrightarrow> b = sigma_beta s"
         "''sigma_epsilon'' \<in> dom (fix_params s) \<longrightarrow> e = sigma_epsilon s"
      using fx unfolding s1 by simp_all
    show ?thesis
      unfolding iteration_effect_def sel using fx' h0 hs by blast
  qed
qed

lemma iteration_sbayes_effect:
  assumes "iteration_sbayes s = Inr s'"
  shows "iteration_effect s s'"
proof -
  from assms obtain s1 s2 elbo s3 h2g where
    e: "e_step_sbayes s = Inr s1" and m: "m_step_sbayes s1 = Inr s2"
    and o: "objective_sbayes s2 = Inr (elbo, s3)" and h: "get_heritability_sbayes s3 = Inr (h2g, s')"
    unfolding iteration_sbayes_def by (auto simp: bind_res_eq_Inr split: prod.splits)
  from e_step_sbayes_frame[OF e] obtain vg vsb vm where
    s1: "s1 = s\<lparr>var_gamma := vg, var_sigma_beta := vsb, var_mu_beta := vm\<rparr>" by blast
  from objective_Inr[OF o[unfolded objective_sbayes_def]] obtain hl where
    hl: "history s2 ''ELBO'' = Some hl"
    and s3: "s3 = s2\<lparr>history := (history s2)(''ELBO'' \<mapsto> hl @ [elbo])\<rparr>" by blast
  from get_heritability_Inr[OF h[unfolded get_heritability_sbayes_def]] obtain hh where
    hh: "history s3 ''heritability'' = Some hh"
    and s4: "s' = s3\<lparr>history := (history s3)(''heritability'' \<mapsto> hh @ [h2g])\<rparr>" by blast
  from m show ?thesis
  proof (rule m_step_sbayes_Inr)
    fix p b e hp hb he sx g0 ldp
    assume hist: "history s1 ''pi'' = Some hp" "history s1 ''sigma_beta'' = Some hb"
        "history s1 ''sigma_epsilon'' = Some he"
      and blocks: "m_step_blocks_sbayes (if scale_prior s1 then 1 + 1 / (real (N s1) * b) else 1) (shapes s1)
           (s1\<lparr>pi_par := p, sigma_beta := b,
               history := (history s1)(''pi'' \<mapsto> hp @ [p], ''sigma_beta'' \<mapsto> hb @ [b])\<rparr>, 0, 0)
         = Inr (sx, g0, ldp)"
      and s2: "s2 = sx\<lparr>sigma_epsilon := e,
                  history := (history s1)(''pi'' \<mapsto> hp @ [p], ''sigma_beta'' \<mapsto> hb @ [b],
                                         ''sigma_epsilon'' \<mapsto> he @ [e]),
                  ld_prod := 2 * ldp\<rparr>"
      and fx: "''pi'' \<in> dom (fix_params s1) \<Longrightarrow> p = pi_par s1"
         "''sigma_beta'' \<in> dom (fix_params s1) \<Longrightarrow> b = sigma_beta s1"
         "''sigma_epsilon'' \<in> dom (fix_params s1) \<Longrightarrow> e = sigma_epsilon s1"
    from m_step_blocks_sbayes_range[OF blocks, of "{}"] obtain X where
      sx: "sx = s1\<lparr>pi_par := p, sigma_beta := b,
               history := (history s1)(''pi'' \<mapsto> hp @ [p], ''sigma_beta'' \<mapsto> hb @ [b]),
               sig_e_snp := X\<rparr>"
      by auto
    have sel: "fix_params s' = fix_params s" "pi_par s' = p" "sigma_beta s' = b" "sigma_epsilon s' = e"
      unfolding s4 s3 s2 sx s1 by simp_all
    have h0: "history s ''pi'' = Some hp" "history s ''sigma_beta'' = Some hb"
      "history s ''sigma_epsilon'' = Some he" "history s ''ELBO'' = Some hl"
      "history s ''heritability'' = Some hh"
      using hist hl hh unfolding s3 s2 sx s1 by simp_all
    have hs: "history s' = (history s)
               (''pi'' \<mapsto> hp @ [p], ''sigma_beta'' \<mapsto> hb @ [b],
                ''sigma_epsilon'' \<mapsto> he @ [e], ''ELBO'' \<mapsto> hl @ [elbo],
                ''heritability'' \<mapsto> hh @ [h2g])"
      unfolding s4 s3 s2 sx s1 by simp
    have fx': "''pi'' \<in> dom (fix_params s) \<longrightarrow> p = pi_par s"
         "''sigma_beta'' \<in> dom (fix_params s) \<longrightarrow> b = sigma_beta s"
         "''sigma_epsilon'' \<in> dom (fix_params s) \<longrightarrow> e = sigma_epsilon s"
      using fx unfolding s1 by simp_all
    show ?thesis
      unfolding iteration_effect_def sel using fx' h0 hs by blast
  qed
qed

subsection \<open>The fit loop\<close>

lemma iteration_effect_history:
  assumes "iteration_effect s s'" "k \<in> {''pi'', ''sigma_beta'', ''sigma_epsilon'', ''ELBO'', ''heritability''}"
  shows "\<exists>h v. history s k = Some h \<and> history s' k = Some (h @ [v])"
  using assms unfolding iteration_effect_def by auto

lemma iteration_effect_param:
  assumes "iteration_effect s s'" "fix_params s name = Some v"
    "name \<in> {''pi'', ''sigma_beta'', ''sigma_epsilon''}"
  shows "param name s' = param name s \<and> fix_params s' name = Some v"
  using assms unfolding iteration_effect_def param_def by auto

lemma iterate_fixed:
  assumes step: "\<And>s s'. f s = Inr s' \<Longrightarrow> iteration_effect s s'"
    and "iterate f k s = Inr s'" "fix_params s name = Some v"
    "name \<in> {''pi'', ''sigma_beta'', ''sigma_epsilon''}"
  shows "param name s' = param name s \<and> fix_params s' name = Some v"
  using assms(2,3)
proof (induction k arbitrary: s)
  case 0
  then show ?case by simp
next
  case (Suc k)
  from Suc.prems(1) obtain s1 where s1: "f s = Inr s1" and r: "iterate f k s1 = Inr s'"
    by (auto simp: bind_res_eq_Inr)
  from iteration_effect_param[OF step[OF s1] Suc.prems(2) assms(4)]
  have "param name s1 = param name s" "fix_params s1 name = Some v" by simp_all
  with Suc.IH[OF r] show ?case by simp
qed

lemma iterate_history:
  assumes step: "\<And>s s'. f s = Inr s' \<Longrightarrow> iteration_effect s s'"
    and "iterate f k s = Inr s'" "history s key = Some h"
    "key \<in> {''pi'', ''sigma_beta'', ''sigma_epsilon'', ''ELBO'', ''heritability''}"
  shows "\<exists>new. history s' key = Some (h @ new) \<and> length new = k"
  using assms(2,3)
proof (induction k arbitrary: s h)
  case 0
  then show ?case by simp
next
  case (Suc k)
  from Suc.prems(1) obtain s1 where s1: "f s = Inr s1" and r: "iterate f k s1 = Inr s'"
    by (auto simp: bind_res_eq_Inr)
  from iteration_effect_history[OF step[OF s1] assms(4)] Suc.prems(2)
  obtain v where "history s1 key = Some (h @ [v])" by auto
  from Suc.IH[OF r this] obtain new where "history s' key = Some ((h @ [v]) @ new)" "length new = k"
    by blast
  then have "history s' key = Some (h @ (v # new))" "length (v # new) = Suc k" by simp_all
  then show ?case by blast
qed

lemma check_elbo_count:
  assumes "check_elbo i tol med hist cnt = Inr (cnt', msgs, stop)"
  shows "cnt \<le> cnt' \<and> cnt' \<le> cnt + 1 \<and> (\<not> stop \<longrightarrow> i > 1 \<longrightarrow> cnt' \<le> med)"
  using assms unfolding check_elbo_def Let_def
  by (auto simp: bind_res_eq_Inr split: if_splits)

declare fit_loop.simps [simp del]

lemma fit_loop_iterate:
  assumes "fit_loop f mi tol med i cnt out s = Inr (s', i', cnt', out')" "i \<le> Suc mi"
  shows "iterate f (Suc i' - i) s = Inr s' \<and> i \<le> Suc i' \<and> i' \<le> mi"
  using assms
proof (induction f mi tol med i cnt out s rule: fit_loop.induct)
  case (1 f mi tol med i cnt out s)
  show ?case
  proof (cases "i > mi")
    case True
    with "1.prems" have "s' = s" "i' = i - 1" by (simp_all add: fit_loop.simps[of f mi tol med i cnt out s])
    with True "1.prems"(2) show ?thesis by auto
  next
    case False
    with "1.prems"(1) obtain s1 c m st where s1: "f s = Inr s1"
      and ch: "check_elbo i tol med (history s1) cnt = Inr (c, m, st)"
      and rest: "(if st then Inr (s1, i, c, out @ m)
                  else fit_loop f mi tol med (Suc i) c (out @ m) s1) = Inr (s', i', cnt', out')"
      by (simp add: fit_loop.simps[of f mi tol med i cnt out s] split: sum.splits prod.splits)
    show ?thesis
    proof (cases st)
      case True
      with rest have "s' = s1" "i' = i" by simp_all
      with s1 False show ?thesis by simp
    next
      case False': False
      with rest have r: "fit_loop f mi tol med (Suc i) c (out @ m) s1 = Inr (s', i', cnt', out')" by simp
      from False have le: "Suc i \<le> Suc mi" by simp
      from "1.IH"[OF False s1 ch refl refl False' r le]
      have ih: "iterate f (Suc i' - Suc i) s1 = Inr s'" "Suc i \<le> Suc i'" "i' \<le> mi" by simp_all
      from ih(2) have "Suc i' - i = Suc (Suc i' - Suc i)" by arith
      with s1 ih show ?thesis by simp
    qed
  qed
qed

lemma fit_loop_lower:
  assumes "fit_loop f mi tol med i cnt out s = Inr (s', i', cnt', out')" "i \<le> mi"
  shows "i \<le> i'"
  using assms
proof (induction f mi tol med i cnt out s rule: fit_loop.induct)
  case (1 f mi tol med i cnt out s)
  from "1.prems" have nle: "\<not> i > mi" by simp
  with "1.prems"(1) obtain s1 c m st where s1: "f s = Inr s1"
    and ch: "check_elbo i tol med (history s1) cnt = Inr (c, m, st)"
    and rest: "(if st then Inr (s1, i, c, out @ m)
                else fit_loop f mi tol med (Suc i) c (out @ m) s1) = Inr (s', i', cnt', out')"
    by (simp add: fit_loop.simps[of f mi tol med i cnt out s] split: sum.splits prod.splits)
  show ?case
  proof (cases st)
    case True
    with rest show ?thesis by simp
  next
    case False
    with rest have r: "fit_loop f mi tol med (Suc i) c (out @ m) s1 = Inr (s', i', cnt', out')" by simp
    from fit_loop_iterate[OF r] nle have "Suc i \<le> Suc i'" by simp
    then show ?thesis by simp
  qed
qed

lemma fit_Inr:
  assumes "fit init f mi continued tol med (s, g) = Inr (s', g', i, out)"
  shows "\<exists>s0 s1 ib. (if continued then s0 = s \<and> g' = g else init (s, g) = Inr (s0, g'))
           \<and> iterate f i s0 = Inr s1 \<and> 1 \<le> i \<and> i \<le> mi
           \<and> s' = s1\<lparr>pip := var_gamma s1, inf_beta := ib\<rparr>"
proof -
  from assms[unfolded fit_def bind_res_eq_Inr] obtain x where
    i0: "(if \<not> continued then init (s, g) else Inr (s, g)) = Inr x"
    and rest: "(case x of (s0, g0) \<Rightarrow>
       bind_res (fit_loop f mi tol med 1 0 [] s0) (\<lambda>(s1, i, cnt, out).
           if mi = 0 then Inl UnboundLocalError
           else
             let out = (if i = mi then out @ [MaxIterReached] else out) in
             bind_res (inf_beta_of (var_gamma s1) (var_mu_beta s1)) (\<lambda>ib.
               Inr (s1\<lparr>pip := var_gamma s1, inf_beta := ib\<rparr>, g0, i, out)))) = Inr (s', g', i, out)"
    by blast
  obtain s0 g0 where x: "x = (s0, g0)" by (cases x)
  from rest[unfolded x prod.case bind_res_eq_Inr] obtain y where
    loop0: "fit_loop f mi tol med 1 0 [] s0 = Inr y"
    and fin0: "(case y of (s1, i, cnt, out) \<Rightarrow>
           if mi = 0 then Inl UnboundLocalError
           else
             let out = (if i = mi then out @ [MaxIterReached] else out) in
             bind_res (inf_beta_of (var_gamma s1) (var_mu_beta s1)) (\<lambda>ib.
               Inr (s1\<lparr>pip := var_gamma s1, inf_beta := ib\<rparr>, g0, i, out))) = Inr (s', g', i, out)"
    by blast
  obtain s1 i1 cnt1 out1 where y: "y = (s1, i1, cnt1, out1)" by (cases y)
  from fin0[unfolded y] have mi: "mi \<noteq> 0" by (auto split: if_splits)
  with fin0[unfolded y] have "bind_res (inf_beta_of (var_gamma s1) (var_mu_beta s1)) (\<lambda>ib.
       Inr (s1\<lparr>pip := var_gamma s1, inf_beta := ib\<rparr>, g0, i1,
            if i1 = mi then out1 @ [MaxIterReached] else out1)) = Inr (s', g', i, out)"
    by (simp add: Let_def)
  then obtain ib where fin: "s' = s1\<lparr>pip := var_gamma s1, inf_beta := ib\<rparr>" "g' = g0" "i = i1"
    unfolding bind_res_eq_Inr by auto
  from mi have "1 \<le> mi" "1 \<le> Suc mi" by simp_all
  from fit_loop_iterate[OF loop0[unfolded y] \<open>1 \<le> Suc mi\<close>] fit_loop_lower[OF loop0[unfolded y] \<open>1 \<le> mi\<close>]
  have it: "iterate f i s0 = Inr s1" "1 \<le> i" "i \<le> mi" unfolding fin by simp_all
  have init: "if continued then s0 = s \<and> g' = g else init (s, g) = Inr (s0, g')"
    using i0 unfolding x fin by (cases continued) simp_all
  show ?thesis
    by (rule exI[of _ s0], rule exI[of _ s1], rule exI[of _ ib]) (use it init fin in simp)
qed

subsection \<open>Initialization and fit, pinned parameters and histories\<close>

lemma init_var_block_frame:
  assumes "init_var_block c n (s, g) = Inr (s', g')"
  shows "\<exists>vg vm vs. s' = s\<lparr>var_gamma := vg, var_mu_beta := vm, var_sigma_beta := vs\<rparr>"
  using assms unfolding init_var_block_def
  by (auto split: prod.splits if_splits)

lemma init_var_blocks_opt_frame:
  "init_var_blocks_opt bs (s, g) = Inr (s', g') \<Longrightarrow>
   \<exists>vg vm vs qq. s' = s\<lparr>var_gamma := vg, var_mu_beta := vm, var_sigma_beta := vs, q := qq\<rparr>"
proof (induction bs arbitrary: s g)
  case Nil
  then have "s' = s\<lparr>var_gamma := var_gamma s, var_mu_beta := var_mu_beta s,
                     var_sigma_beta := var_sigma_beta s, q := q s\<rparr>" by simp
  then show ?case by blast
next
  case (Cons b bs)
  obtain c n where b: "b = (c, n)" by (cases b)
  from Cons.prems b obtain s1 g1 where
    1: "init_var_block c n (s\<lparr>q := setitem (q s) c (replicate n 0)\<rparr>, g) = Inr (s1, g1)"
    and r: "init_var_blocks_opt bs (s1, g1) = Inr (s', g')"
    by (auto simp: bind_res_eq_Inr)
  from init_var_block_frame[OF 1] obtain vg vm vs where
    "s1 = s\<lparr>q := setitem (q s) c (replicate n 0), var_gamma := vg, var_mu_beta := vm, var_sigma_beta := vs\<rparr>"
    by auto
  moreover from Cons.IH[OF r] obtain vg' vm' vs' qq' where
    "s' = s1\<lparr>var_gamma := vg', var_mu_beta := vm', var_sigma_beta := vs', q := qq'\<rparr>" by blast
  ultimately have "s' = s\<lparr>var_gamma := vg', var_mu_beta := vm', var_sigma_beta := vs', q := qq'\<rparr>"
    by simp
  then show ?case by blast
qed

lemma init_var_blocks_sbayes_frame:
  "init_var_blocks_sbayes bs (s, g) = Inr (s', g') \<Longrightarrow>
   \<exists>vg vm vs. s' = s\<lparr>var_gamma := vg, var_mu_beta := vm, var_sigma_beta := vs\<rparr>"
proof (induction bs arbitrary: s g)
  case Nil
  then have "s' = s\<lparr>var_gamma := var_gamma s, var_mu_beta := var_mu_beta s,
                     var_sigma_beta := var_sigma_beta s\<rparr>" by simp
  then show ?case by blast
next
  case (Cons b bs)
  obtain c n where b: "b = (c, n)" by (cases b)
  from Cons.prems b obtain s1 g1 where
    1: "init_var_block c n (s, g) = Inr (s1, g1)"
    and r: "init_var_blocks_sbayes bs (s1, g1) = Inr (s', g')"
    by (auto simp: bind_res_eq_Inr)
  from init_var_block_frame[OF 1] obtain vg vm vs where
    "s1 = s\<lparr>var_gamma := vg, var_mu_beta := vm, var_sigma_beta := vs\<rparr>"
    by auto
  moreover from Cons.IH[OF r] obtain vg' vm' vs' where
    "s' = s1\<lparr>var_gamma := vg', var_mu_beta := vm', var_sigma_beta := vs'\<rparr>" by blast
  ultimately have "s' = s\<lparr>var_gamma := vg', var_mu_beta := vm', var_sigma_beta := vs'\<rparr>"
    by simp
  then show ?case by blast
qed

lemma initialize_opt_effect:
  assumes "initialize_opt (s, g) = Inr (s0, g0)"
  shows "initialize_effect s s0"
proof -
  from initialize_opt_Inr[OF assms] obtain s1 g1 s2 where
    v: "initialize_variational_params_opt (s\<lparr>beta_hat := gdl_beta_hats s\<rparr>, g) = Inr (s1, g1)"
    and t: "initialize_theta_opt (s1, g1) = Inr (s2, g0)" and h: "s0 = init_history s2" by blast
  from v have "init_var_blocks_opt (shapes s)
          (s\<lparr>beta_hat := gdl_beta_hats s, var_mu_beta := [], var_sigma_beta := [], var_gamma := []\<rparr>, g)
          = Inr (s1, g1)"
    by (simp add: initialize_variational_params_opt_def)
  from init_var_blocks_opt_frame[OF this] have f1: "fix_params s1 = fix_params s" by auto
  from initialize_theta_opt_Inr[OF t] obtain b e p where
    s2: "s2 = s1\<lparr>sigma_beta := b, sigma_epsilon := e, pi_par := p\<rparr>"
    and fx: "\<forall>v. fix_params s1 ''sigma_beta'' = Some v \<longrightarrow> b = v"
       "\<forall>v. fix_params s1 ''sigma_epsilon'' = Some v \<longrightarrow> e = v"
       "\<forall>v. fix_params s1 ''pi'' = Some v \<longrightarrow> p = v"
    by blast
  have sel: "fix_params s0 = fix_params s" "pi_par s0 = p" "sigma_beta s0 = b" "sigma_epsilon s0 = e"
    "history s0 = [''ELBO'' \<mapsto> [], ''pi'' \<mapsto> [], ''sigma_beta'' \<mapsto> [],
                        ''sigma_epsilon'' \<mapsto> [], ''heritability'' \<mapsto> []]"
    unfolding h s2 init_history_def using f1 by simp_all
  show ?thesis unfolding initialize_effect_def sel using fx unfolding f1 by blast
qed

lemma initialize_sbayes_effect:
  assumes "initialize_sbayes (s, g) = Inr (s0, g0)"
  shows "initialize_effect s s0"
proof -
  from initialize_sbayes_Inr[OF assms] obtain s1 g1 s2 where
    v: "initialize_variational_params_sbayes (s\<lparr>beta_hat := gdl_beta_hats s\<rparr>, g) = Inr (s1, g1)"
    and t: "initialize_theta_sbayes (s1, g1) = Inr (s2, g0)" and h: "s0 = init_history s2" by blast
  from v have "init_var_blocks_sbayes (shapes s)
          (s\<lparr>beta_hat := gdl_beta_hats s, var_mu_beta := [], var_sigma_beta := [], var_gamma := []\<rparr>, g)
          = Inr (s1, g1)"
    by (simp add: initialize_variational_params_sbayes_def)
  from init_var_blocks_sbayes_frame[OF this] have f1: "fix_params s1 = fix_params s" by auto
  from initialize_theta_sbayes_Inr[OF t] obtain b e p where
    s2: "s2 = s1\<lparr>sigma_beta := b, sigma_epsilon := e,
                 sig_e_snp := map (\<lambda>(c, c_size). (c, replicate c_size e)) (shapes s1),
                 pi_par := p\<rparr>"
    and fx: "\<forall>v. fix_params s1 ''sigma_beta'' = Some v \<longrightarrow> b = v"
       "\<forall>v. fix_params s1 ''sigma_epsilon'' = Some v \<longrightarrow> e = v"
       "\<forall>v. fix_params s1 ''pi'' = Some v \<longrightarrow> p = v"
    by blast
  have sel: "fix_params s0 = fix_params s" "pi_par s0 = p" "sigma_beta s0 = b" "sigma_epsilon s0 = e"
    "history s0 = [''ELBO'' \<mapsto> [], ''pi'' \<mapsto> [], ''sigma_beta'' \<mapsto> [],
                        ''sigma_epsilon'' \<mapsto> [], ''heritability'' \<mapsto> []]"
    unfolding h s2 init_history_def using f1 by simp_all
  show ?thesis unfolding initialize_effect_def sel using fx unfolding f1 by blast
qed

lemma initialize_effect_param:
  assumes "initialize_effect s s0" "fix_params s name = Some v"
    "name \<in> {''pi'', ''sigma_beta'', ''sigma_epsilon''}"
  shows "param name s0 = v \<and> fix_params s0 name = Some v"
  using assms unfolding param_def initialize_effect_def by auto

lemma fit_fixed:
  assumes init: "\<And>s g s0 g0. init (s, g) = Inr (s0, g0) \<Longrightarrow> initialize_effect s s0"
    and step: "\<And>s s'. f s = Inr s' \<Longrightarrow> iteration_effect s s'"
    and run: "fit init f mi continued tol med (s, g) = Inr (s', g', i, out)"
    and fx: "fix_params s name = Some v" "name \<in> {''pi'', ''sigma_beta'', ''sigma_epsilon''}"
  shows "param name s' = (if continued then param name s else v)"
proof -
  from fit_Inr[OF run] obtain s0 s1 ib where
    i0: "if continued then s0 = s \<and> g' = g else init (s, g) = Inr (s0, g')"
    and it: "iterate f i s0 = Inr s1"
    and s': "s' = s1\<lparr>pip := var_gamma s1, inf_beta := ib\<rparr>" by blast
  have p0: "param name s0 = (if continued then param name s else v) \<and> fix_params s0 name = Some v"
  proof (cases continued)
    case True
    with i0 fx show ?thesis by simp
  next
    case False
    with i0 have "init (s, g) = Inr (s0, g')" by simp
    from initialize_effect_param[OF init[OF this] fx] False show ?thesis by simp
  qed
  from iterate_fixed[OF step it _ fx(2)] p0 have "param name s1 = param name s0" by blast
  moreover have "param name s' = param name s1" unfolding s' param_def by simp
  ultimately show ?thesis using p0 by simp
qed

lemma fit_history:
  assumes init: "\<And>s g s0 g0. init (s, g) = Inr (s0, g0) \<Longrightarrow> initialize_effect s s0"
    and step: "\<And>s s'. f s = Inr s' \<Longrightarrow> iteration_effect s s'"
    and run: "fit init f mi False tol med (s, g) = Inr (s', g', i, out)"
    and key: "key \<in> {''pi'', ''sigma_beta'', ''sigma_epsilon'', ''ELBO'', ''heritability''}"
  shows "\<exists>h. history s' key = Some h \<and> length h = i"
proof -
  from fit_Inr[OF run] obtain s0 s1 ib where
    i0: "init (s, g) = Inr (s0, g')"
    and it: "iterate f i s0 = Inr s1"
    and s': "s' = s1\<lparr>pip := var_gamma s1, inf_beta := ib\<rparr>" by auto
  from init[OF i0] key have "history s0 key = Some []"
    unfolding initialize_effect_def by auto
  from iterate_history[OF step it this key] obtain new where
    "history s1 key = Some ([] @ new)" "length new = i" by blast
  then show ?thesis unfolding s' by simp
qed

lemma m_step_opt_fixed:
  assumes "m_step_opt u = Inr u1" "name \<in> dom (fix_params u)"
    "name \<in> {''pi'', ''sigma_beta'', ''sigma_epsilon''}"
  shows "param name u1 = param name u"
  using assms(1)
proof (rule m_step_opt_Inr)
  fix p b e hp hb he
  assume u1: "u1 = u\<lparr>pi_par := p, sigma_beta := b, sigma_epsilon := e,
                 history := (history u)(''pi'' \<mapsto> hp @ [p], ''sigma_beta'' \<mapsto> hb @ [b],
                                        ''sigma_epsilon'' \<mapsto> he @ [e])\<rparr>"
    and fx: "''pi'' \<in> dom (fix_params u) \<Longrightarrow> p = pi_par u"
       "''sigma_beta'' \<in> dom (fix_params u) \<Longrightarrow> b = sigma_beta u"
       "''sigma_epsilon'' \<in> dom (fix_params u) \<Longrightarrow> e = sigma_epsilon u"
  have sel: "pi_par u1 = p" "sigma_beta u1 = b" "sigma_epsilon u1 = e" unfolding u1 by simp_all
  from assms(2,3) fx show ?thesis unfolding param_def sel by auto
qed

lemma m_step_sbayes_fixed:
  assumes "m_step_sbayes u = Inr u1" "name \<in> dom (fix_params u)"
    "name \<in> {''pi'', ''sigma_beta'', ''sigma_epsilon''}"
  shows "param name u1 = param name u"
  using assms(1)
proof (rule m_step_sbayes_Inr)
  fix p b e hp hb he s3 g0 ldp
  assume blocks: "m_step_blocks_sbayes (if scale_prior u then 1 + 1 / (real (N u) * b) else 1) (shapes u)
           (u\<lparr>pi_par := p, sigma_beta := b,
               history := (history u)(''pi'' \<mapsto> hp @ [p], ''sigma_beta'' \<mapsto> hb @ [b])\<rparr>, 0, 0)
         = Inr (s3, g0, ldp)"
    and u1: "u1 = s3\<lparr>sigma_epsilon := e,
                  history := (history u)(''pi'' \<mapsto> hp @ [p], ''sigma_beta'' \<mapsto> hb @ [b],
                                         ''sigma_epsilon'' \<mapsto> he @ [e]),
                  ld_prod := 2 * ldp\<rparr>"
    and fx: "''pi'' \<in> dom (fix_params u) \<Longrightarrow> p = pi_par u"
       "''sigma_beta'' \<in> dom (fix_params u) \<Longrightarrow> b = sigma_beta u"
       "''sigma_epsilon'' \<in> dom (fix_params u) \<Longrightarrow> e = sigma_epsilon u"
  from m_step_blocks_sbayes_range[OF blocks, of "{}"] obtain X where
    s3: "s3 = u\<lparr>pi_par := p, sigma_beta := b,
               history := (history u)(''pi'' \<mapsto> hp @ [p], ''sigma_beta'' \<mapsto> hb @ [b]),
               sig_e_snp := X\<rparr>"
    by auto
  have sel: "pi_par u1 = p" "sigma_beta u1 = b" "sigma_epsilon u1 = e" unfolding u1 s3 by simp_all
  from assms(2,3) fx show ?thesis unfolding param_def sel by auto
qed

lemma m_step_opt_history:
  assumes "m_step_opt u = Inr u1"
  shows "(\<exists>hp hb he. history u ''pi'' = Some hp \<and> history u ''sigma_beta'' = Some hb
            \<and> history u ''sigma_epsilon'' = Some he
            \<and> history u1 = (history u)(''pi'' \<mapsto> hp @ [pi_par u1],
                  ''sigma_beta'' \<mapsto> hb @ [sigma_beta u1],
                  ''sigma_epsilon'' \<mapsto> he @ [sigma_epsilon u1]))
       \<and> (''pi'' \<in> dom (fix_params u) \<longrightarrow> pi_par u1 = pi_par u)
       \<and> (''sigma_beta'' \<in> dom (fix_params u) \<longrightarrow> sigma_beta u1 = sigma_beta u)
       \<and> (''sigma_epsilon'' \<in> dom (fix_params u) \<longrightarrow> sigma_epsilon u1 = sigma_epsilon u)"
  using assms
proof (rule m_step_opt_Inr)
  fix p b e hp hb he
  assume h: "history u ''pi'' = Some hp" "history u ''sigma_beta'' = Some hb"
      "history u ''sigma_epsilon'' = Some he"
    and u1: "u1 = u\<lparr>pi_par := p, sigma_beta := b, sigma_epsilon := e,
                 history := (history u)(''pi'' \<mapsto> hp @ [p], ''sigma_beta'' \<mapsto> hb @ [b],
                                        ''sigma_epsilon'' \<mapsto> he @ [e])\<rparr>"
    and fx: "''pi'' \<in> dom (fix_params u) \<Longrightarrow> p = pi_par u"
       "''sigma_beta'' \<in> dom (fix_params u) \<Longrightarrow> b = sigma_beta u"
       "''sigma_epsilon'' \<in> dom (fix_params u) \<Longrightarrow> e = sigma_epsilon u"
  have sel: "pi_par u1 = p" "sigma_beta u1 = b" "sigma_epsilon u1 = e"
    "history u1 = (history u)(''pi'' \<mapsto> hp @ [p], ''sigma_beta'' \<mapsto> hb @ [b],
                                        ''sigma_epsilon'' \<mapsto> he @ [e])"
    unfolding u1 by simp_all
  show ?thesis unfolding sel using h fx by blast
qed

lemma m_step_sbayes_history:
  assumes "m_step_sbayes u = Inr u1"
  shows "(\<exists>hp hb he. history u ''pi'' = Some hp \<and> history u ''sigma_beta'' = Some hb
            \<and> history u ''sigma_epsilon'' = Some he
            \<and> history u1 = (history u)(''pi'' \<mapsto> hp @ [pi_par u1],
                  ''sigma_beta'' \<mapsto> hb @ [sigma_beta u1],
                  ''sigma_epsilon'' \<mapsto> he @ [sigma_epsilon u1]))
       \<and> (''pi'' \<in> dom (fix_params u) \<longrightarrow> pi_par u1 = pi_par u)
       \<and> (''sigma_beta'' \<in> dom (fix_params u) \<longrightarrow> sigma_beta u1 = sigma_beta u)
       \<and> (''sigma_epsilon'' \<in> dom (fix_params u) \<longrightarrow> sigma_epsilon u1 = sigma_epsilon u)"
  using assms
proof (rule m_step_sbayes_Inr)
  fix p b e hp hb he s3 g0 ldp
  assume h: "history u ''pi'' = Some hp" "history u ''sigma_beta'' = Some hb"
      "history u ''sigma_epsilon'' = Some he"
    and blocks: "m_step_blocks_sbayes (if scale_prior u then 1 + 1 / (real (N u) * b) else 1) (shapes u)
           (u\<lparr>pi_par := p, sigma_beta := b,
               history := (history u)(''pi'' \<mapsto> hp @ [p], ''sigma_beta'' \<mapsto> hb @ [b])\<rparr>, 0, 0)
         = Inr (s3, g0, ldp)"
    and u1: "u1 = s3\<lparr>sigma_epsilon := e,
                  history := (history u)(''pi'' \<mapsto> hp @ [p], ''sigma_beta'' \<mapsto> hb @ [b],
                                         ''sigma_epsilon'' \<mapsto> he @ [e]),
                  ld_prod := 2 * ldp\<rparr>"
    and fx: "''pi'' \<in> dom (fix_params u) \<Longrightarrow> p = pi_par u"
       "''sigma_beta'' \<in> dom (fix_params u) \<Longrightarrow> b = sigma_beta u"
       "''sigma_epsilon'' \<in> dom (fix_params u) \<Longrightarrow> e = sigma_epsilon u"
  from m_step_blocks_sbayes_range[OF blocks, of "{}"] obtain X where
    s3: "s3 = u\<lparr>pi_par := p, sigma_beta := b,
               history := (history u)(''pi'' \<mapsto> hp @ [p], ''sigma_beta'' \<mapsto> hb @ [b]),
               sig_e_snp := X\<rparr>"
    by auto
  have sel: "pi_par u1 = p" "sigma_beta u1 = b" "sigma_epsilon u1 = e"
    "history u1 = (history u)(''pi'' \<mapsto> hp @ [p], ''sigma_beta'' \<mapsto> hb @ [b],
                                        ''sigma_epsilon'' \<mapsto> he @ [e])"
    unfolding u1 s3 by simp_all
  show ?thesis unfolding sel using h fx by blast
qed

lemma initialize_effect_history:
  assumes "initialize_effect s s0"
  shows "history s0 ''pi'' = Some [] \<and> history s0 ''sigma_beta'' = Some []
       \<and> history s0 ''sigma_epsilon'' = Some []"
  using assms unfolding initialize_effect_def by simp

subsection \<open>The test that closes a turn of the fit loop\<close>













subsection \<open>Runs on the samples\<close>

lemmas init_defs = initialize_opt_def initialize_sbayes_def initialize_variational_params_opt_def
        initialize_variational_params_sbayes_def init_var_block_def random_uniform_vec_def
        random_normal_vec_def random_uniform_def rng_half_def initialize_theta_opt_def initialize_theta_sbayes_def
        init_history_def

lemmas e_step_opt_defs = e_step_opt_def e_step_block_opt_def e_step_snp_opt_def slice_def
  elementwise_add_mult_def

lemmas iteration_opt_defs = iteration_opt_def e_step_opt_defs m_step_opt_def m_step_pi_opt_def
  m_step_sigma_beta_opt_def m_step_sigma_epsilon_opt_def objective_opt_def objective_def
  objective_block_def prior_var_of_def ld_term_opt_def np_log_def one_minus_def np_div_scalar_def
  np_div_one_minus_def get_heritability_opt_def get_heritability_def heritability_block_def

lemma clip_gamma: "0 < clip x (1 / 1000000) (999999 / 1000000) \<and> clip x (1 / 1000000) (999999 / 1000000) < 1"
  by (simp add: clip_def min_def max_def)

lemma clip_gamma_guards:
  "(clip x (1 / 1000000) (999999 / 1000000) \<le> 0) = False"
  "(1 \<le> clip x (1 / 1000000) (999999 / 1000000)) = False"
  "(clip x (1 / 1000000) (999999 / 1000000) = 1) = False"
  using clip_gamma[of x] by simp_all

lemma pi_guard: "(pi \<le> 0) = False"
  using pi_gt_zero by (simp add: not_le)

lemma fit_opt_one_variant_returns:
  "\<not> isl (fit_opt 2 False (1 / 10 ^ 6) 10 (one_variant_opt, rng_half))"
  using clip_gamma[of "sigmoid (ln (1 / 9) + ln (1 / 11) / 2 + 50 / 11)"]
  by (simp add: one_variant_opt_def init_defs eval_defs iteration_opt_defs fit_opt_def fit_def
      fit_loop.simps check_elbo_def divide_le_0_iff mult_le_0_iff clip_gamma_guards pi_guard)

lemmas e_step_sbayes_defs = e_step_sbayes_def e_step_block_sbayes_def e_step_snp_sbayes_def slice_def

lemmas iteration_sbayes_defs = iteration_sbayes_def e_step_sbayes_defs m_step_sbayes_defs
  objective_sbayes_def objective_def
  objective_block_def prior_var_of_def ld_term_sbayes_def np_log_def one_minus_def np_div_scalar_def
  np_div_one_minus_def get_heritability_sbayes_def get_heritability_def heritability_block_def

lemma fit_sbayes_one_variant_returns:
  "\<not> isl (fit_sbayes 1 False (1 / 10 ^ 6) 10 (one_variant_sbayes, rng_half))"
  using clip_gamma[of "sigmoid (ln (1 / 9) + ln (1 / 11) / 2 + 50 / 11)"]
  by (simp add: one_variant_sbayes_def init_defs eval_defs iteration_sbayes_defs fit_sbayes_def fit_def
      fit_loop.simps check_elbo_def divide_le_0_iff mult_le_0_iff clip_gamma_guards pi_guard)

lemma not_isl_Inr: "\<not> isl x \<Longrightarrow> \<exists>y. x = Inr y"
  by (cases x) simp_all

lemma initialize_opt_one_variant:
  "initialize_opt (one_variant_opt, rng_half) = Inr (one_variant_opt_init, rng_half)"
  by (simp add: one_variant_opt_init_def one_variant_opt_def init_defs eval_defs)

lemma initialize_sbayes_one_variant:
  "initialize_sbayes (one_variant_sbayes, rng_half) = Inr (one_variant_sbayes_init, rng_half)"
  by (simp add: one_variant_sbayes_init_def one_variant_sbayes_def init_defs eval_defs)

lemma m_step_opt_one_variant: "\<not> isl (m_step_opt one_variant_opt_init)"
  by (simp add: one_variant_opt_init_def one_variant_opt_def eval_defs iteration_opt_defs)

lemma m_step_sbayes_one_variant: "\<not> isl (m_step_sbayes one_variant_sbayes_init)"
  by (simp add: one_variant_sbayes_init_def one_variant_sbayes_def eval_defs iteration_sbayes_defs)

lemma iterate_opt_one_variant: "\<not> isl (iterate iteration_opt 2 one_variant_opt_init)"
  using clip_gamma[of "sigmoid (ln (1 / 9) + ln (1 / 11) / 2 + 50 / 11)"]
  by (simp add: one_variant_opt_init_def one_variant_opt_def eval_defs iteration_opt_defs
      divide_le_0_iff mult_le_0_iff clip_gamma_guards pi_guard)

lemma iterate_sbayes_one_variant: "\<not> isl (iterate iteration_sbayes 1 one_variant_sbayes_init)"
  using clip_gamma[of "sigmoid (ln (1 / 9) + ln (1 / 11) / 2 + 50 / 11)"]
  by (simp add: one_variant_sbayes_init_def one_variant_sbayes_def eval_defs iteration_sbayes_defs
      divide_le_0_iff mult_le_0_iff clip_gamma_guards pi_guard)





section \<open>The claims\<close>

subsection \<open>C7: inputs of inconsistent sizes\<close>

text \<open>
  C7, as amended. Initialization does not look at the sizes of the per-block input arrays
  and rejects nothing: whenever \<open>M > 0\<close> (and \<open>shapes\<close> is a dict, that is, holds no key
  twice) \<^verbatim>\<open>initialize\<close> returns normally in both classes, and every block of \<open>shapes\<close> has
  variational arrays (and \<open>q\<close>, or \<open>sig_e_snp\<close>) of the declared size, whatever the lengths
  of \<^verbatim>\<open>beta_hat\<close>, of the LD rows and of the window boundaries are.
\<close>

theorem C7_initialize_checks_no_shape:
  assumes "M s \<noteq> 0" "distinct (map fst (shapes s))" "M t \<noteq> 0" "distinct (map fst (shapes t))"
  shows "(\<exists>s' g'. initialize_opt (s, g) = Inr (s', g')
            \<and> (\<forall>(c, n) \<in> set (shapes s). var_lens s' c n \<and> has_len (q s') c n))
       \<and> (\<exists>t' g'. initialize_sbayes (t, g) = Inr (t', g')
            \<and> (\<forall>(c, n) \<in> set (shapes t). var_lens t' c n \<and> has_len (sig_e_snp t') c n))"
  using initialize_opt_total[OF assms(1,2)] initialize_sbayes_total[OF assms(3,4)] by blast

text \<open>
  The theorem at the sample whose block is declared with two variants while the data
  loader and the LD matrix hold one: the inputs are inconsistent, and initialization
  succeeds.
\<close>

theorem C7_initialize_checks_no_shape_witness:
  "M mismatched_opt \<noteq> 0 \<and> distinct (map fst (shapes mismatched_opt))
   \<and> M mismatched_sbayes \<noteq> 0 \<and> distinct (map fst (shapes mismatched_sbayes))
   \<and> \<not> inputs_consistent mismatched_opt \<and> \<not> inputs_consistent_sbayes mismatched_sbayes
   \<and> (\<exists>s' g'. initialize_opt (mismatched_opt, rng_half) = Inr (s', g')
            \<and> (\<forall>(c, n) \<in> set (shapes mismatched_opt). var_lens s' c n \<and> has_len (q s') c n))
   \<and> (\<exists>t' g'. initialize_sbayes (mismatched_sbayes, rng_half) = Inr (t', g')
            \<and> (\<forall>(c, n) \<in> set (shapes mismatched_sbayes). var_lens t' c n \<and> has_len (sig_e_snp t') c n))"
proof -
  have h: "M mismatched_opt \<noteq> 0" "distinct (map fst (shapes mismatched_opt))"
    "M mismatched_sbayes \<noteq> 0" "distinct (map fst (shapes mismatched_sbayes))"
    by (simp_all add: mismatched_opt_def mismatched_sbayes_def one_variant_opt_def one_variant_sbayes_def)
  have i: "\<not> inputs_consistent mismatched_opt" "\<not> inputs_consistent_sbayes mismatched_sbayes"
    by (simp_all add: inputs_consistent_def inputs_consistent_sbayes_def has_len_def
        mismatched_opt_def mismatched_sbayes_def one_variant_opt_def one_variant_sbayes_def)
  show ?thesis
    using h i C7_initialize_checks_no_shape[OF h, of rng_half] by blast
qed

text \<open>
  C7 as stated fails: on the same inputs of inconsistent sizes neither \<^verbatim>\<open>initialize\<close>
  raises.
\<close>

theorem C7_counterexample:
  "\<not> inputs_consistent mismatched_opt \<and> \<not> isl (initialize_opt (mismatched_opt, rng_half))
   \<and> \<not> inputs_consistent_sbayes mismatched_sbayes \<and> \<not> isl (initialize_sbayes (mismatched_sbayes, rng_half))"
  by (simp add: inputs_consistent_def inputs_consistent_sbayes_def has_len_def
        mismatched_opt_def mismatched_sbayes_def one_variant_opt_def one_variant_sbayes_def
        initialize_opt_def initialize_sbayes_def initialize_variational_params_opt_def
        initialize_variational_params_sbayes_def init_var_block_def random_uniform_vec_def
        random_normal_vec_def rng_half_def initialize_theta_opt_def initialize_theta_sbayes_def
        init_history_def setitem_def Let_def)

subsection \<open>C3: the ranges after an M-step\<close>

text \<open>
  C3, as amended. For every valid input state (\<open>valid_m_step_opt\<close>, \<open>valid_m_step_sbayes\<close>:
  sizes consistent, inclusion probabilities in \<open>[0, 1]\<close> with a positive sum, \<open>sigma_beta\<close>
  and \<open>sigma_epsilon\<close> at least \<open>1e-12\<close>, every stored number of magnitude at most \<open>1e50\<close>)
  one M-step returns, in either class, and after it every parameter that is not pinned
  lies in its range: \<open>pi\<close> in \<open>[1/M, 1]\<close> and \<open>sigma_epsilon\<close> in \<open>[1e-12, 1e12]\<close> in both
  classes, \<open>sigma_beta\<close> in \<open>[1e-12, 1e12]\<close> in \<^verbatim>\<open>vem_prs_opt\<close>, and in \<^verbatim>\<open>vem_prs_sbayes\<close> every
  entry of \<^verbatim>\<open>sig_e_snp\<close> of every block of \<open>shapes\<close> in \<open>[1e-12, 1e12]\<close>. In \<^verbatim>\<open>vem_prs_sbayes\<close>
  \<open>sigma_beta\<close> is clipped from below only (\<^verbatim>\<open>np.clip(self.sigma_beta, 1e-12, np.inf)\<close>): it is
  at least \<open>1e-12\<close>.
\<close>

theorem C3_m_step_ranges:
  "(valid_m_step_opt s \<longrightarrow>
      (\<exists>s'. m_step_opt s = Inr s'
         \<and> (''pi'' \<notin> dom (fix_params s) \<longrightarrow> 1 / real (M s) \<le> pi_par s' \<and> pi_par s' \<le> 1)
         \<and> (''sigma_beta'' \<notin> dom (fix_params s) \<longrightarrow>
               1 / 10 ^ 12 \<le> sigma_beta s' \<and> sigma_beta s' \<le> 10 ^ 12)
         \<and> (''sigma_epsilon'' \<notin> dom (fix_params s) \<longrightarrow>
               1 / 10 ^ 12 \<le> sigma_epsilon s' \<and> sigma_epsilon s' \<le> 10 ^ 12)))
 \<and> (valid_m_step_sbayes t \<longrightarrow>
      (\<exists>t'. m_step_sbayes t = Inr t'
         \<and> (''pi'' \<notin> dom (fix_params t) \<longrightarrow> 1 / real (M t) \<le> pi_par t' \<and> pi_par t' \<le> 1)
         \<and> (''sigma_beta'' \<notin> dom (fix_params t) \<longrightarrow> 1 / 10 ^ 12 \<le> sigma_beta t')
         \<and> (''sigma_epsilon'' \<notin> dom (fix_params t) \<longrightarrow>
               1 / 10 ^ 12 \<le> sigma_epsilon t' \<and> sigma_epsilon t' \<le> 10 ^ 12)
         \<and> (\<forall>c \<in> fst ` set (shapes t). in_range (sig_e_snp t') c)))"
proof (intro conjI impI)
  assume "valid_m_step_opt s"
  from m_step_opt_total[OF this] obtain s' where s': "m_step_opt s = Inr s'" by blast
  from m_step_opt_ranges[OF s'] s'
  show "\<exists>s'. m_step_opt s = Inr s'
         \<and> (''pi'' \<notin> dom (fix_params s) \<longrightarrow> 1 / real (M s) \<le> pi_par s' \<and> pi_par s' \<le> 1)
         \<and> (''sigma_beta'' \<notin> dom (fix_params s) \<longrightarrow>
               1 / 10 ^ 12 \<le> sigma_beta s' \<and> sigma_beta s' \<le> 10 ^ 12)
         \<and> (''sigma_epsilon'' \<notin> dom (fix_params s) \<longrightarrow>
               1 / 10 ^ 12 \<le> sigma_epsilon s' \<and> sigma_epsilon s' \<le> 10 ^ 12)"
    by (intro exI[of _ s']) simp
next
  assume "valid_m_step_sbayes t"
  from m_step_sbayes_total[OF this] obtain t' where t': "m_step_sbayes t = Inr t'" by blast
  from m_step_sbayes_ranges[OF t'] t'
  show "\<exists>t'. m_step_sbayes t = Inr t'
         \<and> (''pi'' \<notin> dom (fix_params t) \<longrightarrow> 1 / real (M t) \<le> pi_par t' \<and> pi_par t' \<le> 1)
         \<and> (''sigma_beta'' \<notin> dom (fix_params t) \<longrightarrow> 1 / 10 ^ 12 \<le> sigma_beta t')
         \<and> (''sigma_epsilon'' \<notin> dom (fix_params t) \<longrightarrow>
               1 / 10 ^ 12 \<le> sigma_epsilon t' \<and> sigma_epsilon t' \<le> 10 ^ 12)
         \<and> (\<forall>c \<in> fst ` set (shapes t). in_range (sig_e_snp t') c)"
    by (intro exI[of _ t']) simp
qed

text \<open>
  The theorem at the two samples with two correlated variants and nothing pinned: both are
  valid states, both M-steps return and all the bounds hold.
\<close>

theorem C3_m_step_ranges_witness:
  "valid_m_step_opt two_variant_opt \<and> valid_m_step_sbayes two_variant_sbayes
   \<and> dom (fix_params two_variant_opt) = {} \<and> dom (fix_params two_variant_sbayes) = {}
   \<and> (\<exists>s' t'. m_step_opt two_variant_opt = Inr s' \<and> m_step_sbayes two_variant_sbayes = Inr t'
     \<and> 1 / real (M two_variant_opt) \<le> pi_par s' \<and> pi_par s' \<le> 1
     \<and> 1 / 10 ^ 12 \<le> sigma_beta s' \<and> sigma_beta s' \<le> 10 ^ 12
     \<and> 1 / 10 ^ 12 \<le> sigma_epsilon s' \<and> sigma_epsilon s' \<le> 10 ^ 12
     \<and> 1 / real (M two_variant_sbayes) \<le> pi_par t' \<and> pi_par t' \<le> 1
     \<and> 1 / 10 ^ 12 \<le> sigma_beta t'
     \<and> 1 / 10 ^ 12 \<le> sigma_epsilon t' \<and> sigma_epsilon t' \<le> 10 ^ 12
     \<and> (\<forall>c \<in> fst ` set (shapes two_variant_sbayes). in_range (sig_e_snp t') c))"
proof -
  note v = valid_two_variant(1,2)
  have d: "dom (fix_params two_variant_opt) = {}" "dom (fix_params two_variant_sbayes) = {}"
    by (simp_all add: two_variant_opt_def two_variant_sbayes_def)
  note c = C3_m_step_ranges[of two_variant_opt two_variant_sbayes]
  from c v(1) d(1) obtain s' where s: "m_step_opt two_variant_opt = Inr s'"
    and o: "1 / real (M two_variant_opt) \<le> pi_par s' \<and> pi_par s' \<le> 1
     \<and> 1 / 10 ^ 12 \<le> sigma_beta s' \<and> sigma_beta s' \<le> 10 ^ 12
     \<and> 1 / 10 ^ 12 \<le> sigma_epsilon s' \<and> sigma_epsilon s' \<le> 10 ^ 12"
    by auto
  from c v(2) d(2) obtain t' where t: "m_step_sbayes two_variant_sbayes = Inr t'"
    and b: "1 / real (M two_variant_sbayes) \<le> pi_par t' \<and> pi_par t' \<le> 1
     \<and> 1 / 10 ^ 12 \<le> sigma_beta t'
     \<and> 1 / 10 ^ 12 \<le> sigma_epsilon t' \<and> sigma_epsilon t' \<le> 10 ^ 12
     \<and> (\<forall>c \<in> fst ` set (shapes two_variant_sbayes). in_range (sig_e_snp t') c)"
    by auto
  have "\<exists>s' t'. m_step_opt two_variant_opt = Inr s' \<and> m_step_sbayes two_variant_sbayes = Inr t'
     \<and> 1 / real (M two_variant_opt) \<le> pi_par s' \<and> pi_par s' \<le> 1
     \<and> 1 / 10 ^ 12 \<le> sigma_beta s' \<and> sigma_beta s' \<le> 10 ^ 12
     \<and> 1 / 10 ^ 12 \<le> sigma_epsilon s' \<and> sigma_epsilon s' \<le> 10 ^ 12
     \<and> 1 / real (M two_variant_sbayes) \<le> pi_par t' \<and> pi_par t' \<le> 1
     \<and> 1 / 10 ^ 12 \<le> sigma_beta t'
     \<and> 1 / 10 ^ 12 \<le> sigma_epsilon t' \<and> sigma_epsilon t' \<le> 10 ^ 12
     \<and> (\<forall>c \<in> fst ` set (shapes two_variant_sbayes). in_range (sig_e_snp t') c)"
    by (rule exI[of _ s'], rule exI[of _ t']) (use s t o b in simp)
  with v d show ?thesis by simp
qed

text \<open>
  C3 as stated fails in \<^verbatim>\<open>vem_prs_sbayes\<close>: on the valid state with the prior scaled by a
  residual variance of \<open>1e-12\<close> and posterior means of size one, the M-step returns with
  \<open>sigma_beta\<close> not pinned and above \<open>1e12\<close>.
\<close>

theorem C3_counterexample:
  "valid_m_step_sbayes small_residual_sbayes
   \<and> \<not> isl (m_step_sbayes small_residual_sbayes)
   \<and> ''sigma_beta'' \<notin> dom (fix_params small_residual_sbayes)
   \<and> \<not> sigma_beta (projr (m_step_sbayes small_residual_sbayes)) \<le> 10 ^ 12"
  using valid_two_variant(3)
  by (simp add: small_residual_sbayes_def two_variant_sbayes_def m_step_sbayes_defs eval_defs)

subsection \<open>C5: pinned parameters\<close>

text \<open>
  C5. For a parameter \<open>name\<close> among \<open>pi\<close>, \<open>sigma_beta\<close>, \<open>sigma_epsilon\<close> that the
  fixed-parameters configuration names, in both classes: \<^verbatim>\<open>initialize\<close> sets it to the
  configured value, whatever the random generator returns; an M-step leaves it unchanged;
  so do \<open>k\<close> turns of the loop body, for every \<open>k\<close>; and after a fit that initializes, whatever
  the number of iterations it runs, the parameter is the configured value.
\<close>

theorem C5_pinned_parameters:
  assumes "name \<in> {''pi'', ''sigma_beta'', ''sigma_epsilon''}"
  shows "(fix_params s name = Some v \<and> initialize_opt (s, g) = Inr (s0, g0) \<longrightarrow> param name s0 = v)
       \<and> (name \<in> dom (fix_params u) \<and> m_step_opt u = Inr u1 \<longrightarrow> param name u1 = param name u)
       \<and> (name \<in> dom (fix_params u) \<and> iterate iteration_opt k u = Inr u2 \<longrightarrow>
             param name u2 = param name u)
       \<and> (fix_params s name = Some v \<and> fit_opt mi False tol med (s, g) = Inr (s3, g3, i, out) \<longrightarrow>
             param name s3 = v)
       \<and> (fix_params t name = Some v \<and> initialize_sbayes (t, g) = Inr (t0, g0') \<longrightarrow> param name t0 = v)
       \<and> (name \<in> dom (fix_params w) \<and> m_step_sbayes w = Inr w1 \<longrightarrow> param name w1 = param name w)
       \<and> (name \<in> dom (fix_params w) \<and> iterate iteration_sbayes k w = Inr w2 \<longrightarrow>
             param name w2 = param name w)
       \<and> (fix_params t name = Some v \<and> fit_sbayes mi False tol med (t, g) = Inr (t3, g3', j, out') \<longrightarrow>
             param name t3 = v)"
proof -
  have 1: "param name s0 = v" if "fix_params s name = Some v" "initialize_opt (s, g) = Inr (s0, g0)"
    using initialize_effect_param[OF initialize_opt_effect[OF that(2)] that(1) assms] by simp
  have 2: "param name u1 = param name u" if "name \<in> dom (fix_params u)" "m_step_opt u = Inr u1"
    using m_step_opt_fixed[OF that(2) that(1) assms] .
  have 3: "param name u2 = param name u"
    if "name \<in> dom (fix_params u)" "iterate iteration_opt k u = Inr u2"
  proof -
    from that(1) obtain x where "fix_params u name = Some x" by auto
    from iterate_fixed[OF iteration_opt_effect that(2) this assms] show ?thesis by simp
  qed
  have 4: "param name s3 = v"
    if "fix_params s name = Some v" "fit_opt mi False tol med (s, g) = Inr (s3, g3, i, out)"
    using fit_fixed[OF initialize_opt_effect iteration_opt_effect that(2)[unfolded fit_opt_def] that(1) assms]
    by simp
  have 5: "param name t0 = v" if "fix_params t name = Some v" "initialize_sbayes (t, g) = Inr (t0, g0')"
    using initialize_effect_param[OF initialize_sbayes_effect[OF that(2)] that(1) assms] by simp
  have 6: "param name w1 = param name w" if "name \<in> dom (fix_params w)" "m_step_sbayes w = Inr w1"
    using m_step_sbayes_fixed[OF that(2) that(1) assms] .
  have 7: "param name w2 = param name w"
    if "name \<in> dom (fix_params w)" "iterate iteration_sbayes k w = Inr w2"
  proof -
    from that(1) obtain x where "fix_params w name = Some x" by auto
    from iterate_fixed[OF iteration_sbayes_effect that(2) this assms] show ?thesis by simp
  qed
  have 8: "param name t3 = v"
    if "fix_params t name = Some v" "fit_sbayes mi False tol med (t, g) = Inr (t3, g3', j, out')"
    using fit_fixed[OF initialize_sbayes_effect iteration_sbayes_effect that(2)[unfolded fit_sbayes_def] that(1) assms]
    by simp
  from 1 2 3 4 5 6 7 8 show ?thesis by blast
qed

text \<open>
  The theorem at the one-variant samples, where \<open>pi\<close> is pinned to \<open>0.1\<close>: initialization, an
  M-step, two (one) turns of the loop body and a fit of at most two (one) iterations all
  return, and \<open>pi\<close> is \<open>0.1\<close> throughout.
\<close>

theorem C5_pinned_parameters_witness:
  "''pi'' \<in> {''pi'', ''sigma_beta'', ''sigma_epsilon''}
   \<and> fix_params one_variant_opt ''pi'' = Some (1 / 10)
   \<and> ''pi'' \<in> dom (fix_params one_variant_opt_init)
   \<and> fix_params one_variant_sbayes ''pi'' = Some (1 / 10)
   \<and> ''pi'' \<in> dom (fix_params one_variant_sbayes_init)
   \<and> (\<exists>s0 g0 u1 u2 s3 g3 i out.
         initialize_opt (one_variant_opt, rng_half) = Inr (s0, g0) \<and> param ''pi'' s0 = 1 / 10
       \<and> m_step_opt one_variant_opt_init = Inr u1
       \<and> param ''pi'' u1 = param ''pi'' one_variant_opt_init
       \<and> iterate iteration_opt 2 one_variant_opt_init = Inr u2
       \<and> param ''pi'' u2 = param ''pi'' one_variant_opt_init
       \<and> fit_opt 2 False (1 / 10 ^ 6) 10 (one_variant_opt, rng_half) = Inr (s3, g3, i, out)
       \<and> param ''pi'' s3 = 1 / 10)
   \<and> (\<exists>t0 g0 w1 w2 t3 g3 j out.
         initialize_sbayes (one_variant_sbayes, rng_half) = Inr (t0, g0) \<and> param ''pi'' t0 = 1 / 10
       \<and> m_step_sbayes one_variant_sbayes_init = Inr w1
       \<and> param ''pi'' w1 = param ''pi'' one_variant_sbayes_init
       \<and> iterate iteration_sbayes 1 one_variant_sbayes_init = Inr w2
       \<and> param ''pi'' w2 = param ''pi'' one_variant_sbayes_init
       \<and> fit_sbayes 1 False (1 / 10 ^ 6) 10 (one_variant_sbayes, rng_half) = Inr (t3, g3, j, out)
       \<and> param ''pi'' t3 = 1 / 10)"
proof -
  have n: "''pi'' \<in> {''pi'', ''sigma_beta'', ''sigma_epsilon''}" by simp
  have fo: "fix_params one_variant_opt ''pi'' = Some (1 / 10)"
    and fs: "fix_params one_variant_sbayes ''pi'' = Some (1 / 10)"
    by (simp_all add: one_variant_opt_def one_variant_sbayes_def)
  have doi: "''pi'' \<in> dom (fix_params one_variant_opt_init)"
    and dsi: "''pi'' \<in> dom (fix_params one_variant_sbayes_init)"
    by (simp_all add: one_variant_opt_init_def one_variant_sbayes_init_def
        one_variant_opt_def one_variant_sbayes_def)
  from not_isl_Inr[OF m_step_opt_one_variant] obtain u1 where
    u1: "m_step_opt one_variant_opt_init = Inr u1" by blast
  from not_isl_Inr[OF iterate_opt_one_variant] obtain u2 where
    u2: "iterate iteration_opt 2 one_variant_opt_init = Inr u2" by blast
  from not_isl_Inr[OF fit_opt_one_variant_returns] obtain r where
    "fit_opt 2 False (1 / 10 ^ 6) 10 (one_variant_opt, rng_half) = Inr r" by blast
  then obtain s3 g3 i out where
    s3: "fit_opt 2 False (1 / 10 ^ 6) 10 (one_variant_opt, rng_half) = Inr (s3, g3, i, out)"
    by (cases r) auto
  from not_isl_Inr[OF m_step_sbayes_one_variant] obtain w1 where
    w1: "m_step_sbayes one_variant_sbayes_init = Inr w1" by blast
  from not_isl_Inr[OF iterate_sbayes_one_variant] obtain w2 where
    w2: "iterate iteration_sbayes 1 one_variant_sbayes_init = Inr w2" by blast
  from not_isl_Inr[OF fit_sbayes_one_variant_returns] obtain r' where
    "fit_sbayes 1 False (1 / 10 ^ 6) 10 (one_variant_sbayes, rng_half) = Inr r'" by blast
  then obtain t3 g3' j out' where
    t3: "fit_sbayes 1 False (1 / 10 ^ 6) 10 (one_variant_sbayes, rng_half) = Inr (t3, g3', j, out')"
    by (cases r') auto
  note c = C5_pinned_parameters[OF n, where s = one_variant_opt and v = "1 / 10" and g = rng_half
      and ?s0.0 = one_variant_opt_init and ?g0.0 = rng_half and u = one_variant_opt_init
      and ?u1.0 = u1 and k = 2 and ?u2.0 = u2 and mi = 2 and tol = "1 / 10 ^ 6" and med = 10
      and ?s3.0 = s3 and ?g3.0 = g3 and i = i and out = out
      and t = one_variant_sbayes and ?t0.0 = one_variant_sbayes_init and g0' = rng_half
      and w = one_variant_sbayes_init and ?w1.0 = w1]
  note d = C5_pinned_parameters[OF n, where t = one_variant_sbayes and v = "1 / 10" and g = rng_half
      and w = one_variant_sbayes_init and k = 1 and ?w2.0 = w2 and mi = 1 and tol = "1 / 10 ^ 6"
      and med = 10 and ?t3.0 = t3 and g3' = g3' and j = j and out' = out']
  have o: "param ''pi'' one_variant_opt_init = 1 / 10"
    "param ''pi'' u1 = param ''pi'' one_variant_opt_init"
    "param ''pi'' u2 = param ''pi'' one_variant_opt_init"
    "param ''pi'' s3 = 1 / 10"
    using c fo doi initialize_opt_one_variant u1 u2 s3 by simp_all
  have b: "param ''pi'' one_variant_sbayes_init = 1 / 10"
    "param ''pi'' w1 = param ''pi'' one_variant_sbayes_init"
    using c fs dsi initialize_sbayes_one_variant w1 by simp_all
  have b': "param ''pi'' w2 = param ''pi'' one_variant_sbayes_init"
    "param ''pi'' t3 = 1 / 10"
    using d fs dsi w2 t3 by simp_all
  have opt: "\<exists>s0 g0 u1 u2 s3 g3 i out.
         initialize_opt (one_variant_opt, rng_half) = Inr (s0, g0) \<and> param ''pi'' s0 = 1 / 10
       \<and> m_step_opt one_variant_opt_init = Inr u1
       \<and> param ''pi'' u1 = param ''pi'' one_variant_opt_init
       \<and> iterate iteration_opt 2 one_variant_opt_init = Inr u2
       \<and> param ''pi'' u2 = param ''pi'' one_variant_opt_init
       \<and> fit_opt 2 False (1 / 10 ^ 6) 10 (one_variant_opt, rng_half) = Inr (s3, g3, i, out)
       \<and> param ''pi'' s3 = 1 / 10"
    using initialize_opt_one_variant u1 u2 s3 o by blast
  have sb: "\<exists>t0 g0 w1 w2 t3 g3 j out.
         initialize_sbayes (one_variant_sbayes, rng_half) = Inr (t0, g0) \<and> param ''pi'' t0 = 1 / 10
       \<and> m_step_sbayes one_variant_sbayes_init = Inr w1
       \<and> param ''pi'' w1 = param ''pi'' one_variant_sbayes_init
       \<and> iterate iteration_sbayes 1 one_variant_sbayes_init = Inr w2
       \<and> param ''pi'' w2 = param ''pi'' one_variant_sbayes_init
       \<and> fit_sbayes 1 False (1 / 10 ^ 6) 10 (one_variant_sbayes, rng_half) = Inr (t3, g3, j, out)
       \<and> param ''pi'' t3 = 1 / 10"
    using initialize_sbayes_one_variant w1 w2 t3 b b' by blast
  from n fo fs doi dsi opt sb show ?thesis by blast
qed

subsection \<open>C8: the parameter histories\<close>

text \<open>
  C8. In both classes, for the histories of \<open>pi\<close>, \<open>sigma_beta\<close> and \<open>sigma_epsilon\<close>: an M-step
  that returns appends exactly one value to each, the value the parameter has after the
  step, which for a pinned parameter is its unchanged value, and changes no other history;
  \<^verbatim>\<open>initialize\<close> leaves the three histories empty; \<open>k\<close> turns of the loop body extend a history
  \<open>h\<close> to \<open>h @ new\<close> with \<open>new\<close> of length \<open>k\<close>, so nothing is ever removed; and after a fit that
  initializes and stops with its counter at \<open>i\<close>, each history has length \<open>i\<close>.
\<close>

theorem C8_history_appends:
  assumes "key \<in> {''pi'', ''sigma_beta'', ''sigma_epsilon''}"
  shows "(m_step_opt u = Inr u1 \<longrightarrow>
            (\<exists>hp hb he. history u ''pi'' = Some hp \<and> history u ''sigma_beta'' = Some hb
                \<and> history u ''sigma_epsilon'' = Some he
                \<and> history u1 = (history u)(''pi'' \<mapsto> hp @ [pi_par u1],
                      ''sigma_beta'' \<mapsto> hb @ [sigma_beta u1],
                      ''sigma_epsilon'' \<mapsto> he @ [sigma_epsilon u1]))
          \<and> (''pi'' \<in> dom (fix_params u) \<longrightarrow> pi_par u1 = pi_par u)
          \<and> (''sigma_beta'' \<in> dom (fix_params u) \<longrightarrow> sigma_beta u1 = sigma_beta u)
          \<and> (''sigma_epsilon'' \<in> dom (fix_params u) \<longrightarrow> sigma_epsilon u1 = sigma_epsilon u))
       \<and> (initialize_opt (s, g) = Inr (s0, g0) \<longrightarrow>
            history s0 ''pi'' = Some [] \<and> history s0 ''sigma_beta'' = Some []
          \<and> history s0 ''sigma_epsilon'' = Some [])
       \<and> (history u key = Some h \<and> iterate iteration_opt k u = Inr u2 \<longrightarrow>
            (\<exists>new. history u2 key = Some (h @ new) \<and> length new = k))
       \<and> (fit_opt mi False tol med (s, g) = Inr (s3, g3, i, out) \<longrightarrow>
            (\<exists>h'. history s3 key = Some h' \<and> length h' = i))
       \<and> (m_step_sbayes w = Inr w1 \<longrightarrow>
            (\<exists>hp hb he. history w ''pi'' = Some hp \<and> history w ''sigma_beta'' = Some hb
                \<and> history w ''sigma_epsilon'' = Some he
                \<and> history w1 = (history w)(''pi'' \<mapsto> hp @ [pi_par w1],
                      ''sigma_beta'' \<mapsto> hb @ [sigma_beta w1],
                      ''sigma_epsilon'' \<mapsto> he @ [sigma_epsilon w1]))
          \<and> (''pi'' \<in> dom (fix_params w) \<longrightarrow> pi_par w1 = pi_par w)
          \<and> (''sigma_beta'' \<in> dom (fix_params w) \<longrightarrow> sigma_beta w1 = sigma_beta w)
          \<and> (''sigma_epsilon'' \<in> dom (fix_params w) \<longrightarrow> sigma_epsilon w1 = sigma_epsilon w))
       \<and> (initialize_sbayes (t, g) = Inr (t0, g0') \<longrightarrow>
            history t0 ''pi'' = Some [] \<and> history t0 ''sigma_beta'' = Some []
          \<and> history t0 ''sigma_epsilon'' = Some [])
       \<and> (history w key = Some h \<and> iterate iteration_sbayes k w = Inr w2 \<longrightarrow>
            (\<exists>new. history w2 key = Some (h @ new) \<and> length new = k))
       \<and> (fit_sbayes mi False tol med (t, g) = Inr (t3, g3', j, out') \<longrightarrow>
            (\<exists>h'. history t3 key = Some h' \<and> length h' = j))"
proof -
  from assms have key5: "key \<in> {''pi'', ''sigma_beta'', ''sigma_epsilon'', ''ELBO'', ''heritability''}"
    by auto
  note 1 = m_step_opt_history[of u u1]
  have 2: "history s0 ''pi'' = Some [] \<and> history s0 ''sigma_beta'' = Some []
          \<and> history s0 ''sigma_epsilon'' = Some []" if "initialize_opt (s, g) = Inr (s0, g0)"
    using initialize_effect_history[OF initialize_opt_effect[OF that]] .
  have 3: "\<exists>new. history u2 key = Some (h @ new) \<and> length new = k"
    if "history u key = Some h" "iterate iteration_opt k u = Inr u2"
    using iterate_history[OF iteration_opt_effect that(2) that(1) key5] .
  have 4: "\<exists>h'. history s3 key = Some h' \<and> length h' = i"
    if "fit_opt mi False tol med (s, g) = Inr (s3, g3, i, out)"
    using fit_history[OF initialize_opt_effect iteration_opt_effect that[unfolded fit_opt_def] key5] .
  note 5 = m_step_sbayes_history[of w w1]
  have 6: "history t0 ''pi'' = Some [] \<and> history t0 ''sigma_beta'' = Some []
          \<and> history t0 ''sigma_epsilon'' = Some []" if "initialize_sbayes (t, g) = Inr (t0, g0')"
    using initialize_effect_history[OF initialize_sbayes_effect[OF that]] .
  have 7: "\<exists>new. history w2 key = Some (h @ new) \<and> length new = k"
    if "history w key = Some h" "iterate iteration_sbayes k w = Inr w2"
    using iterate_history[OF iteration_sbayes_effect that(2) that(1) key5] .
  have 8: "\<exists>h'. history t3 key = Some h' \<and> length h' = j"
    if "fit_sbayes mi False tol med (t, g) = Inr (t3, g3', j, out')"
    using fit_history[OF initialize_sbayes_effect iteration_sbayes_effect that[unfolded fit_sbayes_def] key5] .
  show ?thesis
    apply (intro conjI impI)
    subgoal using 1 by blast
    subgoal using 1 by blast
    subgoal using 1 by blast
    subgoal using 1 by blast
    subgoal using 2 by blast
    subgoal using 2 by blast
    subgoal using 2 by blast
    subgoal using 3 by blast
    subgoal using 4 by blast
    subgoal using 5 by blast
    subgoal using 5 by blast
    subgoal using 5 by blast
    subgoal using 5 by blast
    subgoal using 6 by blast
    subgoal using 6 by blast
    subgoal using 6 by blast
    subgoal using 7 by blast
    subgoal using 8 by blast
    done
qed

text \<open>
  The theorem at the one-variant samples, for the history of \<open>pi\<close>, which is pinned: the
  M-step appends the pinned value, and the runs give histories of lengths two, one and
  of the length of the final counter.
\<close>

theorem C8_history_appends_witness:
  "''pi'' \<in> {''pi'', ''sigma_beta'', ''sigma_epsilon''}
   \<and> history one_variant_opt_init ''pi'' = Some []
   \<and> history one_variant_sbayes_init ''pi'' = Some []
   \<and> ''pi'' \<in> dom (fix_params one_variant_opt_init)
   \<and> ''pi'' \<in> dom (fix_params one_variant_sbayes_init)
   \<and> (\<exists>s0 g0 u1 u2 s3 g3 i out.
         m_step_opt one_variant_opt_init = Inr u1
       \<and> history u1 ''pi'' = Some [pi_par u1] \<and> pi_par u1 = pi_par one_variant_opt_init
       \<and> initialize_opt (one_variant_opt, rng_half) = Inr (s0, g0) \<and> history s0 ''pi'' = Some []
       \<and> iterate iteration_opt 2 one_variant_opt_init = Inr u2
       \<and> (\<exists>new. history u2 ''pi'' = Some new \<and> length new = 2)
       \<and> fit_opt 2 False (1 / 10 ^ 6) 10 (one_variant_opt, rng_half) = Inr (s3, g3, i, out)
       \<and> (\<exists>h'. history s3 ''pi'' = Some h' \<and> length h' = i))
   \<and> (\<exists>t0 g0 w1 w2 t3 g3 j out.
         m_step_sbayes one_variant_sbayes_init = Inr w1
       \<and> history w1 ''pi'' = Some [pi_par w1] \<and> pi_par w1 = pi_par one_variant_sbayes_init
       \<and> initialize_sbayes (one_variant_sbayes, rng_half) = Inr (t0, g0) \<and> history t0 ''pi'' = Some []
       \<and> iterate iteration_sbayes 1 one_variant_sbayes_init = Inr w2
       \<and> (\<exists>new. history w2 ''pi'' = Some new \<and> length new = 1)
       \<and> fit_sbayes 1 False (1 / 10 ^ 6) 10 (one_variant_sbayes, rng_half) = Inr (t3, g3, j, out)
       \<and> (\<exists>h'. history t3 ''pi'' = Some h' \<and> length h' = j))"
proof -
  have n: "''pi'' \<in> {''pi'', ''sigma_beta'', ''sigma_epsilon''}" by simp
  have ho: "history one_variant_opt_init ''pi'' = Some []"
    and hs: "history one_variant_sbayes_init ''pi'' = Some []"
    by (simp_all add: one_variant_opt_init_def one_variant_sbayes_init_def)
  have doi: "''pi'' \<in> dom (fix_params one_variant_opt_init)"
    and dsi: "''pi'' \<in> dom (fix_params one_variant_sbayes_init)"
    by (simp_all add: one_variant_opt_init_def one_variant_sbayes_init_def
        one_variant_opt_def one_variant_sbayes_def)
  from not_isl_Inr[OF m_step_opt_one_variant] obtain u1 where
    u1: "m_step_opt one_variant_opt_init = Inr u1" by blast
  from not_isl_Inr[OF iterate_opt_one_variant] obtain u2 where
    u2: "iterate iteration_opt 2 one_variant_opt_init = Inr u2" by blast
  from not_isl_Inr[OF fit_opt_one_variant_returns] obtain r where
    "fit_opt 2 False (1 / 10 ^ 6) 10 (one_variant_opt, rng_half) = Inr r" by blast
  then obtain s3 g3 i out where
    s3: "fit_opt 2 False (1 / 10 ^ 6) 10 (one_variant_opt, rng_half) = Inr (s3, g3, i, out)"
    by (cases r) auto
  from not_isl_Inr[OF m_step_sbayes_one_variant] obtain w1 where
    w1: "m_step_sbayes one_variant_sbayes_init = Inr w1" by blast
  from not_isl_Inr[OF iterate_sbayes_one_variant] obtain w2 where
    w2: "iterate iteration_sbayes 1 one_variant_sbayes_init = Inr w2" by blast
  from not_isl_Inr[OF fit_sbayes_one_variant_returns] obtain r' where
    "fit_sbayes 1 False (1 / 10 ^ 6) 10 (one_variant_sbayes, rng_half) = Inr r'" by blast
  then obtain t3 g3' j out' where
    t3: "fit_sbayes 1 False (1 / 10 ^ 6) 10 (one_variant_sbayes, rng_half) = Inr (t3, g3', j, out')"
    by (cases r') auto
  note c = C8_history_appends[OF n, where u = one_variant_opt_init and ?u1.0 = u1
      and s = one_variant_opt and g = rng_half and ?s0.0 = one_variant_opt_init and ?g0.0 = rng_half
      and h = "[]" and k = 2 and ?u2.0 = u2 and mi = 2 and tol = "1 / 10 ^ 6" and med = 10
      and ?s3.0 = s3 and ?g3.0 = g3 and i = i and out = out
      and w = one_variant_sbayes_init and ?w1.0 = w1
      and t = one_variant_sbayes and ?t0.0 = one_variant_sbayes_init and g0' = rng_half]
  note d = C8_history_appends[OF n, where h = "[]" and k = 1 and w = one_variant_sbayes_init
      and ?w2.0 = w2 and mi = 1 and tol = "1 / 10 ^ 6" and med = 10 and t = one_variant_sbayes
      and g = rng_half and ?t3.0 = t3 and g3' = g3' and j = j and out' = out']
  note mo = c[THEN conjunct1, THEN mp, OF u1]
  from mo obtain hp hb he where
    "history one_variant_opt_init ''pi'' = Some hp"
    "history u1 = (history one_variant_opt_init)(''pi'' \<mapsto> hp @ [pi_par u1],
                      ''sigma_beta'' \<mapsto> hb @ [sigma_beta u1],
                      ''sigma_epsilon'' \<mapsto> he @ [sigma_epsilon u1])"
    by blast
  with ho have o1a: "history u1 ''pi'' = Some [pi_par u1]" by simp
  from mo doi have o1b: "pi_par u1 = pi_par one_variant_opt_init" by blast
  note o1 = o1a o1b
  from c initialize_opt_one_variant have o2: "history one_variant_opt_init ''pi'' = Some []" by simp
  from c ho u2 have o3: "\<exists>new. history u2 ''pi'' = Some new \<and> length new = 2" by simp
  from c s3 have o4: "\<exists>h'. history s3 ''pi'' = Some h' \<and> length h' = i" by simp
  note ms = c[THEN conjunct2, THEN conjunct2, THEN conjunct2, THEN conjunct2, THEN conjunct1,
      THEN mp, OF w1]
  from ms obtain hp' hb' he' where
    "history one_variant_sbayes_init ''pi'' = Some hp'"
    "history w1 = (history one_variant_sbayes_init)(''pi'' \<mapsto> hp' @ [pi_par w1],
                      ''sigma_beta'' \<mapsto> hb' @ [sigma_beta w1],
                      ''sigma_epsilon'' \<mapsto> he' @ [sigma_epsilon w1])"
    by blast
  with hs have b1a: "history w1 ''pi'' = Some [pi_par w1]" by simp
  from ms dsi have b1b: "pi_par w1 = pi_par one_variant_sbayes_init" by blast
  note b1 = b1a b1b
  from d hs w2 have b3: "\<exists>new. history w2 ''pi'' = Some new \<and> length new = 1" by simp
  from d t3 have b4: "\<exists>h'. history t3 ''pi'' = Some h' \<and> length h' = j" by simp
  have opt: "\<exists>s0 g0 u1 u2 s3 g3 i out.
         m_step_opt one_variant_opt_init = Inr u1
       \<and> history u1 ''pi'' = Some [pi_par u1] \<and> pi_par u1 = pi_par one_variant_opt_init
       \<and> initialize_opt (one_variant_opt, rng_half) = Inr (s0, g0) \<and> history s0 ''pi'' = Some []
       \<and> iterate iteration_opt 2 one_variant_opt_init = Inr u2
       \<and> (\<exists>new. history u2 ''pi'' = Some new \<and> length new = 2)
       \<and> fit_opt 2 False (1 / 10 ^ 6) 10 (one_variant_opt, rng_half) = Inr (s3, g3, i, out)
       \<and> (\<exists>h'. history s3 ''pi'' = Some h' \<and> length h' = i)"
    using u1 o1 initialize_opt_one_variant o2 u2 o3 s3 o4 by blast
  have sb: "\<exists>t0 g0 w1 w2 t3 g3 j out.
         m_step_sbayes one_variant_sbayes_init = Inr w1
       \<and> history w1 ''pi'' = Some [pi_par w1] \<and> pi_par w1 = pi_par one_variant_sbayes_init
       \<and> initialize_sbayes (one_variant_sbayes, rng_half) = Inr (t0, g0) \<and> history t0 ''pi'' = Some []
       \<and> iterate iteration_sbayes 1 one_variant_sbayes_init = Inr w2
       \<and> (\<exists>new. history w2 ''pi'' = Some new \<and> length new = 1)
       \<and> fit_sbayes 1 False (1 / 10 ^ 6) 10 (one_variant_sbayes, rng_half) = Inr (t3, g3, j, out)
       \<and> (\<exists>h'. history t3 ''pi'' = Some h' \<and> length h' = j)"
    using w1 b1 initialize_sbayes_one_variant hs w2 b3 t3 b4 by blast
  from n ho hs doi dsi opt sb show ?thesis by blast
qed

subsection \<open>C6: the fit stops when the decreases exceed the threshold\<close>



subsection \<open>C10: convergence is tested before the halt\<close>



end
